(* ===== verification/Prelude.thy ===== *)
theory Prelude
  imports Main "HOL-Library.Word" "HOL-Library.Code_Target_Numeral"
begin

text \<open>
  Shared vocabulary of the development: the machine types of the C sources, the error codes of
  \<^verbatim>\<open>src/src/defs.h\<close>, the C library's string primitives on which the sources rely, and the generic
  lemmas on lists and words that the component theories use.

  A C string is a \<^typ>\<open>string\<close> without a NUL character; a byte buffer is a list of \<open>u8\<close>.
\<close>

unbundle bit_operations_syntax

section \<open>Machine types\<close>

type_synonym u8 = "8 word"
type_synonym u16 = "16 word"
type_synonym u32 = "32 word"
type_synonym u64 = "64 word"
type_synonym bytes = "u8 list"

text \<open>The C type \<^verbatim>\<open>time_t\<close>: seconds, unbounded here since no code path of the model comes near
  the range of the 64-bit type.\<close>
type_synonym time_t = int

section \<open>Error codes\<close>

abbreviation ERR_BAD_COMMAND :: int where "ERR_BAD_COMMAND \<equiv> - 2"
abbreviation ERR_AUTH_FAIL :: int where "ERR_AUTH_FAIL \<equiv> - 3"
abbreviation ERR_AUTH_CONTINUE :: int where "ERR_AUTH_CONTINUE \<equiv> - 4"
abbreviation ERR_WAIT_FOR_SCRIPT :: int where "ERR_WAIT_FOR_SCRIPT \<equiv> - 5"
abbreviation ERR_MEM :: int where "ERR_MEM \<equiv> - 6"
abbreviation ERR_NO_IP :: int where "ERR_NO_IP \<equiv> - 8"
abbreviation ERR_EXEC :: int where "ERR_EXEC \<equiv> - 10"
abbreviation ERR_PEER_TERMINATED :: int where "ERR_PEER_TERMINATED \<equiv> - 11"

section \<open>Buffers\<close>

text \<open>\<open>bslice off n xs\<close>: the \<open>n\<close> bytes at offset \<open>off\<close>. \<open>blit off ys xs\<close>: \<open>xs\<close> after \<open>ys\<close> was copied
  to offset \<open>off\<close>.\<close>

definition bslice :: "nat \<Rightarrow> nat \<Rightarrow> 'a list \<Rightarrow> 'a list" where
  "bslice off n xs = take n (drop off xs)"

definition blit :: "nat \<Rightarrow> 'a list \<Rightarrow> 'a list \<Rightarrow> 'a list" where
  "blit off ys xs = take off xs @ ys @ drop (off + length ys) xs"

named_theorems buf_simps \<open>reading a buffer after writing it\<close>

lemma length_bslice [buf_simps]: "off + n \<le> length xs \<Longrightarrow> length (bslice off n xs) = n"
  by (simp add: bslice_def)

lemma length_blit [buf_simps]: "off + length ys \<le> length xs \<Longrightarrow> length (blit off ys xs) = length xs"
  by (simp add: blit_def)

lemma bslice_blit_same [buf_simps]:
  "off + length ys \<le> length xs \<Longrightarrow> n = length ys \<Longrightarrow> bslice off n (blit off ys xs) = ys"
  by (simp add: bslice_def blit_def)

lemma bslice_blit_below [buf_simps]:
  "o1 + n \<le> off \<Longrightarrow> off \<le> length xs \<Longrightarrow> bslice o1 n (blit off ys xs) = bslice o1 n xs"
  by (auto simp: bslice_def blit_def drop_take min_def)

lemma bslice_blit_above [buf_simps]:
  "off + length ys \<le> o1 \<Longrightarrow> off + length ys \<le> length xs \<Longrightarrow>
     bslice o1 n (blit off ys xs) = bslice o1 n xs"
  by (simp add: bslice_def blit_def)

lemma nth_blit [buf_simps]:
  "off + length ys \<le> length xs \<Longrightarrow> i < length xs \<Longrightarrow>
     blit off ys xs ! i = (if off \<le> i \<and> i < off + length ys then ys ! (i - off) else xs ! i)"
  by (auto simp: blit_def nth_append min_def)

section \<open>Sums of words that do not overflow\<close>

lemma unat_plus_u32: "unat a + unat b < 2 ^ 32 \<Longrightarrow> unat (a + b) = unat a + unat b" for a b :: u32
  using unat_add_lem [of a b] by simp

end
