(* ===== verification/CLib.thy ===== *)
theory CLib
  imports Prelude
begin

text \<open>
  The parts of the C and POSIX library that the modelled sources call: character classes, searches
  in strings, decimal input and output, \<^verbatim>\<open>memcmp\<close>, and the textual form of IPv4 addresses. A pointer
  into a string is the rest of the string from there on; \<^verbatim>\<open>NULL\<close> is \<^term>\<open>None\<close>.
\<close>

section \<open>Characters\<close>

abbreviation ccode :: "char \<Rightarrow> nat" where "ccode c \<equiv> of_char c"

definition c_isdigit :: "char \<Rightarrow> bool" where
  "c_isdigit c \<longleftrightarrow> 48 \<le> ccode c \<and> ccode c \<le> 57"

definition c_isalnum :: "char \<Rightarrow> bool" where
  "c_isalnum c \<longleftrightarrow> c_isdigit c \<or> (65 \<le> ccode c \<and> ccode c \<le> 90) \<or> (97 \<le> ccode c \<and> ccode c \<le> 122)"

definition c_isspace :: "char \<Rightarrow> bool" where
  "c_isspace c \<longleftrightarrow> ccode c = 32 \<or> (9 \<le> ccode c \<and> ccode c \<le> 13)"

definition c_tolower :: "char \<Rightarrow> char" where
  "c_tolower c = (if 65 \<le> ccode c \<and> ccode c \<le> 90 then char_of (ccode c + 32) else c)"

text \<open>\<^verbatim>\<open>strncasecmp (s, p, strlen (p)) == 0\<close>\<close>

definition prefix_nocase :: "string \<Rightarrow> string \<Rightarrow> bool" where
  "prefix_nocase p s \<longleftrightarrow> length p \<le> length s \<and> map c_tolower (take (length p) s) = map c_tolower p"

section \<open>Searches and comparisons\<close>

text \<open>\<^verbatim>\<open>strchr\<close>: the rest of the string from the first occurrence on.\<close>

fun strchr :: "string \<Rightarrow> char \<Rightarrow> string option" where
  "strchr [] c = None"
| "strchr (x # xs) c = (if x = c then Some (x # xs) else strchr xs c)"

lemma strchr_None_iff: "strchr s c = None \<longleftrightarrow> c \<notin> set s"
  by (induction s) auto

lemma strchr_Some_iff: "strchr s c = Some t \<longleftrightarrow> (\<exists>p u. s = p @ c # u \<and> c \<notin> set p \<and> t = c # u)"
proof (induction s)
  case (Cons x s)
  show ?case
  proof (cases "x = c")
    case True
    then show ?thesis by (force simp: Cons_eq_append_conv)
  next
    case False
    then show ?thesis using Cons.IH by (auto simp: Cons_eq_append_conv)
  qed
qed simp

lemma strchr_append: "c \<notin> set p \<Longrightarrow> strchr (p @ c # u) c = Some (c # u)"
  by (induction p) auto

lemma strchr_append_right: "c \<notin> set p \<Longrightarrow> strchr (p @ u) c = strchr u c"
  by (induction p) auto

text \<open>\<^verbatim>\<open>memcmp\<close> on buffers of one size; only the sign of the C result is specified.\<close>

fun memcmp :: "bytes \<Rightarrow> bytes \<Rightarrow> int" where
  "memcmp (x # xs) (y # ys) = (if x = y then memcmp xs ys else if x < y then - 1 else 1)"
| "memcmp _ _ = 0"

lemma memcmp_eq_0_iff: "length xs = length ys \<Longrightarrow> memcmp xs ys = 0 \<longleftrightarrow> xs = ys"
  by (induction xs ys rule: memcmp.induct) auto

section \<open>Decimal numbers\<close>

text \<open>The conversion \<^verbatim>\<open>%u\<close> of \<^verbatim>\<open>printf\<close>.\<close>

fun dec :: "nat \<Rightarrow> string" where
  "dec n = (if n < 10 then [char_of (48 + n)] else dec (n div 10) @ [char_of (48 + n mod 10)])"

declare dec.simps [simp del]

text \<open>The leading digits of a string, and the value they denote.\<close>

definition digits :: "string \<Rightarrow> string" where
  "digits s = takeWhile c_isdigit s"

definition digits_val :: "string \<Rightarrow> nat" where
  "digits_val s = foldl (\<lambda>n c. 10 * n + (ccode c - 48)) 0 s"

text \<open>\<^verbatim>\<open>strtol (s, NULL, 10)\<close> saturates at the range of \<^verbatim>\<open>long\<close>; \<^verbatim>\<open>atoi\<close> converts the result to
  the 32 bits of \<^verbatim>\<open>int\<close>.\<close>

definition strtol10 :: "string \<Rightarrow> int" where
  "strtol10 s0 =
     (let s = dropWhile c_isspace s0;
          neg = (s \<noteq> [] \<and> hd s = CHR ''-'');
          ds = (if s \<noteq> [] \<and> (hd s = CHR ''-'' \<or> hd s = CHR ''+'') then tl s else s);
          v = int (digits_val (digits ds))
      in if neg then max (- (2 ^ 63)) (- v) else min (2 ^ 63 - 1) v)"

definition atoi :: "string \<Rightarrow> int" where
  "atoi s = sint (word_of_int (strtol10 s) :: 32 word)"

lemma dec_not_Nil [simp]: "dec n \<noteq> []"
  by (subst dec.simps) simp

lemma c_isdigit_digit [simp]: "n < 10 \<Longrightarrow> c_isdigit (char_of (48 + n :: nat))"
  by (simp add: c_isdigit_def)

lemma dec_digits: "c \<in> set (dec n) \<Longrightarrow> c_isdigit c"
proof (induction n rule: dec.induct)
  case (1 n)
  then show ?case by (subst (asm) (2) dec.simps) (auto split: if_splits)
qed

lemma digits_val_append: "digits_val (xs @ [c]) = 10 * digits_val xs + (ccode c - 48)"
  by (simp add: digits_val_def)

lemma digits_val_dec [simp]: "digits_val (dec n) = n"
proof (induction n rule: dec.induct)
  case (1 n)
  show ?case
  proof (cases "n < 10")
    case True
    then show ?thesis by (subst dec.simps) (simp add: digits_val_def)
  next
    case False
    then have "digits_val (dec n) = 10 * digits_val (dec (n div 10)) + n mod 10"
      by (subst dec.simps) (simp add: digits_val_append)
    with 1 False show ?thesis by simp
  qed
qed

lemma digits_dec_append:
  "(r = [] \<or> \<not> c_isdigit (hd r)) \<Longrightarrow> digits (dec n @ r) = dec n"
  unfolding digits_def
  by (subst takeWhile_append2) (auto simp: dec_digits takeWhile_eq_Nil_iff)

lemma dec_hd: "c_isdigit (hd (dec n))"
  by (rule dec_digits [of _ n]) simp

lemma c_isdigit_not_space: "c_isdigit c \<Longrightarrow> \<not> c_isspace c"
  by (simp add: c_isdigit_def c_isspace_def)

lemma c_isdigit_not_sign: "c_isdigit c \<Longrightarrow> c \<noteq> CHR ''-'' \<and> c \<noteq> CHR ''+''"
  by (auto simp: c_isdigit_def)

lemma strtol10_dec:
  assumes "r = [] \<or> \<not> c_isdigit (hd r)" and "n < 2 ^ 63"
  shows "strtol10 (dec n @ r) = int n"
proof -
  have hd: "hd (dec n @ r) = hd (dec n)" by simp
  have "\<not> c_isspace (hd (dec n @ r))"
    unfolding hd by (rule c_isdigit_not_space [OF dec_hd])
  then have "dropWhile c_isspace (dec n @ r) = dec n @ r"
    by (cases "dec n") auto
  moreover have "hd (dec n @ r) \<noteq> CHR ''-''" "hd (dec n @ r) \<noteq> CHR ''+''"
    unfolding hd using c_isdigit_not_sign [OF dec_hd] by auto
  ultimately show ?thesis
    using assms by (simp add: strtol10_def Let_def digits_dec_append)
qed

lemma atoi_dec:
  assumes "r = [] \<or> \<not> c_isdigit (hd r)" and "n < 2 ^ 31"
  shows "atoi (dec n @ r) = int n"
proof -
  have "strtol10 (dec n @ r) = int n"
    using assms by (intro strtol10_dec) simp_all
  moreover have "signed_take_bit 31 (int n) = int n"
    using assms(2) by (intro signed_take_bit_int_eq_self) simp_all
  ultimately show ?thesis
    by (simp add: atoi_def sint_sbintrunc' del: of_int_of_nat_eq)
qed

section \<open>Textual IPv4 addresses\<close>

definition inet_ntop4 :: "bytes \<Rightarrow> string" where
  "inet_ntop4 a =
     dec (unat (a ! 0)) @ ''.'' @ dec (unat (a ! 1)) @ ''.'' @ dec (unat (a ! 2)) @ ''.'' @
     dec (unat (a ! 3))"

text \<open>\<^verbatim>\<open>inet_pton (AF_INET, s, \<dots>)\<close>: four decimal octets of at most 255 without leading zeros,
  separated by dots. \<open>tmp\<close> holds the octets read before the current one, \<open>cur\<close> the current octet
  once one of its digits was seen.\<close>

fun pton4_loop :: "nat list \<Rightarrow> nat option \<Rightarrow> string \<Rightarrow> nat list option" where
  "pton4_loop tmp cur [] =
     (case cur of None \<Rightarrow> None | Some n \<Rightarrow> if length tmp = 3 then Some (tmp @ [n]) else None)"
| "pton4_loop tmp cur (c # s) =
     (if c_isdigit c then
        (case cur of
           None \<Rightarrow> if length tmp \<ge> 4 then None else pton4_loop tmp (Some (ccode c - 48)) s
         | Some n \<Rightarrow>
             if n = 0 then None
             else if n * 10 + (ccode c - 48) > 255 then None
             else pton4_loop tmp (Some (n * 10 + (ccode c - 48))) s)
      else if c = CHR ''.'' then
        (case cur of
           None \<Rightarrow> None
         | Some n \<Rightarrow> if length tmp = 3 then None else pton4_loop (tmp @ [n]) None s)
      else None)"

definition inet_pton4 :: "string \<Rightarrow> bytes option" where
  "inet_pton4 s = map_option (map of_nat) (pton4_loop [] None s)"

lemma pton4_loop_length: "pton4_loop tmp cur s = Some r \<Longrightarrow> length r = 4"
  by (induction tmp cur s rule: pton4_loop.induct) (auto split: option.splits if_splits)

lemma inet_pton4_length: "inet_pton4 s = Some a \<Longrightarrow> length a = 4"
  by (auto simp: inet_pton4_def dest: pton4_loop_length)

lemma pton4_loop_dec:
  assumes "n \<le> 255" and "length tmp < 4"
  shows "pton4_loop tmp None (dec n @ s) = pton4_loop tmp (Some n) s"
proof -
  have digit: "c_isdigit (char_of (48 + d))" "ccode (char_of (48 + d)) - 48 = d" if "d < 10" for d
    using that by simp_all
  consider "n < 10" | "10 \<le> n" "n < 100" | "100 \<le> n" by linarith
  then show ?thesis
  proof cases
    case 1
    then show ?thesis using assms by (simp add: dec.simps [of n])
  next
    case 2
    then have "dec n = [char_of (48 + n div 10), char_of (48 + n mod 10)]"
      by (simp add: dec.simps [of n] dec.simps [of "n div 10"])
    moreover have "n div 10 < 10" "0 < n div 10" "n mod 10 < 10" "n div 10 * 10 + n mod 10 = n"
      using 2 by simp_all
    ultimately show ?thesis using assms by simp
  next
    case 3
    define q a b c where "q = n div 10" and "a = q div 10" and "b = q mod 10" and "c = n mod 10"
    have n: "q * 10 + c = n" and q: "a * 10 + b = q" and bc: "b < 10" "c < 10"
      by (simp_all add: q_def a_def b_def c_def)
    have a: "a < 10" "0 < a" and q10: "\<not> q < 10" and q255: "q \<le> 255" and n10: "\<not> n < 10"
      using assms(1) 3 n q bc by linarith+
    have "dec n = [char_of (48 + a), char_of (48 + b), char_of (48 + c)]"
      using a q10 n10
      by (simp add: dec.simps [of n] dec.simps [of q] dec.simps [of a]
          q_def [symmetric] a_def [symmetric] b_def [symmetric] c_def [symmetric])
    then show ?thesis using assms a bc n q q255 by simp
  qed
qed

lemma unat_u8_le [simp]: "unat (x :: u8) \<le> 255"
  using unsigned_less [of x, where ?'a = nat] by simp

text \<open>Reading back a printed address gives the address.\<close>

lemma inet_pton4_ntop4:
  assumes "length a = 4"
  shows "inet_pton4 (inet_ntop4 a) = Some a"
proof -
  obtain w x y z where a: "a = [w, x, y, z]"
    using assms by (auto simp: numeral_eq_Suc length_Suc_conv)
  have dot: "\<not> c_isdigit (CHR ''.'')" by (simp add: c_isdigit_def)
  have "pton4_loop [] None (inet_ntop4 a) = Some [unat w, unat x, unat y, unat z]"
    using pton4_loop_dec [of "unat z" "[unat w, unat x, unat y]" "[]"]
    by (simp add: a inet_ntop4_def pton4_loop_dec dot)
  then show ?thesis by (simp add: inet_pton4_def a)
qed

lemma dec_no_dot: "CHR ''.'' \<notin> set (dec n)" "CHR ''/'' \<notin> set (dec n)" "CHR '':'' \<notin> set (dec n)"
  using dec_digits [of _ n] by (force simp: c_isdigit_def)+

end
