(* ===== verification/IpUtil.thy ===== *)
theory IpUtil
  imports CLib
begin

text \<open>
  The address helpers of \<^verbatim>\<open>src/src/ip-util.c\<close> and \<^verbatim>\<open>ip-util.h\<close>: socket addresses and the casts into
  them, prefixes and masks, and the rewriting of routes between the dotted and the CIDR form.

  A \<^verbatim>\<open>struct sockaddr_storage\<close> is its 128 bytes in the Linux layout: the family in the bytes 0 and 1
  (little endian), the port in 2 and 3 (network order), the IPv4 address in 4 to 7, the IPv6 flow
  information in 4 to 7 and the IPv6 address in 8 to 23. Memory allocation in these helpers is
  taken to succeed; \<open>inet_ntop6\<close> is the C library's printer of IPv6 addresses.
\<close>

section \<open>Socket addresses\<close>

type_synonym sockaddr = bytes

abbreviation (input) AF_INET :: nat where "AF_INET \<equiv> 2"
abbreviation (input) AF_INET6 :: nat where "AF_INET6 \<equiv> 10"
abbreviation (input) SIZEOF_SS :: nat where "SIZEOF_SS \<equiv> 128"
abbreviation (input) SIZEOF_SIN :: nat where "SIZEOF_SIN \<equiv> 16"
abbreviation (input) SIZEOF_SIN6 :: nat where "SIZEOF_SIN6 \<equiv> 28"

definition zero_ss :: sockaddr where "zero_ss = replicate SIZEOF_SS 0"

definition sa_family :: "sockaddr \<Rightarrow> nat" where
  "sa_family s = unat (s ! 0) + 256 * unat (s ! 1)"

definition set_family :: "nat \<Rightarrow> sockaddr \<Rightarrow> sockaddr" where
  "set_family f s = blit 0 [of_nat (f mod 256), of_nat (f div 256)] s"

definition sin_port :: "sockaddr \<Rightarrow> nat" where
  "sin_port s = 256 * unat (s ! 2) + unat (s ! 3)"

definition set_port :: "bytes \<Rightarrow> sockaddr \<Rightarrow> sockaddr" where
  "set_port p s = blit 2 p s"

definition SA_IN_U8_P :: "sockaddr \<Rightarrow> bytes" where "SA_IN_U8_P s = bslice 4 4 s"

definition SA_IN6_U8_P :: "sockaddr \<Rightarrow> bytes" where "SA_IN6_U8_P s = bslice 8 16 s"

definition SA_IN_SIZE :: "nat \<Rightarrow> nat" where
  "SA_IN_SIZE sz = (if sz = SIZEOF_SIN then 4 else 16)"

definition SA_IN_P_GENERIC :: "sockaddr \<Rightarrow> nat \<Rightarrow> bytes" where
  "SA_IN_P_GENERIC addr sz = (if sz = SIZEOF_SIN then SA_IN_U8_P addr else SA_IN6_U8_P addr)"

definition ip_cmp :: "sockaddr \<Rightarrow> sockaddr \<Rightarrow> int" where
  "ip_cmp s1 s2 =
     (if sa_family s1 = AF_INET then memcmp (SA_IN_U8_P s1) (SA_IN_U8_P s2)
      else memcmp (SA_IN6_U8_P s1) (SA_IN6_U8_P s2))"

section \<open>Prefixes and masks\<close>

text \<open>The bytes in memory of a 32-bit number in network order, and back.\<close>

definition be32 :: "u32 \<Rightarrow> bytes" where
  "be32 w = [ucast (drop_bit 24 w), ucast (drop_bit 16 w), ucast (drop_bit 8 w), ucast w]"

definition of_be32 :: "bytes \<Rightarrow> u32" where
  "of_be32 b = push_bit 24 (ucast (b ! 0)) OR push_bit 16 (ucast (b ! 1)) OR
     push_bit 8 (ucast (b ! 2)) OR ucast (b ! 3)"

definition ipv4_prefix_to_strmask :: "u32 \<Rightarrow> string option" where
  "ipv4_prefix_to_strmask prefix =
     (if prefix = 0 \<or> prefix > 32 then None
      else Some (inet_ntop4 (be32 (push_bit (unat (32 - prefix)) 0xFFFFFFFF))))"

function mask6_loop :: "int \<Rightarrow> nat \<Rightarrow> bytes \<Rightarrow> bytes" where
  "mask6_loop i j m =
     (if i > 0
      then mask6_loop (i - 8) (j + 1)
        (m[j := if i \<ge> 8 then 0xff else ucast (push_bit (nat (8 - i)) (0xff :: u32))])
      else m)"
  by pat_completeness auto
termination
  by (relation "measure (\<lambda>(i, j, m). nat i)") auto

declare mask6_loop.simps [simp del]

definition ipv6_prefix_to_mask :: "u32 \<Rightarrow> bytes option" where
  "ipv6_prefix_to_mask prefix =
     (if prefix = 0 \<or> prefix > 128 then None
      else Some (mask6_loop (uint prefix) 0 (replicate 16 0)))"

definition valid_ipv6_prefix :: "u32 \<Rightarrow> bool" where
  "valid_ipv6_prefix prefix \<longleftrightarrow> prefix > 10 \<and> prefix \<le> 128"

lemma drop_bit_1_less: "(i :: 'a::len word) \<noteq> 0 \<Longrightarrow> unat (drop_bit (Suc 0) i) < unat i"
  by (subst unat_drop_bit_eq) (simp add: drop_bit_eq_div unat_gt_0)

function bit_count_loop :: "u32 \<Rightarrow> int \<Rightarrow> bool \<Rightarrow> int" where
  "bit_count_loop i c seen_one =
     (if i > 0
      then if i AND 1 \<noteq> 0 then bit_count_loop (drop_bit 1 i) (c + 1) True
           else if seen_one then - 1
           else bit_count_loop (drop_bit 1 i) c seen_one
      else c)"
  by pat_completeness auto
termination
  by (relation "measure (\<lambda>(i, c, s). unat i)") (auto simp: drop_bit_1_less)

declare bit_count_loop.simps [simp del]

definition bit_count :: "u32 \<Rightarrow> int" where
  "bit_count i = bit_count_loop i 0 False"

definition mask2prefix :: "bytes \<Rightarrow> int" where
  "mask2prefix msk = bit_count (of_be32 msk)"

definition ipv4_mask_to_int :: "string \<Rightarrow> int" where
  "ipv4_mask_to_int prefix =
     (case inet_pton4 prefix of None \<Rightarrow> - 1 | Some a \<Rightarrow> mask2prefix a)"

section \<open>Routes\<close>

text \<open>The result is the return value and the string that \<^verbatim>\<open>*_route\<close> points to afterwards.\<close>

definition ip_route_sanity_check :: "string \<Rightarrow> int \<times> string" where
  "ip_route_sanity_check route =
     (case strchr route (CHR ''.'') of
        None \<Rightarrow> (0, route)
      | Some p \<Rightarrow>
          (case strchr p (CHR ''/'') of
             None \<Rightarrow> (- 1, route)
           | Some slash_ptr \<Rightarrow>
               (let p = tl slash_ptr in
                if strchr p (CHR ''.'') \<noteq> None then (0, route)
                else
                  (case ipv4_prefix_to_strmask (word_of_int (atoi p)) of
                     None \<Rightarrow> (- 1, route)
                   | Some pstr \<Rightarrow>
                       (0, take (length route - length slash_ptr) route @ ''/'' @ pstr)))))"

definition ipv4_route_to_cidr :: "string \<Rightarrow> string option" where
  "ipv4_route_to_cidr route =
     (case strchr route (CHR ''.'') of
        None \<Rightarrow> Some route
      | Some p \<Rightarrow>
          (case strchr p (CHR ''/'') of
             None \<Rightarrow> None
           | Some p \<Rightarrow>
               (let len = length route - length p;
                    p = tl p
                in if strchr p (CHR ''.'') = None then Some route
                   else
                     (let prefix = ipv4_mask_to_int p in
                      if prefix \<le> 0 \<or> prefix > 32 then None
                      else Some (take len route @ ''/'' @ dec (nat prefix))))))"

section \<open>Printing addresses\<close>

text \<open>
  \<open>human_addr2\<close> prints into a buffer of \<open>buflen\<close> bytes. The result is the text in the buffer and
  whether a NUL byte follows it; the C library's \<^verbatim>\<open>inet_ntop\<close> fails when the text and its NUL do not
  fit, and \<^verbatim>\<open>snprintf\<close> truncates.
\<close>

definition ntop_fits :: "string \<Rightarrow> nat \<Rightarrow> string option" where
  "ntop_fits txt buflen = (if length txt + 1 \<le> buflen then Some txt else None)"

definition human_addr2 ::
    "(bytes \<Rightarrow> string) \<Rightarrow> sockaddr \<Rightarrow> nat \<Rightarrow> nat \<Rightarrow> bool \<Rightarrow> (string \<times> bool) option" where
  "human_addr2 inet_ntop6 sa salen buflen full =
     (if buflen = 0 then None
      else if sa_family sa \<noteq> AF_INET \<and> sa_family sa \<noteq> AF_INET6 then None
      else
        (let is6 = (salen = SIZEOF_SIN6);
             port = sin_port sa;
             open_br = (is6 \<and> full \<and> port \<noteq> 0 \<and> buflen > 0);
             pre = (if open_br then ''['' else '''');
             buflen = (if open_br then buflen - 1 else buflen)
         in case ntop_fits (if is6 then inet_ntop6 (SA_IN6_U8_P sa)
                            else inet_ntop4 (SA_IN_U8_P sa)) buflen of
              None \<Rightarrow> None
            | Some txt \<Rightarrow>
                if \<not> full then Some (pre @ txt, True)
                else
                  (let buflen = buflen - length txt;
                       close_br = (is6 \<and> port \<noteq> 0 \<and> buflen > 0);
                       post = (if close_br then '']'' else '''');
                       buflen = (if close_br then buflen - 1 else buflen)
                   in if port \<noteq> 0 \<and> buflen > 0
                      then (let buflen = buflen - 1;
                                digits = take (buflen - 1) (dec port)
                            in Some (pre @ txt @ post @ '':'' @ digits, buflen > 0))
                      else Some (pre @ txt @ post, \<not> close_br))))"

section \<open>Masks: correctness\<close>

text \<open>Bit \<open>k\<close> of an address, counted from its most significant bit as prefixes do.\<close>

definition addr_bit :: "bytes \<Rightarrow> nat \<Rightarrow> bool" where
  "addr_bit a k \<longleftrightarrow> bit (a ! (k div 8)) (7 - k mod 8)"

lemma length_mask6_loop [simp]: "length (mask6_loop i j m) = length m"
  by (induction i j m rule: mask6_loop.induct) (subst mask6_loop.simps, simp)

lemma nth_mask6_loop:
  "l < length m \<Longrightarrow>
     mask6_loop i j m ! l =
       (let r = i - 8 * (int l - int j) in
        if l < j \<or> r \<le> 0 then m ! l
        else if r \<ge> 8 then 0xff else ucast (push_bit (nat (8 - r)) (0xff :: u32)))"
proof (induction i j m rule: mask6_loop.induct)
  case (1 i j m)
  show ?case
  proof (cases "i > 0")
    case True
    have IH: "mask6_loop i j m ! l =
        (let r = i - 8 * (int l - int j) in
         if l < j + 1 \<or> r \<le> 0
         then (m[j := if i \<ge> 8 then 0xff else ucast (push_bit (nat (8 - i)) (0xff :: u32))]) ! l
         else if r \<ge> 8 then 0xff else ucast (push_bit (nat (8 - r)) (0xff :: u32)))"
      using 1 True by (subst mask6_loop.simps) (simp add: algebra_simps)
    consider "l < j" | "l = j" | "l > j" by linarith
    then show ?thesis
      unfolding IH using True 1 by cases (simp_all add: Let_def)
  next
    case False
    then show ?thesis by (subst mask6_loop.simps) (auto simp: Let_def)
  qed
qed

lemma bit_ff_u32: "bit (0xff :: u32) n \<longleftrightarrow> n < 8"
proof -
  have ff: "(0xff :: u32) = mask 8" by (simp add: mask_eq_exp_minus_1)
  show ?thesis unfolding ff by (auto simp: bit_mask_iff)
qed

lemma bit_ff_u8: "bit (0xff :: u8) n \<longleftrightarrow> n < 8"
proof -
  have ff: "(0xff :: u8) = mask 8" by (simp add: mask_eq_exp_minus_1)
  show ?thesis unfolding ff by (auto simp: bit_mask_iff)
qed

lemma bit_partial_byte:
  assumes "0 < r" and "r < 8" and "t < 8"
  shows "bit (ucast (push_bit (nat (8 - r)) (0xff :: u32)) :: u8) (7 - t) \<longleftrightarrow> int t < r"
proof -
  have "r \<in> {1, 2, 3, 4, 5, 6, 7}" and "t \<in> {0, 1, 2, 3, 4, 5, 6, 7}"
    using assms by auto
  then show ?thesis by (elim insertE emptyE; simp)
qed

lemma ipv6_mask_bits:
  assumes "ipv6_prefix_to_mask prefix = Some m" and "k < 128"
  shows "addr_bit m k \<longleftrightarrow> k < unat prefix"
proof -
  let ?l = "k div 8" and ?t = "k mod 8"
  let ?r = "uint prefix - 8 * int ?l"
  have p: "int (unat prefix) = uint prefix" by simp
  have l: "?l < 16" using assms(2) by simp
  have "k = 8 * ?l + ?t" by simp
  then have k: "int k = 8 * int ?l + int ?t" by (metis of_nat_add of_nat_mult of_nat_numeral)
  have mdef: "m = mask6_loop (uint prefix) 0 (replicate 16 0)"
    using assms(1) by (simp add: ipv6_prefix_to_mask_def split: if_splits)
  have m: "m ! ?l = (if ?r \<le> 0 then 0
      else if ?r \<ge> 8 then 0xff else ucast (push_bit (nat (8 - ?r)) (0xff :: u32)))"
    unfolding mdef using l by (subst nth_mask6_loop) (simp_all add: Let_def)
  have t: "?t < 8" by simp
  consider "?r \<le> 0" | "?r \<ge> 8" | "0 < ?r" "?r < 8" by linarith
  then show ?thesis
  proof cases
    case 1
    with m have "\<not> addr_bit m k" by (simp add: addr_bit_def)
    moreover have "\<not> k < unat prefix" using 1 k p by linarith
    ultimately show ?thesis by simp
  next
    case 2
    then have "m ! ?l = 0xff" using m by simp
    then have "addr_bit m k" unfolding addr_bit_def by (simp only: bit_ff_u8)
    moreover have "k < unat prefix" using 2 k t p by linarith
    ultimately show ?thesis by simp
  next
    case 3
    with m have "addr_bit m k \<longleftrightarrow> int ?t < ?r"
      using bit_partial_byte [OF 3 t] by (simp add: addr_bit_def)
    then show ?thesis using k p by linarith
  qed
qed

lemma unat_drop_bit_1: "unat (drop_bit (Suc 0) (i :: u32)) = unat i div 2"
  by (subst unat_drop_bit_eq) (simp add: drop_bit_eq_div)

lemma unat_and_1: "unat (i AND 1 :: u32) = unat i mod 2"
  by (simp add: and_one_eq unat_mod)

lemma and_1_eq_0_iff: "(i AND 1 :: u32) = 0 \<longleftrightarrow> even (unat i)"
  by (simp only: unat_eq_0 [symmetric] unat_and_1 even_iff_mod_2_eq_zero)

lemma bit_count_loop_unat:
  "bit_count_loop i c seen =
     (if unat i = 0 then c
      else if odd (unat i) then bit_count_loop (drop_bit (Suc 0) i) (c + 1) True
      else if seen then - 1 else bit_count_loop (drop_bit (Suc 0) i) c seen)"
  by (subst bit_count_loop.simps) (simp add: and_1_eq_0_iff unat_eq_0 word_gt_0)

lemma Suc_double_pred: "Suc (2 * (2 ^ n - Suc 0)) = 2 * 2 ^ n - Suc 0"
  using one_le_power [of "2 :: nat" n] by arith

lemma bit_count_loop_ones:
  "unat i = 2 ^ n - 1 \<Longrightarrow> bit_count_loop i c True = c + int n"
proof (induction n arbitrary: i c)
  case 0
  then show ?case by (subst bit_count_loop_unat) simp
next
  case (Suc n)
  have "unat (drop_bit (Suc 0) i) = 2 ^ n - 1" using Suc.prems by (simp add: unat_drop_bit_1)
  then have "bit_count_loop (drop_bit (Suc 0) i) (c + 1) True = c + 1 + int n" by (rule Suc.IH)
  moreover have "odd (unat i)" using Suc.prems by simp
  moreover from this have "unat i \<noteq> 0" by (auto intro: Nat.gr0I)
  ultimately show ?case by (subst bit_count_loop_unat) simp
qed

lemma bit_count_loop_onesD:
  "bit_count_loop i c True = r \<Longrightarrow> 0 \<le> c \<Longrightarrow> r \<noteq> - 1 \<Longrightarrow>
     \<exists>n. unat i = 2 ^ n - 1 \<and> r = c + int n"
proof (induction "unat i" arbitrary: i c rule: less_induct)
  case less
  show ?case
  proof (cases "unat i = 0")
    case True
    then show ?thesis
      using less.prems by (subst (asm) bit_count_loop_unat) (auto intro: exI [of _ 0])
  next
    case False
    then have odd: "odd (unat i)" and rec: "bit_count_loop (drop_bit (Suc 0) i) (c + 1) True = r"
      using less.prems by (subst (asm) bit_count_loop_unat; simp split: if_splits)+
    have "unat (drop_bit (Suc 0) i) < unat i" using False by (simp add: unat_drop_bit_1)
    then obtain n where "unat (drop_bit (Suc 0) i) = 2 ^ n - 1" "r = c + 1 + int n"
      using less.hyps [OF _ rec] less.prems by auto
    moreover have "unat i = 2 * (unat i div 2) + 1" using odd by simp
    ultimately have "unat i = 2 ^ Suc n - 1" and "r = c + int (Suc n)"
      by (simp_all add: unat_drop_bit_1 Suc_double_pred)
    then show ?thesis by blast
  qed
qed

text \<open>\<open>bit_count\<close> accepts exactly the masks whose one bits form a single run, and returns its
  length; the run need not start at the most significant bit.\<close>

lemma bit_count_run:
  assumes "unat i = (2 ^ n - 1) * 2 ^ k" and "n > 0"
  shows "bit_count i = int n"
proof -
  have "bit_count_loop i 0 False = int n" if "unat i = (2 ^ n - 1) * 2 ^ k" for i
    using that
  proof (induction k arbitrary: i)
    case 0
    obtain m where n: "n = Suc m" using assms(2) by (cases n) auto
    have "odd (unat i)" using 0 n by simp
    then have "odd (unat i)" "unat i \<noteq> 0" by (auto intro: Nat.gr0I)
    moreover have "unat (drop_bit (Suc 0) i) = 2 ^ m - 1" using 0 n by (simp add: unat_drop_bit_1)
    then have "bit_count_loop (drop_bit (Suc 0) i) 1 True = 1 + int m" by (rule bit_count_loop_ones)
    ultimately show ?case using n by (subst bit_count_loop_unat) simp
  next
    case (Suc k)
    have "(1 :: nat) < 2 ^ n" using assms(2) by (intro one_less_power) simp_all
    then have "unat i \<noteq> 0" using Suc.prems by simp
    moreover have "even (unat i)" using Suc.prems by simp
    moreover have "unat (drop_bit (Suc 0) i) = (2 ^ n - 1) * 2 ^ k"
      using Suc.prems by (simp add: unat_drop_bit_1)
    then have "bit_count_loop (drop_bit (Suc 0) i) 0 False = int n" by (rule Suc.IH)
    ultimately show ?case by (subst bit_count_loop_unat) simp
  qed
  then show ?thesis using assms by (simp add: bit_count_def)
qed

lemma bit_count_runD:
  assumes "bit_count i = int n" and "n > 0"
  shows "\<exists>k. unat i = (2 ^ n - 1) * 2 ^ k"
proof -
  have "\<exists>k. unat i = (2 ^ n - 1) * 2 ^ k" if "bit_count_loop i 0 False = int n" for i
    using that
  proof (induction "unat i" arbitrary: i rule: less_induct)
    case less
    have nz: "unat i \<noteq> 0"
    proof
      assume "unat i = 0"
      with less.prems assms(2) show False by (simp add: bit_count_loop_unat [of i])
    qed
    then have smaller: "unat (drop_bit (Suc 0) i) < unat i" by (simp add: unat_drop_bit_1)
    show ?case
    proof (cases "odd (unat i)")
      case True
      then have rec: "bit_count_loop (drop_bit (Suc 0) i) 1 True = int n"
        using less.prems nz by (subst (asm) bit_count_loop_unat) simp
      from bit_count_loop_onesD [OF rec] obtain m
        where m: "unat (drop_bit (Suc 0) i) = 2 ^ m - 1" "int n = 1 + int m" by auto
      then have n: "n = Suc m" by linarith
      have "unat i = 2 * (unat i div 2) + 1" using True by simp
      then have "unat i = (2 ^ n - 1) * 2 ^ 0"
        using m n by (simp add: unat_drop_bit_1 Suc_double_pred)
      then show ?thesis by blast
    next
      case False
      then have "bit_count_loop (drop_bit (Suc 0) i) 0 False = int n"
        using less.prems nz by (subst (asm) bit_count_loop_unat) simp
      from less.hyps [OF smaller this] obtain k where "unat (drop_bit (Suc 0) i) = (2 ^ n - 1) * 2 ^ k" ..
      moreover have "unat i = 2 * (unat i div 2)" using False by simp
      ultimately have "unat i = (2 ^ n - 1) * 2 ^ Suc k"
        by (simp add: unat_drop_bit_1)
      then show ?thesis by blast
    qed
  qed
  then show ?thesis using assms(1) by (simp add: bit_count_def)
qed

section \<open>Routes: correctness\<close>

lemma length_be32 [simp]: "length (be32 w) = 4"
  by (simp add: be32_def)

lemma of_be32_be32 [simp]: "of_be32 (be32 w) = w"
proof (rule bit_word_eqI)
  fix n assume "n < LENGTH(32)"
  then consider "n < 8" | "8 \<le> n" "n < 16" | "16 \<le> n" "n < 24" | "24 \<le> n" "n < 32"
    by fastforce
  then show "bit (of_be32 (be32 w)) n \<longleftrightarrow> bit w n"
    by cases (auto simp: of_be32_def be32_def bit_simps)
qed

lemma bit_count_prefix_mask:
  assumes "0 < p" and "p \<le> 32"
  shows "bit_count (push_bit (32 - p) 0xFFFFFFFF) = int p"
proof (rule bit_count_run)
  have "unat (push_bit (32 - p) 0xFFFFFFFF :: u32) = (2 ^ 32 - 1) * 2 ^ (32 - p) mod 2 ^ 32"
    by (subst unsigned_push_bit_eq) (simp add: take_bit_eq_mod push_bit_eq_mult)
  also have "(2 ^ 32 - 1) * 2 ^ (32 - p) mod 2 ^ 32 = (2 ^ p - 1) * (2 ^ (32 - p) :: nat)"
  proof -
    have "(2 ^ 32 :: nat) = 2 ^ p * 2 ^ (32 - p)"
      using assms(2) by (simp add: power_add [symmetric] del: power_numeral)
    moreover have "(1 :: nat) \<le> 2 ^ (32 - p)" "(2 :: nat) ^ (32 - p) \<le> 2 ^ 32"
      by (simp, intro power_increasing) simp_all
    ultimately have eq: "(2 ^ 32 - 1) * 2 ^ (32 - p) =
        (2 ^ (32 - p) - 1) * 2 ^ 32 + (2 ^ p - 1) * (2 ^ (32 - p) :: nat)"
      by (simp add: algebra_simps)
    have "(2 ^ p - 1) * 2 ^ (32 - p) < (2 ^ 32 :: nat)"
      unfolding \<open>2 ^ 32 = 2 ^ p * 2 ^ (32 - p)\<close> by (intro mult_strict_right_mono) simp_all
    then show ?thesis unfolding eq by simp
  qed
  finally show "unat (push_bit (32 - p) 0xFFFFFFFF :: u32) = (2 ^ p - 1) * 2 ^ (32 - p)" .
qed (use assms in simp)

lemma strchr_route:
  assumes "CHR ''.'' \<in> set a" and "CHR ''/'' \<notin> set a"
  obtains p where "strchr (a @ CHR ''/'' # m) (CHR ''.'') = Some p"
    and "strchr p (CHR ''/'') = Some (CHR ''/'' # m)"
proof -
  obtain x y where a: "a = x @ CHR ''.'' # y" "CHR ''.'' \<notin> set x"
    using assms(1) by (meson split_list_first)
  have "strchr (a @ CHR ''/'' # m) (CHR ''.'') = Some (CHR ''.'' # y @ CHR ''/'' # m)"
    using a by (simp add: strchr_append)
  moreover have "strchr (CHR ''.'' # y @ CHR ''/'' # m) (CHR ''/'') = Some (CHR ''/'' # m)"
    using a assms(2) by (simp add: strchr_append)
  ultimately show thesis using that by blast
qed

lemma dot_in_ntop4: "CHR ''.'' \<in> set (inet_ntop4 m)"
  by (simp add: inet_ntop4_def)

lemma route_to_cidr_dotted:
  assumes "CHR ''.'' \<in> set a" and "CHR ''/'' \<notin> set a" and "length m = 4"
  shows "ipv4_route_to_cidr (a @ CHR ''/'' # inet_ntop4 m) =
    (let n = mask2prefix m in
     if n \<le> 0 \<or> n > 32 then None else Some (a @ ''/'' @ dec (nat n)))"
proof -
  obtain p where "strchr (a @ CHR ''/'' # inet_ntop4 m) (CHR ''.'') = Some p"
    and "strchr p (CHR ''/'') = Some (CHR ''/'' # inet_ntop4 m)"
    using assms(1,2) by (rule strchr_route)
  then show ?thesis
    using assms(3) dot_in_ntop4 [of m]
    by (simp add: ipv4_route_to_cidr_def Let_def ipv4_mask_to_int_def inet_pton4_ntop4
        strchr_None_iff)
qed

lemma sanity_check_prefix:
  assumes "CHR ''.'' \<in> set a" and "CHR ''/'' \<notin> set a" and "0 < p" and "p \<le> 32"
  shows "ip_route_sanity_check (a @ CHR ''/'' # dec p) =
    (0, a @ CHR ''/'' # inet_ntop4 (be32 (push_bit (32 - p) 0xFFFFFFFF)))"
proof -
  obtain q where "strchr (a @ CHR ''/'' # dec p) (CHR ''.'') = Some q"
    and "strchr q (CHR ''/'') = Some (CHR ''/'' # dec p)"
    using assms(1,2) by (rule strchr_route)
  moreover have "atoi (dec p) = int p"
    using atoi_dec [of "[]" p] assms by simp
  moreover have "ipv4_prefix_to_strmask (word_of_nat p) =
      Some (inet_ntop4 (be32 (push_bit (32 - p) 0xFFFFFFFF)))"
  proof -
    have u: "unat (word_of_nat p :: u32) = p"
      using assms by (simp add: unat_of_nat)
    then have "unat (32 - word_of_nat p :: u32) = 32 - p"
      using assms by (subst unat_sub) (simp_all add: word_le_nat_alt)
    moreover have "word_of_nat p \<noteq> (0 :: u32)" "\<not> word_of_nat p > (32 :: u32)"
      using u assms by (auto simp: word_less_nat_alt simp flip: unat_eq_0)
    ultimately show ?thesis by (simp add: ipv4_prefix_to_strmask_def)
  qed
  moreover have "strchr (dec p) (CHR ''.'') = None"
    by (simp add: strchr_None_iff dec_no_dot)
  ultimately show ?thesis
    by (simp add: ip_route_sanity_check_def)
qed

lemma sanity_check_dotted:
  assumes "CHR ''.'' \<in> set a" and "CHR ''/'' \<notin> set a"
  shows "ip_route_sanity_check (a @ CHR ''/'' # inet_ntop4 m) = (0, a @ CHR ''/'' # inet_ntop4 m)"
proof -
  obtain q where "strchr (a @ CHR ''/'' # inet_ntop4 m) (CHR ''.'') = Some q"
    and "strchr q (CHR ''/'') = Some (CHR ''/'' # inet_ntop4 m)"
    using assms by (rule strchr_route)
  then show ?thesis
    using dot_in_ntop4 [of m] by (auto simp: ip_route_sanity_check_def strchr_None_iff)
qed

text \<open>A route in the form address/prefix with a prefix from 1 to 32 is rewritten by
  \<open>ip_route_sanity_check\<close> to the dotted form, which it leaves alone when it meets it again, and
  which \<open>ipv4_route_to_cidr\<close> turns back into the route that was configured.
\<close>

theorem route_round_trip:
  assumes "CHR ''.'' \<in> set a" and "CHR ''/'' \<notin> set a" and "0 < p" and "p \<le> 32"
  shows "\<exists>r. ip_route_sanity_check (a @ ''/'' @ dec p) = (0, r) \<and>
    ip_route_sanity_check r = (0, r) \<and>
    ipv4_route_to_cidr r = Some (a @ ''/'' @ dec p)"
proof -
  let ?m = "be32 (push_bit (32 - p) 0xFFFFFFFF)"
  have "mask2prefix ?m = int p"
    using assms by (simp add: mask2prefix_def bit_count_prefix_mask)
  then have "ipv4_route_to_cidr (a @ CHR ''/'' # inet_ntop4 ?m) = Some (a @ ''/'' @ dec p)"
    using assms by (simp add: route_to_cidr_dotted)
  then show ?thesis
    using assms by (auto simp: sanity_check_prefix sanity_check_dotted)
qed

theorem route_round_trip_witness:
  "\<exists>r. ip_route_sanity_check (''10.1.0.0'' @ ''/'' @ dec 16) = (0, r) \<and>
    ip_route_sanity_check r = (0, r) \<and>
    ipv4_route_to_cidr r = Some (''10.1.0.0'' @ ''/'' @ dec 16)"
  by (rule route_round_trip) simp_all

text \<open>The masks that \<open>ipv4_route_to_cidr\<close> accepts are exactly those whose one bits form one run,
  and the prefix it prints is the length of the run. The run may end before the most significant
  bit: such a mask is no network mask, and is accepted.
\<close>

theorem route_to_cidr_masks:
  assumes "CHR ''.'' \<in> set a" and "CHR ''/'' \<notin> set a" and "length m = 4" and "n > 0"
  shows "ipv4_route_to_cidr (a @ ''/'' @ inet_ntop4 m) = Some (a @ ''/'' @ dec n) \<longleftrightarrow>
    (\<exists>k. unat (of_be32 m) = (2 ^ n - 1) * 2 ^ k)"
proof
  assume "ipv4_route_to_cidr (a @ ''/'' @ inet_ntop4 m) = Some (a @ ''/'' @ dec n)"
  then have "dec (nat (mask2prefix m)) = dec n" "mask2prefix m > 0"
    using assms by (auto simp: route_to_cidr_dotted Let_def split: if_splits)
  then have "bit_count (of_be32 m) = int n"
    by (metis digits_val_dec int_nat_eq mask2prefix_def order_less_imp_le)
  then show "\<exists>k. unat (of_be32 m) = (2 ^ n - 1) * 2 ^ k"
    using assms(4) by (rule bit_count_runD)
next
  assume "\<exists>k. unat (of_be32 m) = (2 ^ n - 1) * 2 ^ k"
  then obtain k where k: "unat (of_be32 m) = (2 ^ n - 1) * 2 ^ k" ..
  then have "mask2prefix m = int n"
    using bit_count_run assms(4) by (simp add: mask2prefix_def)
  moreover have "n \<le> 32"
  proof (rule ccontr)
    assume "\<not> n \<le> 32"
    then have "(2 :: nat) ^ 33 \<le> 2 ^ n" by (intro power_increasing) simp_all
    then have "(2 :: nat) ^ 32 \<le> 2 ^ n - 1" by simp
    also have "\<dots> \<le> unat (of_be32 m)" unfolding k by simp
    also have "\<dots> < 2 ^ 32" using unsigned_less [of "of_be32 m", where ?'a = nat] by simp
    finally show False by simp
  qed
  ultimately show "ipv4_route_to_cidr (a @ ''/'' @ inet_ntop4 m) = Some (a @ ''/'' @ dec n)"
    using assms by (simp add: route_to_cidr_dotted)
qed

theorem route_to_cidr_masks_witness:
  "ipv4_route_to_cidr (''10.1.0.0'' @ ''/'' @ inet_ntop4 [0, 255, 255, 0]) =
    Some (''10.1.0.0'' @ ''/'' @ dec 16)"
proof -
  have "unat (of_be32 [0, 255, 255, 0]) = (2 ^ 16 - 1) * 2 ^ 8"
    by (simp add: of_be32_def)
  then have "\<exists>k. unat (of_be32 [0, 255, 255, 0]) = (2 ^ 16 - 1) * 2 ^ k" ..
  then show ?thesis
    by (subst route_to_cidr_masks) simp_all
qed

text \<open>The mask that \<open>ipv6_prefix_to_mask\<close> builds for a prefix has 16 bytes, and its bits are one
  exactly at the first \<open>prefix\<close> positions. It refuses exactly the prefixes 0 and above 128.
\<close>

theorem ipv6_prefix_to_mask_spec:
  "case ipv6_prefix_to_mask prefix of
     None \<Rightarrow> unat prefix = 0 \<or> 128 < unat prefix
   | Some m \<Rightarrow> 0 < unat prefix \<and> unat prefix \<le> 128 \<and> length m = 16 \<and>
       {k. k < 128 \<and> addr_bit m k} = {..<unat prefix}"
proof (cases "ipv6_prefix_to_mask prefix")
  case None
  then show ?thesis
    by (auto simp: ipv6_prefix_to_mask_def word_less_nat_alt split: if_splits)
next
  case (Some m)
  then have p: "0 < unat prefix" "unat prefix \<le> 128" and len: "length m = 16"
    by (auto simp: ipv6_prefix_to_mask_def word_less_nat_alt unat_gt_0 split: if_splits)
  have "{k. k < 128 \<and> addr_bit m k} = {..<unat prefix}"
    using ipv6_mask_bits [OF Some] p by auto
  with p len Some show ?thesis by simp
qed

end
