(* ===== verification/Htable.thy ===== *)
theory Htable
  imports Prelude
begin

text \<open>
  The hash tables of \<^verbatim>\<open>src/src/ccan/htable\<close>, at the level of their documented interface: a table is
  the sequence of the (hash, object) pairs it holds. An object is found by its hash and a comparison
  callback, the first match wins, and an object that was found is changed in place through the
  pointer the lookup returned. The open addressing below this interface is a vendored library.

  A table whose hash and comparison follow one key of its objects is a finite map under the
  invariant \<open>kt_inv\<close>; the locale \<open>keyed_db\<close> states the laws of such a map and proves what the
  databases of bans and of client entries share once. The other tables use the operations directly.
\<close>

section \<open>Operations\<close>

type_synonym 'e htable = "(u64 \<times> 'e) list"

text \<open>\<open>htable_get ht h cmp\<close>: the first object with hash \<open>h\<close> that \<open>cmp\<close> accepts.\<close>

fun htable_get :: "'e htable \<Rightarrow> u64 \<Rightarrow> ('e \<Rightarrow> bool) \<Rightarrow> 'e option" where
  "htable_get [] h cmp = None"
| "htable_get ((h', e) # t) h cmp = (if h' = h \<and> cmp e then Some e else htable_get t h cmp)"

text \<open>A store through the pointer that \<open>htable_get ht h cmp\<close> returned.\<close>

fun htable_set :: "'e htable \<Rightarrow> u64 \<Rightarrow> ('e \<Rightarrow> bool) \<Rightarrow> 'e \<Rightarrow> 'e htable" where
  "htable_set [] h cmp e = []"
| "htable_set ((h', e') # t) h cmp e =
     (if h' = h \<and> cmp e' then (h', e) # t else (h', e') # htable_set t h cmp e)"

definition htable_add :: "'e htable \<Rightarrow> u64 \<Rightarrow> 'e \<Rightarrow> 'e htable" where
  "htable_add t h e = t @ [(h, e)]"

text \<open>Deletion of the object that \<open>htable_get ht h cmp\<close> returned.\<close>

fun htable_del :: "'e htable \<Rightarrow> u64 \<Rightarrow> ('e \<Rightarrow> bool) \<Rightarrow> 'e htable" where
  "htable_del [] h cmp = []"
| "htable_del ((h', e) # t) h cmp = (if h' = h \<and> cmp e then t else (h', e) # htable_del t h cmp)"

text \<open>The loop over \<open>htable_first\<close>, \<open>htable_next\<close> with \<open>htable_delval\<close> on the objects in \<open>P\<close>.\<close>

definition htable_purge :: "'e htable \<Rightarrow> ('e \<Rightarrow> bool) \<Rightarrow> 'e htable" where
  "htable_purge t P = filter (\<lambda>(h, e). \<not> P e) t"

abbreviation htable_objs :: "'e htable \<Rightarrow> 'e list" where
  "htable_objs t \<equiv> map snd t"

lemma htable_del_subset: "set (htable_del t h cmp) \<subseteq> set t"
  by (induction t h cmp rule: htable_del.induct) auto

section \<open>Tables keyed by a field of their objects\<close>

text \<open>
  Every database of the server hashes a key field of its objects and compares that field. Under the
  invariant that the stored hash is the hash of the key and that no key occurs twice, such a table
  is a finite map from keys to objects.
\<close>

definition kt_get :: "('k \<Rightarrow> u64) \<Rightarrow> ('e \<Rightarrow> 'k) \<Rightarrow> 'e htable \<Rightarrow> 'k \<Rightarrow> 'e option" where
  "kt_get H key t k = htable_get t (H k) (\<lambda>e. key e = k)"

definition kt_add :: "('k \<Rightarrow> u64) \<Rightarrow> ('e \<Rightarrow> 'k) \<Rightarrow> 'e htable \<Rightarrow> 'e \<Rightarrow> 'e htable" where
  "kt_add H key t e = htable_add t (H (key e)) e"

definition kt_set :: "('k \<Rightarrow> u64) \<Rightarrow> ('e \<Rightarrow> 'k) \<Rightarrow> 'e htable \<Rightarrow> 'k \<Rightarrow> 'e \<Rightarrow> 'e htable" where
  "kt_set H key t k e = htable_set t (H k) (\<lambda>e. key e = k) e"

definition kt_del :: "('k \<Rightarrow> u64) \<Rightarrow> ('e \<Rightarrow> 'k) \<Rightarrow> 'e htable \<Rightarrow> 'k \<Rightarrow> 'e htable" where
  "kt_del H key t k = htable_del t (H k) (\<lambda>e. key e = k)"

definition kt_inv :: "('k \<Rightarrow> u64) \<Rightarrow> ('e \<Rightarrow> 'k) \<Rightarrow> 'e htable \<Rightarrow> bool" where
  "kt_inv H key t \<longleftrightarrow>
     list_all (\<lambda>(h, e). h = H (key e)) t \<and> distinct (map key (htable_objs t))"

definition kt_keys :: "('e \<Rightarrow> 'k) \<Rightarrow> 'e htable \<Rightarrow> 'k set" where
  "kt_keys key t = key ` snd ` set t"

lemma kt_keys_simps [simp]:
  "kt_keys key [] = {}"
  "kt_keys key ((h, e) # t) = insert (key e) (kt_keys key t)"
  "kt_keys key (t @ u) = kt_keys key t \<union> kt_keys key u"
  by (auto simp: kt_keys_def)

lemma kt_keys_set [simp]: "key e = k \<Longrightarrow> kt_keys key (kt_set H key t k e) = kt_keys key t"
  by (induction t) (auto simp: kt_set_def split: if_splits)

lemma kt_keys_del: "kt_keys key (kt_del H key t k) \<subseteq> kt_keys key t"
  by (induction t) (auto simp: kt_del_def split: if_splits)

lemma kt_keys_purge: "kt_keys key (htable_purge t P) \<subseteq> kt_keys key t"
  by (auto simp: kt_keys_def htable_purge_def)

lemma set_purge [simp]: "x \<in> set (htable_purge t P) \<longleftrightarrow> x \<in> set t \<and> \<not> P (snd x)"
  by (auto simp: htable_purge_def)

lemma kt_inv_Nil [simp]: "kt_inv H key []"
  by (simp add: kt_inv_def)

lemma kt_inv_Cons [simp]:
  "kt_inv H key ((h, e) # t) \<longleftrightarrow> h = H (key e) \<and> key e \<notin> kt_keys key t \<and> kt_inv H key t"
  by (auto simp: kt_inv_def kt_keys_def image_image)

lemma kt_inv_append_single:
  "kt_inv H key (t @ [(h, e)]) \<longleftrightarrow> kt_inv H key t \<and> h = H (key e) \<and> key e \<notin> kt_keys key t"
  by (auto simp: kt_inv_def kt_keys_def image_image)

lemma kt_get_Nil [simp]: "kt_get H key [] k = None"
  by (simp add: kt_get_def)

lemma kt_get_Cons [simp]:
  "h = H (key e) \<Longrightarrow>
     kt_get H key ((h, e) # t) k = (if key e = k then Some e else kt_get H key t k)"
  by (simp add: kt_get_def)

lemma kt_induct [consumes 1, case_names Nil Cons]:
  assumes "kt_inv H key t" and "P []"
    and "\<And>e t. kt_inv H key t \<Longrightarrow> key e \<notin> kt_keys key t \<Longrightarrow> P t \<Longrightarrow> P ((H (key e), e) # t)"
  shows "P t"
  using assms(1)
proof (induction t)
  case Nil
  show ?case by (rule assms(2))
next
  case (Cons a t)
  then show ?case using assms(3) [of t "snd a"] by (cases a) simp
qed

lemma list_all_kt_set:
  "list_all P db \<Longrightarrow> (\<And>h. P (h, e)) \<Longrightarrow> list_all P (kt_set H key db k e)"
  by (induction db) (auto simp: kt_set_def split: if_splits)

lemma list_all_kt_del: "list_all P db \<Longrightarrow> list_all P (kt_del H key db k)"
  by (induction db) (auto simp: kt_del_def split: if_splits)

lemma kt_get_None_iff: "kt_inv H key t \<Longrightarrow> kt_get H key t k = None \<longleftrightarrow> k \<notin> kt_keys key t"
  by (induction rule: kt_induct) auto

lemma kt_get_key: "kt_inv H key t \<Longrightarrow> kt_get H key t k = Some e \<Longrightarrow> key e = k"
  by (induction rule: kt_induct) (auto split: if_splits)

lemma kt_get_mem: "kt_inv H key t \<Longrightarrow> kt_get H key t k = Some e \<Longrightarrow> e \<in> set (htable_objs t)"
  by (induction rule: kt_induct) (auto split: if_splits)

lemma kt_inv_add:
  "kt_inv H key t \<Longrightarrow> kt_get H key t (key e) = None \<Longrightarrow> kt_inv H key (kt_add H key t e)"
  by (simp add: kt_add_def htable_add_def kt_inv_append_single kt_get_None_iff)

lemma kt_get_append:
  "kt_inv H key t \<Longrightarrow>
     kt_get H key (t @ u) k = (case kt_get H key t k of None \<Rightarrow> kt_get H key u k | Some e \<Rightarrow> Some e)"
  by (induction rule: kt_induct) auto

lemma kt_get_add:
  "kt_inv H key t \<Longrightarrow> kt_get H key t (key e) = None \<Longrightarrow>
     kt_get H key (kt_add H key t e) = (kt_get H key t)(key e \<mapsto> e)"
  by (rule ext) (auto simp: kt_add_def htable_add_def kt_get_append split: option.splits)

lemma kt_inv_set: "kt_inv H key t \<Longrightarrow> key e = k \<Longrightarrow> kt_inv H key (kt_set H key t k e)"
proof (induction rule: kt_induct)
  case (Cons e' t)
  have "kt_keys key (kt_set H key t k e) = kt_keys key t"
    using Cons.prems by simp
  with Cons show ?case by (cases "key e' = k") (simp_all add: kt_set_def)
qed (simp add: kt_set_def)

lemma kt_get_set:
  assumes "kt_inv H key t" and "kt_get H key t k \<noteq> None" and "key e = k"
  shows "kt_get H key (kt_set H key t k e) = (kt_get H key t)(k \<mapsto> e)"
proof
  fix j
  show "kt_get H key (kt_set H key t k e) j = ((kt_get H key t)(k \<mapsto> e)) j"
    using assms by (induction rule: kt_induct) (auto simp: kt_set_def)
qed

lemma kt_inv_del: "kt_inv H key t \<Longrightarrow> kt_inv H key (kt_del H key t k)"
proof (induction rule: kt_induct)
  case (Cons e t)
  have "key e \<notin> kt_keys key (kt_del H key t k)"
    using Cons.hyps(2) kt_keys_del [of key H t k] by blast
  with Cons show ?case by (simp add: kt_del_def)
qed (simp add: kt_del_def)

lemma kt_get_del:
  assumes "kt_inv H key t"
  shows "kt_get H key (kt_del H key t k) = (kt_get H key t)(k := None)"
proof
  fix j
  show "kt_get H key (kt_del H key t k) j = ((kt_get H key t)(k := None)) j"
    using assms
    by (induction rule: kt_induct) (auto simp: kt_del_def kt_get_None_iff)
qed

lemma kt_inv_purge: "kt_inv H key t \<Longrightarrow> kt_inv H key (htable_purge t P)"
proof (induction rule: kt_induct)
  case (Cons e t)
  have "key e \<notin> kt_keys key (htable_purge t P)"
    using Cons.hyps(2) kt_keys_purge [of key t P] by blast
  with Cons show ?case by (simp add: htable_purge_def)
qed (simp add: htable_purge_def)

lemma kt_get_purge:
  "kt_inv H key t \<Longrightarrow>
     kt_get H key (htable_purge t P) k =
       (case kt_get H key t k of None \<Rightarrow> None | Some e \<Rightarrow> if P e then None else Some e)"
proof (induction rule: kt_induct)
  case (Cons e t)
  then have "kt_get H key t (key e) = None" by (simp add: kt_get_None_iff)
  with Cons show ?case by (auto simp: htable_purge_def)
qed (simp add: htable_purge_def)

section \<open>The interface of a keyed database\<close>

text \<open>
  What the databases promise their users, as a finite map with an invariant. Every database below
  is an instance, through the interpretation \<open>kdb\<close>.
\<close>

locale keyed_db =
  fixes key :: "'e \<Rightarrow> 'k"
    and lookup :: "'t \<Rightarrow> 'k \<Rightarrow> 'e option"
    and add :: "'t \<Rightarrow> 'e \<Rightarrow> 't"
    and store :: "'t \<Rightarrow> 'k \<Rightarrow> 'e \<Rightarrow> 't"
    and delete :: "'t \<Rightarrow> 'k \<Rightarrow> 't"
    and purge :: "'t \<Rightarrow> ('e \<Rightarrow> bool) \<Rightarrow> 't"
    and invar :: "'t \<Rightarrow> bool"
  assumes lookup_key: "invar t \<Longrightarrow> lookup t k = Some e \<Longrightarrow> key e = k"
    and lookup_add:
      "invar t \<Longrightarrow> lookup t (key e) = None \<Longrightarrow> lookup (add t e) = (lookup t)(key e \<mapsto> e)"
    and invar_add: "invar t \<Longrightarrow> lookup t (key e) = None \<Longrightarrow> invar (add t e)"
    and lookup_store: "invar t \<Longrightarrow> lookup t k \<noteq> None \<Longrightarrow> key e = k \<Longrightarrow>
      lookup (store t k e) = (lookup t)(k \<mapsto> e)"
    and invar_store: "invar t \<Longrightarrow> key e = k \<Longrightarrow> invar (store t k e)"
    and lookup_delete: "invar t \<Longrightarrow> lookup (delete t k) = (lookup t)(k := None)"
    and invar_delete: "invar t \<Longrightarrow> invar (delete t k)"
    and lookup_purge: "invar t \<Longrightarrow> lookup (purge t P) k =
      (case lookup t k of None \<Rightarrow> None | Some e \<Rightarrow> if P e then None else Some e)"
    and invar_purge: "invar t \<Longrightarrow> invar (purge t P)"
begin

text \<open>Find the object or make a new one, change it: the pattern of every score or session update.\<close>

lemma lookup_put:
  assumes "invar t" and "key e = k"
  shows "lookup (if lookup t k = None then add t e else store t k e) = (lookup t)(k \<mapsto> e)"
  using assms by (simp add: lookup_add lookup_store)

lemma invar_put:
  assumes "invar t" and "key e = k"
  shows "invar (if lookup t k = None then add t e else store t k e)"
  using assms by (simp add: invar_add invar_store)

text \<open>An object added and changed afterwards is the object as changed.\<close>

lemma store_after_add:
  assumes "invar t" and "lookup t (key e) = None" and "key e' = key e"
  shows "lookup (store (add t e) (key e) e') = (lookup t)(key e \<mapsto> e')"
proof -
  have "invar (add t e)" using assms by (simp add: invar_add)
  moreover have "lookup (add t e) (key e) \<noteq> None" using assms by (simp add: lookup_add)
  ultimately have "lookup (store (add t e) (key e) e') = (lookup (add t e))(key e \<mapsto> e')"
    using assms by (intro lookup_store) simp_all
  then show ?thesis using assms by (simp add: lookup_add)
qed

lemma dom_purge: "invar t \<Longrightarrow> dom (lookup (purge t P)) \<subseteq> dom (lookup t)"
  by (auto simp: lookup_purge split: option.splits)

end

interpretation kdb: keyed_db key "kt_get H key" "kt_add H key" "kt_set H key" "kt_del H key"
  htable_purge "kt_inv H key" for H key
  by unfold_locales
    (rule kt_get_key kt_get_add kt_inv_add kt_get_set kt_inv_set kt_get_del kt_inv_del
      kt_get_purge kt_inv_purge; assumption)+

end
