(* ===== verification/MainBan.thy ===== *)
theory MainBan
  imports Htable IpUtil
begin

text \<open>
  The ban list of the main process, \<^verbatim>\<open>src/src/main-ban.c\<close> and \<^verbatim>\<open>main-ban.h\<close>: every remote address
  (an IPv6 /64 counts as one address) collects points for its failed logins and its connections;
  an address whose score reached \<open>max_ban_score\<close> is refused until its entry expires.

  The clock (\<^verbatim>\<open>time (0)\<close>) and the outcome of the two allocations of \<open>add_ip_to_ban_list\<close> are
  arguments; \<open>hash_any\<close> is the hash function of \<^verbatim>\<open>ccan/hash\<close>, and \<open>inet_pton6\<close> the C library's
  parser of IPv6 addresses. The C fields \<^verbatim>\<open>max_ban_score\<close> (an \<^verbatim>\<open>int\<close>) and \<^verbatim>\<open>score\<close> (an \<^verbatim>\<open>unsigned\<close>)
  are 32-bit words, compared as unsigned numbers where C does.
\<close>

section \<open>State\<close>

record ban_entry =
  be_ip :: bytes \<comment> \<open>\<^verbatim>\<open>ip.ip\<close> up to \<^verbatim>\<open>ip.size\<close>: 4 or 16 bytes\<close>
  be_score :: u32
  be_last_reset :: time_t
  be_expires :: time_t

record ban_cfg =
  min_reauth_time :: time_t
  max_ban_score :: "32 word"
  ban_reset_time :: int
  ban_points_connect :: u32

record ban_server =
  ban_db :: "ban_entry htable option"
  ban_config :: ban_cfg

record ban_alloc =
  talloc_ok :: bool
  htable_add_ok :: bool

section \<open>Operations\<close>

definition ban_rehash :: "(bytes \<Rightarrow> u64) \<Rightarrow> ban_entry \<Rightarrow> u64" where
  "ban_rehash hash_any e = hash_any (be_ip e)"

definition ban_entry_cmp :: "ban_entry \<Rightarrow> ban_entry \<Rightarrow> bool" where
  "ban_entry_cmp c1 c2 \<longleftrightarrow>
     length (be_ip c1) = length (be_ip c2) \<and> memcmp (be_ip c1) (be_ip c2) = 0"

definition main_ban_db_init :: "ban_server \<Rightarrow> ban_server" where
  "main_ban_db_init s = s\<lparr>ban_db := Some []\<rparr>"

text \<open>The table is emptied; the memory it occupied is released afterwards.\<close>

definition main_ban_db_deinit :: "ban_server \<Rightarrow> ban_server" where
  "main_ban_db_deinit s = s\<lparr>ban_db := map_option (\<lambda>_. []) (ban_db s)\<rparr>"

definition main_ban_db_elems :: "ban_server \<Rightarrow> nat" where
  "main_ban_db_elems s = (case ban_db s of Some db \<Rightarrow> length db | None \<Rightarrow> 0)"

definition massage_ipv6_address :: "ban_entry \<Rightarrow> ban_entry" where
  "massage_ipv6_address t =
     (if length (be_ip t) = 16 then t\<lparr>be_ip := blit 8 (replicate 8 0) (be_ip t)\<rparr> else t)"

text \<open>A stack variable of type \<^verbatim>\<open>ban_entry_st\<close> of which only the address was set.\<close>

definition ban_key :: "bytes \<Rightarrow> ban_entry" where
  "ban_key ip = \<lparr>be_ip = ip, be_score = 0, be_last_reset = 0, be_expires = 0\<rparr>"

text \<open>The part of \<open>add_ip_to_ban_list\<close> that works on an entry which was there already.\<close>

definition ban_entry_refresh :: "ban_cfg \<Rightarrow> time_t \<Rightarrow> ban_entry \<Rightarrow> ban_entry" where
  "ban_entry_refresh c now e =
     (if now > be_last_reset e + ban_reset_time c
      then e\<lparr>be_score := 0, be_last_reset := now\<rparr> else e)"

text \<open>The part after the lookup: the new expiration time and the new score.\<close>

definition ban_entry_score :: "ban_cfg \<Rightarrow> time_t \<Rightarrow> u32 \<Rightarrow> ban_entry \<Rightarrow> ban_entry" where
  "ban_entry_score c now points e =
     (let expiration = now + min_reauth_time c;
          e = (if be_score e < max_ban_score c then e\<lparr>be_expires := expiration\<rparr> else e)
      in e\<lparr>be_score := be_score e + points\<rparr>)"

definition add_ip_to_ban_list ::
    "(bytes \<Rightarrow> u64) \<Rightarrow> ban_alloc \<Rightarrow> time_t \<Rightarrow> ban_server \<Rightarrow> bytes option \<Rightarrow> u32 \<Rightarrow>
     int \<times> ban_server" where
  "add_ip_to_ban_list hash_any alloc now s ip points =
     (case (ban_db s, ip) of
        (Some db, Some ip) \<Rightarrow>
          if max_ban_score (ban_config s) = 0 \<or> (length ip \<noteq> 4 \<and> length ip \<noteq> 16) then (0, s)
          else
            (let c = ban_config s;
                 t = massage_ipv6_address (ban_key ip);
                 h = ban_rehash hash_any t;
                 found = htable_get db h (\<lambda>e. ban_entry_cmp e t)
             in if found = None \<and> \<not> talloc_ok alloc then (0, s)
                else if found = None \<and> \<not> htable_add_ok alloc then (0, s)
                else
                  (let e = (case found of None \<Rightarrow> t\<lparr>be_last_reset := now\<rparr>
                            | Some e \<Rightarrow> ban_entry_refresh c now e);
                       db = (if found = None then htable_add db h e else db);
                       e = ban_entry_score c now points e;
                       db = htable_set db h (\<lambda>e. ban_entry_cmp e t) e;
                       ret = (if 0 < sint (max_ban_score c) \<and> be_score e \<ge> max_ban_score c
                              then - 1 else 0)
                   in (ret, s\<lparr>ban_db := Some db\<rparr>)))
      | _ \<Rightarrow> (0, s))"

definition add_str_ip_to_ban_list ::
    "(bytes \<Rightarrow> u64) \<Rightarrow> (string \<Rightarrow> bytes option) \<Rightarrow> ban_alloc \<Rightarrow> time_t \<Rightarrow> ban_server \<Rightarrow>
     string option \<Rightarrow> u32 \<Rightarrow> int \<times> ban_server" where
  "add_str_ip_to_ban_list hash_any inet_pton6 alloc now s ip points =
     (case ip of
        None \<Rightarrow> (0, s)
      | Some ip \<Rightarrow>
          if ban_db s = None \<or> max_ban_score (ban_config s) = 0 \<or> ip = [] then (0, s)
          else
            (case (if strchr ip (CHR '':'') \<noteq> None then inet_pton6 ip else inet_pton4 ip) of
               None \<Rightarrow> (0, s)
             | Some a \<Rightarrow> add_ip_to_ban_list hash_any alloc now s (Some a) points))"

definition remove_ip_from_ban_list ::
    "(bytes \<Rightarrow> u64) \<Rightarrow> ban_server \<Rightarrow> bytes option \<Rightarrow> int \<times> ban_server" where
  "remove_ip_from_ban_list hash_any s ip =
     (case (ban_db s, ip) of
        (Some db, Some ip) \<Rightarrow>
          if length ip = 4 \<or> length ip = 16 then
            (let t = massage_ipv6_address (ban_key ip);
                 h = ban_rehash hash_any t
             in case htable_get db h (\<lambda>e. ban_entry_cmp e t) of
                  None \<Rightarrow> (0, s)
                | Some e \<Rightarrow>
                    (1, s\<lparr>ban_db := Some (htable_set db h (\<lambda>e. ban_entry_cmp e t)
                          (e\<lparr>be_score := 0, be_expires := 0\<rparr>))\<rparr>))
          else (0, s)
      | _ \<Rightarrow> (0, s))"

text \<open>\<open>t1\<close> is the time at which the points for the connection are added, \<open>t2\<close> the time of the
  check itself.\<close>

definition check_if_banned ::
    "(bytes \<Rightarrow> u64) \<Rightarrow> ban_alloc \<Rightarrow> time_t \<Rightarrow> time_t \<Rightarrow> ban_server \<Rightarrow> sockaddr \<Rightarrow> nat \<Rightarrow>
     nat \<times> ban_server" where
  "check_if_banned hash_any alloc t1 t2 s addr addr_size =
     (if ban_db s = None \<or> max_ban_score (ban_config s) = 0 then (0, s)
      else if SA_IN_SIZE addr_size \<noteq> 4 \<and> SA_IN_SIZE addr_size \<noteq> 16 then (0, s)
      else
        (let t = massage_ipv6_address (ban_key (SA_IN_P_GENERIC addr addr_size));
             s = snd (add_ip_to_ban_list hash_any alloc t1 s (Some (be_ip t))
                   (ban_points_connect (ban_config s)));
             db = (case ban_db s of Some db \<Rightarrow> db | None \<Rightarrow> [])
         in case htable_get db (ban_rehash hash_any t) (\<lambda>e. ban_entry_cmp e t) of
              None \<Rightarrow> (0, s)
            | Some e \<Rightarrow>
                if t2 > be_expires e then (0, s)
                else if be_score e \<ge> max_ban_score (ban_config s) then (1, s)
                else (0, s)))"

definition ban_entry_stale :: "ban_cfg \<Rightarrow> time_t \<Rightarrow> ban_entry \<Rightarrow> bool" where
  "ban_entry_stale c now t \<longleftrightarrow> now \<ge> be_expires t \<and> now > be_last_reset t + ban_reset_time c"

definition cleanup_banned_entries :: "time_t \<Rightarrow> ban_server \<Rightarrow> ban_server" where
  "cleanup_banned_entries now s =
     (case ban_db s of
        None \<Rightarrow> s
      | Some db \<Rightarrow> s\<lparr>ban_db := Some (htable_purge db (ban_entry_stale (ban_config s) now))\<rparr>)"

section \<open>The ban list as a map\<close>

text \<open>
  The abstract state is a map from networks (an IPv4 address, or the first half of an IPv6 address)
  to entries; the operations on it are those of the table, with lookups and updates of the map.
\<close>

definition ban_net :: "bytes \<Rightarrow> bytes" where
  "ban_net ip = (if length ip = 16 then take 8 ip @ replicate 8 0 else ip)"

definition ban_abs :: "(bytes \<Rightarrow> u64) \<Rightarrow> ban_server \<Rightarrow> bytes \<Rightarrow> ban_entry option" where
  "ban_abs hash_any s k =
     (case ban_db s of None \<Rightarrow> None | Some db \<Rightarrow> kt_get hash_any be_ip db k)"

definition ban_wf :: "(bytes \<Rightarrow> u64) \<Rightarrow> ban_server \<Rightarrow> bool" where
  "ban_wf hash_any s \<longleftrightarrow>
     (case ban_db s of
        None \<Rightarrow> True
      | Some db \<Rightarrow> kt_inv hash_any be_ip db \<and>
          list_all (\<lambda>(h, e). length (be_ip e) \<in> {4, 16} \<and> ban_net (be_ip e) = be_ip e) db)"

definition ban_enabled :: "ban_server \<Rightarrow> bool" where
  "ban_enabled s \<longleftrightarrow> ban_db s \<noteq> None \<and> max_ban_score (ban_config s) \<noteq> 0"

text \<open>What a point-giving event makes of the entry of its network.\<close>

definition ban_hit :: "ban_cfg \<Rightarrow> time_t \<Rightarrow> u32 \<Rightarrow> bytes \<Rightarrow> ban_entry option \<Rightarrow> ban_entry" where
  "ban_hit c now points k e =
     ban_entry_score c now points
       (case e of None \<Rightarrow> (ban_key k)\<lparr>be_last_reset := now\<rparr> | Some e \<Rightarrow> ban_entry_refresh c now e)"

definition ban_alloc_ok :: "ban_alloc \<Rightarrow> bool" where
  "ban_alloc_ok a \<longleftrightarrow> talloc_ok a \<and> htable_add_ok a"

lemma ban_entry_cmp_iff [simp]: "ban_entry_cmp e t \<longleftrightarrow> be_ip e = be_ip t"
  by (auto simp: ban_entry_cmp_def memcmp_eq_0_iff)

lemma be_ip_massage [simp]: "be_ip (massage_ipv6_address (ban_key ip)) = ban_net ip"
  by (simp add: massage_ipv6_address_def ban_key_def ban_net_def blit_def)

lemma massage_ban_key: "massage_ipv6_address (ban_key ip) = ban_key (ban_net ip)"
  by (simp add: massage_ipv6_address_def ban_key_def ban_net_def blit_def)

lemma length_ban_net [simp]: "length (ban_net ip) = length ip"
  by (simp add: ban_net_def)

lemma ban_net_idem [simp]: "ban_net (ban_net ip) = ban_net ip"
  by (simp add: ban_net_def)

lemma be_ip_key [simp]: "be_ip (ban_key k) = k"
  by (simp add: ban_key_def)

lemma be_ip_refresh [simp]: "be_ip (ban_entry_refresh c now e) = be_ip e"
  by (simp add: ban_entry_refresh_def)

lemma be_ip_score [simp]: "be_ip (ban_entry_score c now points e) = be_ip e"
  by (simp add: ban_entry_score_def)

lemma ban_get_kt: "htable_get db (ban_rehash H t) (\<lambda>e. be_ip e = be_ip t) = kt_get H be_ip db (be_ip t)"
  by (simp add: kt_get_def ban_rehash_def)

lemma ban_set_kt:
  "htable_set db (ban_rehash H t) (\<lambda>e. be_ip e = be_ip t) e = kt_set H be_ip db (be_ip t) e"
  by (simp add: kt_set_def ban_rehash_def)

lemma ban_add_kt: "be_ip e = be_ip t \<Longrightarrow> htable_add db (ban_rehash H t) e = kt_add H be_ip db e"
  by (simp add: kt_add_def ban_rehash_def)

lemmas ban_kt = massage_ban_key ban_get_kt [where t = "ban_key k" for k, simplified]
  ban_set_kt [where t = "ban_key k" for k, simplified]

lemma htable_set_objs:
  "x \<in> set (kt_set H key db k e) \<Longrightarrow> x \<in> set db \<or> snd x = e"
  by (induction db) (auto simp: kt_set_def split: if_splits)

definition ban_valid_ip :: "bytes \<Rightarrow> bool" where
  "ban_valid_ip ip \<longleftrightarrow> length ip = 4 \<or> length ip = 16"

definition ban_ret :: "ban_cfg \<Rightarrow> ban_entry \<Rightarrow> int" where
  "ban_ret c e = (if 0 < sint (max_ban_score c) \<and> be_score e \<ge> max_ban_score c then - 1 else 0)"

lemma be_ip_hit:
  "(\<And>e'. e = Some e' \<Longrightarrow> be_ip e' = k) \<Longrightarrow> be_ip (ban_hit c now points k e) = k"
  by (cases e) (simp_all add: ban_hit_def ban_key_def)

lemma ban_abs_key: "ban_wf H s \<Longrightarrow> ban_abs H s k = Some e \<Longrightarrow> be_ip e = k"
  unfolding ban_wf_def ban_abs_def by (cases "ban_db s") (simp_all, metis kt_get_key)

lemma ban_abs_hit_key: "ban_wf H s \<Longrightarrow> be_ip (ban_hit c now points k (ban_abs H s k)) = k"
  by (rule be_ip_hit) (rule ban_abs_key)

text \<open>\<open>add_ip_to_ban_list\<close> does nothing at all unless the list is enabled and the address has a
  known size, and nothing when a new entry cannot be allocated.\<close>

lemma add_ip_idle:
  assumes "\<not> ban_enabled s \<or> \<not> ban_valid_ip ip \<or> (ban_abs H s (ban_net ip) = None \<and> \<not> ban_alloc_ok al)"
  shows "add_ip_to_ban_list H al now s (Some ip) points = (0, s)"
  using assms
  by (auto simp: add_ip_to_ban_list_def ban_enabled_def ban_valid_ip_def ban_alloc_ok_def
      ban_abs_def ban_kt Let_def split: option.splits)

lemma add_ip_unfold:
  fixes now :: time_t and points :: u32
  assumes "ban_db s = Some db" and "ban_enabled s" and "ban_valid_ip ip"
    and "kt_get H be_ip db (ban_net ip) = None \<Longrightarrow> ban_alloc_ok al"
    and "kt_inv H be_ip db"
  defines "k \<equiv> ban_net ip"
  defines "e' \<equiv> ban_hit (ban_config s) now points k (kt_get H be_ip db k)"
  defines "base \<equiv> (if kt_get H be_ip db k = None
    then kt_add H be_ip db ((ban_key k)\<lparr>be_last_reset := now\<rparr>) else db)"
  shows "add_ip_to_ban_list H al now s (Some ip) points =
    (ban_ret (ban_config s) e', s\<lparr>ban_db := Some (kt_set H be_ip base k e')\<rparr>)"
proof (cases "kt_get H be_ip db k")
  case None
  have "htable_add db (ban_rehash H (ban_key k)) ((ban_key k)\<lparr>be_last_reset := now\<rparr>) =
    kt_add H be_ip db ((ban_key k)\<lparr>be_last_reset := now\<rparr>)"
    by (rule ban_add_kt) simp
  with None assms show ?thesis
    by (auto simp: add_ip_to_ban_list_def ban_enabled_def ban_valid_ip_def ban_alloc_ok_def
        ban_kt ban_hit_def ban_ret_def Let_def)
next
  case (Some e)
  with assms show ?thesis
    by (auto simp: add_ip_to_ban_list_def ban_enabled_def ban_valid_ip_def
        ban_kt ban_hit_def ban_ret_def Let_def)
qed

lemma add_ip_refines:
  fixes now :: time_t and points :: u32
  assumes wf: "ban_wf H s" and en: "ban_enabled s" and ip: "ban_valid_ip ip"
    and al: "ban_abs H s (ban_net ip) \<noteq> None \<or> ban_alloc_ok al"
  defines "k \<equiv> ban_net ip"
  defines "e' \<equiv> ban_hit (ban_config s) now points k (ban_abs H s k)"
  defines "r \<equiv> add_ip_to_ban_list H al now s (Some ip) points"
  shows "fst r = ban_ret (ban_config s) e'"
    and "ban_abs H (snd r) = (ban_abs H s)(k \<mapsto> e')"
    and "ban_wf H (snd r)"
    and "ban_config (snd r) = ban_config s"
    and "ban_db (snd r) \<noteq> None"
proof -
  obtain db where db: "ban_db s = Some db" using en by (auto simp: ban_enabled_def)
  have inv: "kt_inv H be_ip db" and keys: "\<And>h e. (h, e) \<in> set db \<Longrightarrow>
      length (be_ip e) \<in> {4, 16} \<and> ban_net (be_ip e) = be_ip e"
    using wf db by (auto simp: ban_wf_def list_all_iff)
  have abs: "ban_abs H s = kt_get H be_ip db" by (rule ext) (simp add: ban_abs_def db)
  let ?e0 = "(ban_key k)\<lparr>be_last_reset := now\<rparr>"
  let ?base = "if kt_get H be_ip db k = None then kt_add H be_ip db ?e0 else db"
  have key: "be_ip e' = k" unfolding e'_def using wf by (rule ban_abs_hit_key)
  have r: "r = (ban_ret (ban_config s) e', s\<lparr>ban_db := Some (kt_set H be_ip ?base k e')\<rparr>)"
    unfolding r_def k_def e'_def abs using db en ip al [unfolded abs] inv
    by (intro add_ip_unfold) auto
  have inv0: "kt_inv H be_ip ?base" using inv by (simp add: kdb.invar_add)
  have get: "kt_get H be_ip (kt_set H be_ip ?base k e') = (kt_get H be_ip db)(k \<mapsto> e')"
    using inv key kdb.store_after_add [of H be_ip db ?e0 e'] by (simp add: kdb.lookup_store)
  show "fst r = ban_ret (ban_config s) e'" by (simp add: r)
  show "ban_abs H (snd r) = (ban_abs H s)(k \<mapsto> e')"
    unfolding abs by (rule ext) (simp add: r ban_abs_def get)
  have good: "length (be_ip x) \<in> {4, 16} \<and> ban_net (be_ip x) = be_ip x"
    if "(h, x) \<in> set (kt_set H be_ip ?base k e')" for h x
    using htable_set_objs [OF that] keys key ip
    by (auto simp: kt_add_def htable_add_def k_def ban_valid_ip_def split: if_splits)
  then have "list_all (\<lambda>(h, e). length (be_ip e) \<in> {4, 16} \<and> ban_net (be_ip e) = be_ip e)
      (kt_set H be_ip ?base k e')"
    unfolding list_all_iff by blast
  then show "ban_wf H (snd r)"
    using kdb.invar_store [OF inv0 key] by (simp add: r ban_wf_def)
  show "ban_config (snd r) = ban_config s" and "ban_db (snd r) \<noteq> None" by (simp_all add: r)
qed

lemma add_ip_wf:
  assumes "ban_wf H s"
  shows "ban_wf H (snd (add_ip_to_ban_list H al now s ip points))"
    and "ban_config (snd (add_ip_to_ban_list H al now s ip points)) = ban_config s"
    and "ban_db (snd (add_ip_to_ban_list H al now s ip points)) = None \<longleftrightarrow> ban_db s = None"
proof -
  have idle: "ip = None \<Longrightarrow> add_ip_to_ban_list H al now s ip points = (0, s)"
    by (auto simp: add_ip_to_ban_list_def split: option.splits)
  show "ban_wf H (snd (add_ip_to_ban_list H al now s ip points))"
    using assms idle add_ip_idle [of s _ H al now points] add_ip_refines(3) [of H s _ al now points]
    by (cases ip) (simp, metis snd_conv)
  show "ban_config (snd (add_ip_to_ban_list H al now s ip points)) = ban_config s"
    using assms idle add_ip_idle [of s _ H al now points] add_ip_refines(4) [of H s _ al now points]
    by (cases ip) (simp, metis snd_conv)
  show "ban_db (snd (add_ip_to_ban_list H al now s ip points)) = None \<longleftrightarrow> ban_db s = None"
    using assms idle add_ip_idle [of s _ H al now points] add_ip_refines(5) [of H s _ al now points]
    by (cases ip) (simp, metis snd_conv ban_enabled_def)
qed

section \<open>The check of a connection\<close>

definition sa_ok :: "sockaddr \<Rightarrow> nat \<Rightarrow> bool" where
  "sa_ok addr sz \<longleftrightarrow> length addr = SIZEOF_SS \<and> sz \<in> {SIZEOF_SIN, SIZEOF_SIN6}"

definition sa_net :: "sockaddr \<Rightarrow> nat \<Rightarrow> bytes" where
  "sa_net addr sz = ban_net (SA_IN_P_GENERIC addr sz)"

definition ban_refused :: "ban_cfg \<Rightarrow> time_t \<Rightarrow> ban_entry \<Rightarrow> bool" where
  "ban_refused c t e \<longleftrightarrow> t \<le> be_expires e \<and> max_ban_score c \<le> be_score e"

lemma valid_ip_sa: "sa_ok addr sz \<Longrightarrow> ban_valid_ip (sa_net addr sz)"
  by (auto simp: sa_ok_def sa_net_def ban_valid_ip_def SA_IN_P_GENERIC_def SA_IN_U8_P_def
      SA_IN6_U8_P_def buf_simps)

lemma ban_net_sa [simp]: "ban_net (sa_net addr sz) = sa_net addr sz"
  by (simp add: sa_net_def)

lemma check_if_banned_unfold:
  fixes t1 :: time_t and al :: ban_alloc
  assumes wf: "ban_wf H s" and en: "ban_enabled s" and sa: "sa_ok addr sz"
  defines "r \<equiv> add_ip_to_ban_list H al t1 s (Some (sa_net addr sz)) (ban_points_connect (ban_config s))"
  shows "check_if_banned H al t1 t2 s addr sz =
    (case ban_abs H (snd r) (sa_net addr sz) of None \<Rightarrow> 0
     | Some e \<Rightarrow> if ban_refused (ban_config s) t2 e then 1 else 0, snd r)"
proof -
  have "SA_IN_SIZE sz = 4 \<or> SA_IN_SIZE sz = 16" by (simp add: SA_IN_SIZE_def)
  moreover have "ban_db (snd r) \<noteq> None"
    using add_ip_wf(3) [OF wf] en by (simp add: r_def ban_enabled_def)
  moreover have "ban_config (snd r) = ban_config s"
    using add_ip_wf(2) [OF wf] by (simp add: r_def)
  ultimately show ?thesis using en
    by (auto simp: check_if_banned_def ban_enabled_def ban_kt Let_def r_def [symmetric] sa_net_def [symmetric]
        ban_abs_def ban_refused_def split: option.splits)
qed

lemma check_if_banned_refines:
  fixes t1 t2 :: time_t and al :: ban_alloc
  assumes wf: "ban_wf H s" and en: "ban_enabled s" and sa: "sa_ok addr sz"
    and al: "ban_abs H s (sa_net addr sz) \<noteq> None \<or> ban_alloc_ok al"
  defines "k \<equiv> sa_net addr sz"
  defines "e' \<equiv> ban_hit (ban_config s) t1 (ban_points_connect (ban_config s)) k (ban_abs H s k)"
  defines "r \<equiv> check_if_banned H al t1 t2 s addr sz"
  shows "fst r = (if ban_refused (ban_config s) t2 e' then 1 else 0)"
    and "ban_abs H (snd r) = (ban_abs H s)(k \<mapsto> e')"
    and "ban_wf H (snd r)" and "ban_config (snd r) = ban_config s" and "ban_enabled (snd r)"
proof -
  note add = add_ip_refines [OF wf en valid_ip_sa [OF sa], unfolded ban_net_sa, OF al]
  note chk = check_if_banned_unfold [OF wf en sa, of al t1 t2]
  show "fst r = (if ban_refused (ban_config s) t2 e' then 1 else 0)"
    by (simp add: r_def chk add k_def e'_def)
  show "ban_abs H (snd r) = (ban_abs H s)(k \<mapsto> e')"
    by (simp add: r_def chk add k_def e'_def)
  show "ban_wf H (snd r)" and "ban_config (snd r) = ban_config s" and "ban_enabled (snd r)"
    using en by (simp_all add: r_def chk add ban_enabled_def)
qed

section \<open>Removal and cleanup\<close>

lemma remove_ip_refines:
  assumes wf: "ban_wf H s" and ip: "ban_valid_ip ip"
  defines "k \<equiv> ban_net ip"
  defines "r \<equiv> remove_ip_from_ban_list H s (Some ip)"
  shows "fst r = (if ban_abs H s k = None then 0 else 1)"
    and "ban_abs H (snd r) k = map_option (\<lambda>e. e\<lparr>be_score := 0, be_expires := 0\<rparr>) (ban_abs H s k)"
    and "j \<noteq> k \<Longrightarrow> ban_abs H (snd r) j = ban_abs H s j"
    and "ban_wf H (snd r)"
    and "ban_config (snd r) = ban_config s" and "ban_enabled (snd r) = ban_enabled s"
proof -
  show "fst r = (if ban_abs H s k = None then 0 else 1)"
    and "ban_config (snd r) = ban_config s" and "ban_enabled (snd r) = ban_enabled s"
    using ip by (auto simp: r_def k_def remove_ip_from_ban_list_def ban_valid_ip_def ban_abs_def
        ban_kt ban_enabled_def Let_def split: option.splits)
  have "ban_abs H (snd r) = (ban_abs H s)
      (k := map_option (\<lambda>e. e\<lparr>be_score := 0, be_expires := 0\<rparr>) (ban_abs H s k)) \<and> ban_wf H (snd r)"
  proof (cases "ban_abs H s k")
    case None
    then have "r = (0, s)"
      using ip by (auto simp: r_def k_def remove_ip_from_ban_list_def ban_valid_ip_def ban_abs_def
          ban_kt Let_def split: option.splits)
    with None wf show ?thesis by (simp add: fun_upd_idem)
  next
    case (Some e)
    then obtain db where db: "ban_db s = Some db" and get: "kt_get H be_ip db k = Some e"
      by (auto simp: ban_abs_def split: option.splits)
    let ?e = "e\<lparr>be_score := 0, be_expires := 0\<rparr>"
    have r: "r = (1, s\<lparr>ban_db := Some (kt_set H be_ip db k ?e)\<rparr>)"
      using ip db get by (auto simp: r_def k_def remove_ip_from_ban_list_def ban_valid_ip_def
          ban_kt Let_def)
    have inv: "kt_inv H be_ip db" and key: "be_ip ?e = k"
      using wf db ban_abs_key [OF wf Some] by (simp_all add: ban_wf_def)
    have "kt_get H be_ip (kt_set H be_ip db k ?e) = (kt_get H be_ip db)(k \<mapsto> ?e)"
      by (rule kdb.lookup_store [OF inv _ key]) (simp add: get)
    then have "ban_abs H (snd r) = (ban_abs H s)(k \<mapsto> ?e)"
      by (intro ext) (simp add: r db ban_abs_def)
    moreover have "ban_wf H (snd r)"
      using wf kdb.invar_store [OF inv key] ip key
      by (auto simp: r db ban_wf_def k_def ban_valid_ip_def intro!: list_all_kt_set)
    ultimately show ?thesis by (simp add: Some)
  qed
  then show "ban_abs H (snd r) k =
      map_option (\<lambda>e. e\<lparr>be_score := 0, be_expires := 0\<rparr>) (ban_abs H s k)"
    and "j \<noteq> k \<Longrightarrow> ban_abs H (snd r) j = ban_abs H s j" and "ban_wf H (snd r)"
    by simp_all
qed

lemma remove_ip_wf: "ban_wf H s \<Longrightarrow> ban_wf H (snd (remove_ip_from_ban_list H s ip))"
proof (cases "\<exists>a. ip = Some a \<and> ban_valid_ip a")
  case True
  assume "ban_wf H s"
  with True show ?thesis by (auto intro: remove_ip_refines(4))
next
  case False
  assume "ban_wf H s"
  with False show ?thesis
    by (auto simp: remove_ip_from_ban_list_def ban_valid_ip_def split: option.splits)
qed

lemma cleanup_refines:
  assumes "ban_wf H s"
  shows "ban_abs H (cleanup_banned_entries now s) k =
      (case ban_abs H s k of None \<Rightarrow> None
       | Some e \<Rightarrow> if ban_entry_stale (ban_config s) now e then None else Some e)"
    and "ban_wf H (cleanup_banned_entries now s)"
    and "ban_config (cleanup_banned_entries now s) = ban_config s"
    and "ban_enabled (cleanup_banned_entries now s) = ban_enabled s"
proof -
  show "ban_config (cleanup_banned_entries now s) = ban_config s"
    and "ban_enabled (cleanup_banned_entries now s) = ban_enabled s"
    by (simp_all add: cleanup_banned_entries_def ban_enabled_def split: option.split)
  show "ban_abs H (cleanup_banned_entries now s) k =
      (case ban_abs H s k of None \<Rightarrow> None
       | Some e \<Rightarrow> if ban_entry_stale (ban_config s) now e then None else Some e)"
    using assms
    by (cases "ban_db s")
      (simp_all add: cleanup_banned_entries_def ban_abs_def ban_wf_def kdb.lookup_purge)
  show "ban_wf H (cleanup_banned_entries now s)"
    using assms
    by (cases "ban_db s")
      (simp_all add: cleanup_banned_entries_def ban_wf_def kdb.invar_purge list_all_iff)
qed

section \<open>Sequences of events\<close>

text \<open>
  The inputs that the main process turns into calls of this file: a worker or the security module
  reports points for an address, a client connects, an administrator unbans an address, and the
  maintenance timer runs the cleanup.
\<close>

inductive ban_step ::
    "(bytes \<Rightarrow> u64) \<Rightarrow> (string \<Rightarrow> bytes option) \<Rightarrow> ban_server \<Rightarrow> ban_server \<Rightarrow> bool"
  for hash_any inet_pton6 where
  step_points: "ban_step hash_any inet_pton6 s
     (snd (add_str_ip_to_ban_list hash_any inet_pton6 al now s ip points))"
| step_unban: "ban_step hash_any inet_pton6 s (snd (remove_ip_from_ban_list hash_any s a))"
| step_connect: "sa_ok addr sz \<Longrightarrow>
     ban_step hash_any inet_pton6 s (snd (check_if_banned hash_any al t1 t2 s addr sz))"
| step_cleanup: "ban_step hash_any inet_pton6 s (cleanup_banned_entries now s)"

lemma add_str_wf:
  "ban_wf H s \<Longrightarrow> ban_wf H (snd (add_str_ip_to_ban_list H pton6 al now s ip points))"
  by (auto simp: add_str_ip_to_ban_list_def add_ip_wf(1) split: option.splits)

lemma check_if_banned_wf:
  assumes "ban_wf H s" and "sa_ok addr sz"
  shows "ban_wf H (snd (check_if_banned H al t1 t2 s addr sz))"
proof (cases "ban_enabled s")
  case True
  with assms show ?thesis by (simp add: check_if_banned_unfold add_ip_wf(1))
next
  case False
  with assms show ?thesis by (auto simp: check_if_banned_def ban_enabled_def)
qed

lemma ban_step_wf: "ban_step H pton6 s s' \<Longrightarrow> ban_wf H s \<Longrightarrow> ban_wf H s'"
  by (induction rule: ban_step.induct)
    (auto intro: add_str_wf remove_ip_wf check_if_banned_wf cleanup_refines(2))

datatype ban_event = Ev_Points bytes u32 | Ev_Connect sockaddr nat

definition ban_ev_ok :: "ban_event \<Rightarrow> bool" where
  "ban_ev_ok ev = (case ev of Ev_Points ip p \<Rightarrow> ban_valid_ip ip | Ev_Connect addr sz \<Rightarrow> sa_ok addr sz)"

definition ban_do :: "(bytes \<Rightarrow> u64) \<Rightarrow> ban_alloc \<Rightarrow> time_t \<Rightarrow> ban_server \<Rightarrow> ban_event \<Rightarrow> int \<times> ban_server"
  where "ban_do hash_any al t s ev =
     (case ev of
        Ev_Points ip p \<Rightarrow> add_ip_to_ban_list hash_any al t s (Some ip) p
      | Ev_Connect addr sz \<Rightarrow> map_prod int id (check_if_banned hash_any al t t s addr sz))"

text \<open>The answers to a sequence of events, and the state after it.\<close>

fun ban_run ::
    "(bytes \<Rightarrow> u64) \<Rightarrow> ban_alloc \<Rightarrow> ban_server \<Rightarrow> (time_t \<times> ban_event) list \<Rightarrow> int list \<times> ban_server" where
  "ban_run hash_any al s [] = ([], s)"
| "ban_run hash_any al s ((t, ev) # evs) =
     (let (r, s) = ban_do hash_any al t s ev;
          (rs, s) = ban_run hash_any al s evs
      in (r # rs, s))"

definition ev_net :: "ban_event \<Rightarrow> bytes" where
  "ev_net ev = (case ev of Ev_Points ip p \<Rightarrow> ban_net ip | Ev_Connect addr sz \<Rightarrow> sa_net addr sz)"

definition ev_points :: "ban_cfg \<Rightarrow> ban_event \<Rightarrow> u32" where
  "ev_points c ev = (case ev of Ev_Points ip p \<Rightarrow> p | Ev_Connect addr sz \<Rightarrow> ban_points_connect c)"

definition ev_answer :: "ban_cfg \<Rightarrow> time_t \<Rightarrow> ban_event \<Rightarrow> ban_entry \<Rightarrow> int" where
  "ev_answer c t ev e =
     (case ev of Ev_Points ip p \<Rightarrow> ban_ret c e
      | Ev_Connect addr sz \<Rightarrow> if ban_refused c t e then 1 else 0)"

lemma ban_do_refines:
  fixes t :: time_t
  assumes "ban_wf H s" and "ban_enabled s" and "ban_ev_ok ev" and "ban_alloc_ok al"
  defines "e' \<equiv> ban_hit (ban_config s) t (ev_points (ban_config s) ev) (ev_net ev) (ban_abs H s (ev_net ev))"
  defines "r \<equiv> ban_do H al t s ev"
  shows "fst r = ev_answer (ban_config s) t ev e'"
    and "ban_abs H (snd r) = (ban_abs H s)(ev_net ev \<mapsto> e')"
    and "ban_wf H (snd r)" and "ban_config (snd r) = ban_config s" and "ban_enabled (snd r)"
proof -
  have "fst r = ev_answer (ban_config s) t ev e' \<and> ban_abs H (snd r) = (ban_abs H s)(ev_net ev \<mapsto> e') \<and>
    ban_wf H (snd r) \<and> ban_config (snd r) = ban_config s \<and> ban_enabled (snd r)"
  proof (cases ev)
    case (Ev_Points ip p)
    then have ip: "ban_valid_ip ip" using assms(3) by (simp add: ban_ev_ok_def)
    note add = add_ip_refines [OF assms(1,2) ip disjI2 [OF assms(4)], of t p]
    show ?thesis using add assms(2)
      by (simp add: Ev_Points r_def e'_def ban_do_def ev_net_def ev_points_def ev_answer_def ban_enabled_def)
  next
    case (Ev_Connect addr sz)
    then have sa: "sa_ok addr sz" using assms(3) by (simp add: ban_ev_ok_def)
    note chk = check_if_banned_refines [OF assms(1,2) sa disjI2 [OF assms(4)], of t t]
    show ?thesis using chk
      by (simp add: Ev_Connect r_def e'_def ban_do_def ev_net_def ev_points_def ev_answer_def)
  qed
  then show "fst r = ev_answer (ban_config s) t ev e'"
    and "ban_abs H (snd r) = (ban_abs H s)(ev_net ev \<mapsto> e')"
    and "ban_wf H (snd r)" and "ban_config (snd r) = ban_config s" and "ban_enabled (snd r)"
    by simp_all
qed

text \<open>The cleanup relation: \<open>s'\<close> is \<open>s\<close> without some entries that are stale at \<open>t\<close>.\<close>

definition ban_sim :: "(bytes \<Rightarrow> u64) \<Rightarrow> time_t \<Rightarrow> ban_server \<Rightarrow> ban_server \<Rightarrow> bool" where
  "ban_sim H t s s' \<longleftrightarrow> ban_wf H s \<and> ban_wf H s' \<and> ban_config s' = ban_config s \<and>
     ban_enabled s \<and> ban_enabled s' \<and>
     (\<forall>k. ban_abs H s' k = ban_abs H s k \<or>
        ban_abs H s' k = None \<and> (\<exists>e. ban_abs H s k = Some e \<and> ban_entry_stale (ban_config s) t e))"

text \<open>An event on a stale entry leaves the same entry as an event on a network without one.\<close>

lemma ban_hit_stale:
  assumes "ban_entry_stale c t0 e" and "t0 \<le> t" and "be_ip e = k" and "max_ban_score c \<noteq> 0"
  shows "ban_hit c t p k (Some e) = ban_hit c t p k None"
  using assms
  by (cases e) (simp add: ban_hit_def ban_entry_stale_def ban_entry_refresh_def ban_entry_score_def ban_key_def
      word_neq_0_conv)

lemma ban_stale_mono: "ban_entry_stale c t e \<Longrightarrow> t \<le> t' \<Longrightarrow> ban_entry_stale c t' e"
  by (simp add: ban_entry_stale_def)

lemma ban_sim_hit:
  assumes "ban_sim H t0 s s'" and "t0 \<le> t"
  shows "ban_hit (ban_config s) t p k (ban_abs H s' k) = ban_hit (ban_config s) t p k (ban_abs H s k)"
proof -
  have en: "max_ban_score (ban_config s) \<noteq> 0" and wf: "ban_wf H s"
    using assms by (simp_all add: ban_sim_def ban_enabled_def)
  consider "ban_abs H s' k = ban_abs H s k"
    | e where "ban_abs H s' k = None" "ban_abs H s k = Some e" "ban_entry_stale (ban_config s) t0 e"
    using assms by (auto simp: ban_sim_def)
  then show ?thesis
  proof cases
    case 2
    from 2(3) assms(2) ban_abs_key [OF wf 2(2)] en
    have "ban_hit (ban_config s) t p k (Some e) = ban_hit (ban_config s) t p k None"
      by (rule ban_hit_stale)
    with 2 show ?thesis by simp
  qed simp
qed

lemma ban_sim_do:
  assumes sim: "ban_sim H t0 s s'" and "t0 \<le> t" and ev: "ban_ev_ok ev" and al: "ban_alloc_ok al"
  shows "fst (ban_do H al t s' ev) = fst (ban_do H al t s ev)"
    and "ban_sim H t (snd (ban_do H al t s ev)) (snd (ban_do H al t s' ev))"
proof -
  have wf: "ban_wf H s" "ban_wf H s'" and en: "ban_enabled s" "ban_enabled s'"
    and c: "ban_config s' = ban_config s"
    using sim by (simp_all add: ban_sim_def)
  note r = ban_do_refines [OF wf(1) en(1) ev al, of t] and r' = ban_do_refines [OF wf(2) en(2) ev al, of t]
  note hit = ban_sim_hit [OF sim \<open>t0 \<le> t\<close>]
  show "fst (ban_do H al t s' ev) = fst (ban_do H al t s ev)"
    by (simp add: r r' c hit)
  show "ban_sim H t (snd (ban_do H al t s ev)) (snd (ban_do H al t s' ev))"
    using sim ban_stale_mono [OF _ \<open>t0 \<le> t\<close>]
    by (auto simp: ban_sim_def r r' c hit)
qed

lemma ban_sim_run:
  assumes "ban_sim H t0 s s'" and "sorted (t0 # map fst evs)" and "list_all (ban_ev_ok \<circ> snd) evs"
    and "ban_alloc_ok al"
  shows "fst (ban_run H al s' evs) = fst (ban_run H al s evs)"
  using assms
proof (induction evs arbitrary: t0 s s')
  case (Cons tev evs)
  obtain t ev where tev: "tev = (t, ev)" by (cases tev)
  have "fst (ban_do H al t s' ev) = fst (ban_do H al t s ev)"
    and "ban_sim H t (snd (ban_do H al t s ev)) (snd (ban_do H al t s' ev))"
    using Cons.prems ban_sim_do [of H t0 s s' t ev al] by (auto simp: tev)
  with Cons.IH [of t "snd (ban_do H al t s ev)" "snd (ban_do H al t s' ev)"] Cons.prems
  show ?case by (simp add: tev split_beta)
qed simp

lemma ban_run_Cons:
  "fst (ban_run H al s ((t, ev) # evs)) =
     fst (ban_do H al t s ev) # fst (ban_run H al (snd (ban_do H al t s ev)) evs)"
  by (simp add: split_beta)

text \<open>A point-giving event within the counting window of an entry, without overflow of its score.\<close>

lemma ban_hit_window:
  assumes "t \<le> be_last_reset e + ban_reset_time c" and "unat (be_score e) + unat p < 2 ^ 32"
  shows "unat (be_score (ban_hit c t p k (Some e))) = unat (be_score e) + unat p"
    and "be_last_reset (ban_hit c t p k (Some e)) = be_last_reset e"
    and "be_expires (ban_hit c t p k (Some e)) =
      (if be_score e < max_ban_score c then t + min_reauth_time c else be_expires e)"
  using assms
  by (simp_all add: ban_hit_def ban_entry_refresh_def ban_entry_score_def unat_plus_u32 Let_def)

lemma ban_hit_new:
  assumes "max_ban_score c \<noteq> 0"
  shows "be_score (ban_hit c t p k None) = p" and "be_last_reset (ban_hit c t p k None) = t"
    and "be_expires (ban_hit c t p k None) = t + min_reauth_time c"
  using assms
  by (simp_all add: ban_hit_def ban_entry_score_def ban_key_def Let_def word_neq_0_conv)

lemma ban_polling_run:
  assumes "ban_wf H s" and "ban_enabled s" and "sa_ok addr sz" and "ban_alloc_ok al"
    and "ban_abs H s (sa_net addr sz) = Some e" and "max_ban_score (ban_config s) \<le> be_score e"
    and "list_all (\<lambda>t. t \<le> be_last_reset e + ban_reset_time (ban_config s)) ts"
    and "unat (be_score e) + length ts * unat (ban_points_connect (ban_config s)) < 2 ^ 32"
  shows "fst (ban_run H al s (map (\<lambda>t. (t, Ev_Connect addr sz)) ts)) =
    map (\<lambda>t. if t \<le> be_expires e then 1 else 0) ts"
  using assms
proof (induction ts arbitrary: s e)
  case (Cons t ts)
  let ?c = "ban_config s" and ?p = "ban_points_connect (ban_config s)"
  let ?e = "ban_hit ?c t ?p (sa_net addr sz) (Some e)" and ?s = "snd (ban_do H al t s (Ev_Connect addr sz))"
  have ok: "ban_ev_ok (Ev_Connect addr sz)" using Cons.prems by (simp add: ban_ev_ok_def)
  note do = ban_do_refines [OF Cons.prems(1,2) ok Cons.prems(4), of t, unfolded ev_net_def ev_points_def
      ev_answer_def ban_event.case Cons.prems(5)]
  have hit: "unat (be_score ?e) = unat (be_score e) + unat ?p" "be_last_reset ?e = be_last_reset e"
    "be_expires ?e = be_expires e"
    using Cons.prems ban_hit_window [of t e ?c ?p "sa_net addr sz"] by (auto simp: not_less [symmetric])
  then have sc: "max_ban_score ?c \<le> be_score ?e"
    using Cons.prems(6) by (simp add: word_le_nat_alt)
  have "fst (ban_run H al ?s (map (\<lambda>t. (t, Ev_Connect addr sz)) ts)) =
    map (\<lambda>t. if t \<le> be_expires ?e then 1 else 0) ts"
    using do hit sc Cons.prems by (intro Cons.IH) (simp_all add: algebra_simps)
  then show ?case
    using do(1) hit sc by (simp add: ban_run_Cons ban_refused_def del: ban_run.simps)
qed simp

fun running :: "nat \<Rightarrow> nat list \<Rightarrow> nat list" where
  "running acc [] = []"
| "running acc (p # ps) = (acc + p) # running (acc + p) ps"

lemma ban_points_run:
  assumes "ban_wf H s" and "ban_enabled s" and "ban_valid_ip ip" and "ban_alloc_ok al"
    and "0 < sint (max_ban_score (ban_config s))"
    and "ban_abs H s (ban_net ip) = Some e"
    and "list_all (\<lambda>(t, p). t \<le> be_last_reset e + ban_reset_time (ban_config s)) tps"
    and "unat (be_score e) + sum_list (map (unat \<circ> snd) tps) < 2 ^ 32"
  shows "fst (ban_run H al s (map (\<lambda>(t, p). (t, Ev_Points ip p)) tps)) =
    map (\<lambda>total. if unat (max_ban_score (ban_config s)) \<le> total then - 1 else 0)
      (running (unat (be_score e)) (map (unat \<circ> snd) tps))"
  using assms
proof (induction tps arbitrary: s e)
  case (Cons tp tps)
  obtain t p where tp: "tp = (t, p)" by (cases tp)
  let ?c = "ban_config s" and ?s = "snd (ban_do H al t s (Ev_Points ip p))"
  let ?e = "ban_hit ?c t p (ban_net ip) (Some e)"
  have ok: "ban_ev_ok (Ev_Points ip p)" using Cons.prems by (simp add: ban_ev_ok_def)
  note do = ban_do_refines [OF Cons.prems(1,2) ok Cons.prems(4), of t, unfolded ev_net_def ev_points_def
      ev_answer_def ban_event.case Cons.prems(6)]
  have hit: "unat (be_score ?e) = unat (be_score e) + unat p" "be_last_reset ?e = be_last_reset e"
    using Cons.prems(7,8) ban_hit_window(1,2) [of t e ?c p "ban_net ip"] by (simp_all add: tp)
  have "fst (ban_run H al ?s (map (\<lambda>(t, p). (t, Ev_Points ip p)) tps)) =
    map (\<lambda>total. if unat (max_ban_score (ban_config ?s)) \<le> total then - 1 else 0)
      (running (unat (be_score ?e)) (map (unat \<circ> snd) tps))"
    using do hit Cons.prems by (intro Cons.IH) (simp_all add: tp algebra_simps)
  then show ?case
    using do(1,4) hit Cons.prems(5)
    by (simp add: tp ban_run_Cons ban_ret_def word_le_nat_alt comp_def del: ban_run.simps)
qed simp

section \<open>Properties\<close>

text \<open>C26. Whatever points, connections, unbans and cleanups reach the ban list after its
  initialisation, under any pattern of allocation failures, every entry is stored under the hash of
  its own address, no network has two entries, and every key is an IPv4 address or an IPv6 /64.\<close>

theorem ban_list_invariant:
  assumes "(ban_step hash_any inet_pton6)\<^sup>*\<^sup>* (main_ban_db_init s0) s"
  shows "ban_wf hash_any s"
  using assms
  by (induction rule: rtranclp_induct)
    (simp add: ban_wf_def main_ban_db_init_def, blast intro: ban_step_wf)

definition demo_ban_cfg :: ban_cfg where
  "demo_ban_cfg = \<lparr>min_reauth_time = 300, max_ban_score = 80, ban_reset_time = 1200, ban_points_connect = 1\<rparr>"

definition demo_ban_server :: ban_server where
  "demo_ban_server = \<lparr>ban_db = Some [(0, \<lparr>be_ip = [10, 0, 0, 1], be_score = 80, be_last_reset = 1000,
     be_expires = 1400\<rparr>)], ban_config = demo_ban_cfg\<rparr>"

definition demo_alloc :: ban_alloc where "demo_alloc = \<lparr>talloc_ok = True, htable_add_ok = True\<rparr>"

definition demo_addr :: sockaddr where "demo_addr = blit 4 [10, 0, 0, 1] (set_family AF_INET zero_ss)"

lemma demo_ban_facts:
  "ban_wf (\<lambda>_. 0) demo_ban_server" "ban_enabled demo_ban_server" "ban_alloc_ok demo_alloc"
  "sa_ok demo_addr 16" "sa_net demo_addr 16 = [10, 0, 0, 1]"
  "ban_abs (\<lambda>_. 0) demo_ban_server [10, 0, 0, 1] =
     Some \<lparr>be_ip = [10, 0, 0, 1], be_score = 80, be_last_reset = 1000, be_expires = 1400\<rparr>"
  by code_simp+

theorem ban_list_invariant_witness:
  "ban_wf (\<lambda>_. 7) (snd (add_str_ip_to_ban_list (\<lambda>_. 7) (\<lambda>_. None) demo_alloc 5
     (main_ban_db_init demo_ban_server) (Some ''1.2.3.4'') 10))"
  by (rule ban_list_invariant [of _ "\<lambda>_. None", OF r_into_rtranclp])
    (rule step_points)

text \<open>Removing stale entries is invisible: for every later sequence of connections and point
  reports, at non-decreasing times, the answers (refused or not, banned or not) after
  \<open>cleanup_banned_entries\<close> are those without it. The cleanup only gives memory back.\<close>

theorem cleanup_transparent:
  assumes "ban_wf hash_any s" and "ban_enabled s" and "ban_alloc_ok al"
    and "sorted (now # map fst evs)" and "list_all (ban_ev_ok \<circ> snd) evs"
  shows "fst (ban_run hash_any al (cleanup_banned_entries now s) evs) = fst (ban_run hash_any al s evs)"
proof -
  have "ban_sim hash_any now s (cleanup_banned_entries now s)"
    using assms(1,2) by (auto simp: ban_sim_def cleanup_refines split: option.splits)
  then show ?thesis by (rule ban_sim_run) (use assms in auto)
qed

theorem cleanup_transparent_witness:
  "fst (ban_run (\<lambda>_. 0) demo_alloc (cleanup_banned_entries 2300 demo_ban_server)
     [(2400, Ev_Points [10, 0, 0, 1] 70), (2410, Ev_Connect demo_addr 16)]) =
   fst (ban_run (\<lambda>_. 0) demo_alloc demo_ban_server
     [(2400, Ev_Points [10, 0, 0, 1] 70), (2410, Ev_Connect demo_addr 16)])"
  by (rule cleanup_transparent)
    (simp_all add: demo_ban_facts ban_ev_ok_def ban_valid_ip_def)

text \<open>C12. A banned client that keeps polling does not prolong its ban: whatever the connection
  attempts within the counting window, each is refused exactly until the expiration time the entry
  had when the ban began (the score must not overflow its 32 bits).\<close>

theorem polling_does_not_prolong_ban:
  assumes "ban_wf hash_any s" and "ban_enabled s" and "sa_ok addr sz" and "ban_alloc_ok al"
    and "ban_abs hash_any s (sa_net addr sz) = Some e"
    and "max_ban_score (ban_config s) \<le> be_score e"
    and "list_all (\<lambda>t. t \<le> be_last_reset e + ban_reset_time (ban_config s)) ts"
    and "unat (be_score e) + length ts * unat (ban_points_connect (ban_config s)) < 2 ^ 32"
  shows "fst (ban_run hash_any al s (map (\<lambda>t. (t, Ev_Connect addr sz)) ts)) =
    map (\<lambda>t. if t \<le> be_expires e then 1 else 0) ts"
  using assms by (rule ban_polling_run)

theorem polling_does_not_prolong_ban_witness:
  "fst (ban_run (\<lambda>_. 0) demo_alloc demo_ban_server
     (map (\<lambda>t. (t, Ev_Connect demo_addr 16)) [1300, 1350, 1400, 1401])) = [1, 1, 1, 0]"
  by (subst polling_does_not_prolong_ban [where e = "\<lparr>be_ip = [10, 0, 0, 1], be_score = 80,
        be_last_reset = 1000, be_expires = 1400\<rparr>"])
    (simp_all add: demo_ban_facts, simp_all add: demo_ban_server_def demo_ban_cfg_def)



text \<open>An unbanned network can connect: after \<open>remove_ip_from_ban_list\<close> of any address of it, the
  next connection from it is accepted (the points of one connection being below the limit), and
  every other network is answered as before.\<close>

theorem unban_accepts:
  assumes "ban_wf hash_any s" and "ban_enabled s" and "ban_alloc_ok al" and "ban_valid_ip ip"
    and "sa_ok addr sz"
    and "ban_points_connect (ban_config s) < max_ban_score (ban_config s)"
  defines "s' \<equiv> snd (remove_ip_from_ban_list hash_any s (Some ip))"
  shows "fst (check_if_banned hash_any al t1 t2 s' addr sz) =
    (if sa_net addr sz = ban_net ip then 0
     else fst (check_if_banned hash_any al t1 t2 s addr sz))"
proof -
  note rm = remove_ip_refines [OF assms(1,4), folded s'_def]
  have en: "ban_enabled s'" using rm(6) assms(2) by simp
  note chk' = check_if_banned_refines(1) [OF rm(4) en assms(5) disjI2 [OF assms(3)], of t1 t2]
  note chk = check_if_banned_refines(1) [OF assms(1,2,5) disjI2 [OF assms(3)], of t1 t2]
  show ?thesis
  proof (cases "sa_net addr sz = ban_net ip")
    case True
    have "fst (check_if_banned hash_any al t1 t2 s' addr sz) = 0"
      unfolding chk' True rm(2,5) using assms(6)
      by (cases "ban_abs hash_any s (ban_net ip)")
        (auto simp: ban_refused_def ban_hit_def ban_entry_refresh_def ban_entry_score_def ban_key_def Let_def)
    with True show ?thesis by simp
  next
    case False
    show ?thesis unfolding chk' chk rm(3) [OF False] rm(5) using False by simp
  qed
qed

theorem unban_accepts_witness:
  "fst (check_if_banned (\<lambda>_. 0) demo_alloc 1300 1300
     (snd (remove_ip_from_ban_list (\<lambda>_. 0) demo_ban_server (Some [10, 0, 0, 1]))) demo_addr 16) = 0"
  by (subst unban_accepts)
    (simp_all add: demo_ban_facts ban_valid_ip_def ban_net_def, simp_all add: demo_ban_server_def demo_ban_cfg_def)

text \<open>In IPv6 a /64 is one client: two IPv6 peers whose addresses agree in the first eight bytes
  get the same answer and leave the same ban list.\<close>

theorem ipv6_network_is_one_client:
  assumes "take 8 (SA_IN6_U8_P a) = take 8 (SA_IN6_U8_P b)" and "length a = SIZEOF_SS" and "length b = SIZEOF_SS"
  shows "check_if_banned hash_any al t1 t2 s a SIZEOF_SIN6 = check_if_banned hash_any al t1 t2 s b SIZEOF_SIN6"
proof -
  have "ban_net (SA_IN_P_GENERIC a SIZEOF_SIN6) = ban_net (SA_IN_P_GENERIC b SIZEOF_SIN6)"
    using assms by (simp add: ban_net_def SA_IN_P_GENERIC_def SA_IN6_U8_P_def buf_simps)
  then show ?thesis by (simp add: check_if_banned_def massage_ban_key)
qed

theorem ipv6_network_is_one_client_witness:
  "check_if_banned (\<lambda>_. 0) demo_alloc 5 6 demo_ban_server (blit 8 (replicate 15 1 @ [2]) zero_ss) 28 =
   check_if_banned (\<lambda>_. 0) demo_alloc 5 6 demo_ban_server (blit 8 (replicate 15 1 @ [3]) zero_ss) 28"
  by (rule ipv6_network_is_one_client; code_simp)

end
