(* ===== verification/Lzs.thy ===== *)
theory Lzs
  imports Prelude
begin

text \<open>
  The LZS compression of \<^verbatim>\<open>src/src/lzs.c\<close>, which the worker applies to the packets of the tunnel.

  The decompressor reads a bit stream from a list of bytes (the remaining bytes at \<^verbatim>\<open>src\<close>, so that
  \<^verbatim>\<open>srclen\<close> is its length) and writes into a destination buffer whose initial contents are arbitrary.
  The compressor keeps its pending bits in a 32-bit word and the history in the two arrays of the
  source; the ring \<^verbatim>\<open>hash_chain\<close> starts with arbitrary contents, as in C. A read beyond the input is the
  error \<open>OOB\<close> and an endless walk through the chain the error \<open>FUEL\<close>, so that memory safety and
  termination are theorems. The 16-bit counters are natural numbers reduced modulo \<open>65536\<close> where C
  stores them.
\<close>

section \<open>The decompressor\<close>

datatype lzs_err = EINVAL | EFBIG | OOB | FUEL

text \<open>Accesses to an array: outside of it they are the error \<open>OOB\<close>.\<close>

definition buf_get :: "'a list \<Rightarrow> nat \<Rightarrow> lzs_err + 'a" where
  "buf_get xs i = (if i < length xs then Inr (xs ! i) else Inl OOB)"

definition buf_put :: "'a list \<Rightarrow> nat \<Rightarrow> 'a \<Rightarrow> lzs_err + 'a list" where
  "buf_put xs i x = (if i < length xs then Inr (xs[i := x]) else Inl OOB)"

type_synonym bit_src = "bytes \<times> nat" \<comment> \<open>remaining input, \<^verbatim>\<open>bits_left\<close> in its first byte\<close>

definition GET_BITS :: "nat \<Rightarrow> bit_src \<Rightarrow> lzs_err + (u32 \<times> bit_src)" where
  "GET_BITS bits s =
     (case s of
        (a # b # rest, bits_left) \<Rightarrow>
          if bits \<ge> 8 \<or> bits \<ge> bits_left then
            (let data = push_bit (bits - bits_left) (ucast a) AND (push_bit bits 1 - 1);
                 bits_left = bits_left + 8 - bits
             in if bits > 8 \<or> bits_left < 8 then
                  (let data = data OR drop_bit bits_left (ucast b)
                   in if bits > 8 \<and> bits_left = 0 then Inr (data, (rest, 8))
                      else Inr (data, (b # rest, bits_left)))
                else Inr (data, (b # rest, bits_left)))
          else Inr (drop_bit (bits_left - bits) (ucast a) AND (push_bit bits 1 - 1),
                 (a # b # rest, bits_left - bits))
      | _ \<Rightarrow> Inl EINVAL)"

lemma GET_BITS_measure:
  assumes "GET_BITS n s = Inr (d, s')" and "0 < n"
  shows "length (fst s') < length (fst s) \<or> fst s' = fst s \<and> snd s' < snd s"
    and "8 \<le> n \<Longrightarrow> length (fst s') < length (fst s)"
  using assms by (auto simp: GET_BITS_def Let_def split: prod.splits list.splits if_splits)

text \<open>The nybbles of a long match length, added up in the 16 bits of \<^verbatim>\<open>length\<close>.\<close>

function length_loop :: "bit_src \<Rightarrow> u16 \<Rightarrow> lzs_err + (u16 \<times> bit_src)" where
  "length_loop s len =
     (case GET_BITS 4 s of
        Inl e \<Rightarrow> Inl e
      | Inr (data, s') \<Rightarrow>
          if data \<noteq> 15 then Inr (len + ucast data, s') else length_loop s' (len + 15))"
  by pat_completeness auto
termination
  by (relation "measures [\<lambda>(s, len). length (fst s), \<lambda>(s, len). snd s]")
    (use GET_BITS_measure(1) in fastforce)+

declare length_loop.simps [simp del]

definition get_offset :: "u32 \<Rightarrow> bit_src \<Rightarrow> lzs_err + (u16 \<times> bit_src)" where
  "get_offset data s =
     (let offset = ucast (data AND 0x7f) in
      if data < 0x180
      then (case GET_BITS 4 s of
              Inl e \<Rightarrow> Inl e
            | Inr (data, s) \<Rightarrow> Inr (push_bit 4 offset OR ucast data, s))
      else Inr (offset, s))"

definition get_length :: "bit_src \<Rightarrow> lzs_err + (u16 \<times> bit_src)" where
  "get_length s =
     (case GET_BITS 2 s of
        Inl e \<Rightarrow> Inl e
      | Inr (data, s) \<Rightarrow>
          if data \<noteq> 3 then Inr (ucast data + 2, s)
          else
            (case GET_BITS 2 s of
               Inl e \<Rightarrow> Inl e
             | Inr (data, s) \<Rightarrow>
                 if data \<noteq> 3 then Inr (ucast data + 5, s) else length_loop s 8))"

fun copy_loop :: "nat \<Rightarrow> nat \<Rightarrow> nat \<Rightarrow> bytes \<Rightarrow> lzs_err + bytes" where
  "copy_loop 0 offset outlen dst = Inr dst"
| "copy_loop (Suc len) offset outlen dst =
     (case buf_get dst (outlen - offset) of
        Inl e \<Rightarrow> Inl e
      | Inr b \<Rightarrow>
          (case buf_put dst outlen b of
             Inl e \<Rightarrow> Inl e
           | Inr dst \<Rightarrow> copy_loop len offset (outlen + 1) dst))"

lemma length_loop_measure:
  "length_loop s len = Inr (l, s') \<Longrightarrow> length (fst s') \<le> length (fst s)"
proof (induction s len rule: length_loop.induct)
  case (1 s len)
  obtain d s1 where g: "GET_BITS 4 s = Inr (d, s1)"
    using 1(2) by (subst (asm) length_loop.simps) (auto split: sum.splits)
  have le: "length (fst s1) \<le> length (fst s)" using GET_BITS_measure(1) [OF g] by auto
  show ?case
  proof (cases "d = 15")
    case True
    then have "length_loop s1 (len + 15) = Inr (l, s')"
      using 1(2) g by (subst (asm) length_loop.simps) simp
    from 1(1) [OF g refl _ this] True le show ?thesis by simp
  next
    case False
    then show ?thesis using 1(2) g le by (subst (asm) length_loop.simps) simp
  qed
qed

lemma get_offset_measure: "get_offset d s = Inr (off, s') \<Longrightarrow> length (fst s') \<le> length (fst s)"
  by (auto simp: get_offset_def Let_def split: if_splits sum.splits dest!: GET_BITS_measure(1))

lemma get_length_measure: "get_length s = Inr (l, s') \<Longrightarrow> length (fst s') \<le> length (fst s)"
  by (fastforce simp: get_length_def split: if_splits sum.splits dest: GET_BITS_measure(1) length_loop_measure)

text \<open>The main loop; the inner loop over literal bytes and the outer one both go on with the next
  nine bits. The result is the buffer and the number of bytes written.\<close>

function decompress_loop :: "bit_src \<Rightarrow> nat \<Rightarrow> bytes \<Rightarrow> lzs_err + (nat \<times> bytes)" where
  "decompress_loop s outlen dst =
     (case GET_BITS 9 s of
        Inl e \<Rightarrow> Inl e
      | Inr (data, s1) \<Rightarrow>
          if data < 0x100 then
            (if outlen = length dst then Inl EFBIG
             else
               (case buf_put dst outlen (ucast data) of
                  Inl e \<Rightarrow> Inl e
                | Inr dst1 \<Rightarrow> decompress_loop s1 (outlen + 1) dst1))
          else if data = 0x180 then Inr (outlen, dst)
          else
            (case get_offset data s1 of
               Inl e \<Rightarrow> Inl e
             | Inr (offset, s2) \<Rightarrow>
                 (case get_length s2 of
                    Inl e \<Rightarrow> Inl e
                  | Inr (len, s3) \<Rightarrow>
                      if unat offset > outlen then Inl EINVAL
                      else if unat len + outlen > length dst then Inl EFBIG
                      else
                        (case copy_loop (unat len) (unat offset) outlen dst of
                           Inl e \<Rightarrow> Inl e
                         | Inr dst1 \<Rightarrow> decompress_loop s3 (outlen + unat len) dst1))))"
  by pat_completeness auto
termination
proof (relation "measure (\<lambda>(s, outlen, dst). length (fst s))")
  show "wf (measure (\<lambda>(s, outlen, dst). length (fst s)))" by (rule wf_measure)
next
  fix s outlen dst x data s1 dst1
  assume "GET_BITS 9 s = Inr x" and "(data, s1) = x"
  then show "((s1, outlen + 1, dst1), s, outlen, dst :: bytes) \<in> measure (\<lambda>(s, outlen, dst). length (fst s))"
    using GET_BITS_measure(2) [of 9 s data s1] by simp
next
  fix s outlen dst x data s1 y offset s2 z len s3 dst1
  assume "GET_BITS 9 s = Inr x" "(data, s1) = x" "get_offset data s1 = Inr y" "(offset, s2) = y"
    "get_length s2 = Inr z" "(len, s3) = z"
  then show "((s3, outlen + unat len, dst1), s, outlen, dst :: bytes) \<in> measure (\<lambda>(s, outlen, dst). length (fst s))"
    using GET_BITS_measure(2) [of 9 s data s1] get_offset_measure [of data s1 offset s2]
      get_length_measure [of s2 len s3] by simp
qed

declare decompress_loop.simps [simp del]

definition lzs_decompress :: "bytes \<Rightarrow> bytes \<Rightarrow> lzs_err + (nat \<times> bytes)" where
  "lzs_decompress dst src = decompress_loop (src, 8) 0 dst"

section \<open>The compressor\<close>

abbreviation (input) INVALID_OFS :: nat where "INVALID_OFS \<equiv> 65535"
abbreviation (input) MAX_HISTORY :: nat where "MAX_HISTORY \<equiv> 2048"

text \<open>The pending bits and what was written to \<^verbatim>\<open>dst\<close> (\<^verbatim>\<open>outpos\<close> is its length).\<close>

record lzs_out =
  outbits :: u32
  nr_outbits :: nat
  dst_out :: bytes

definition emit_byte :: "nat \<Rightarrow> lzs_out \<Rightarrow> lzs_err + lzs_out" where
  "emit_byte dstlen o' =
     (let nr = nr_outbits o' - 8 in
      if length (dst_out o') = dstlen then Inl EFBIG
      else Inr (o'\<lparr>nr_outbits := nr, dst_out := dst_out o' @ [ucast (drop_bit nr (outbits o'))]\<rparr>))"

definition PUT_BITS :: "nat \<Rightarrow> nat \<Rightarrow> u32 \<Rightarrow> lzs_out \<Rightarrow> lzs_err + lzs_out" where
  "PUT_BITS dstlen nr bits o' =
     (let o1 = o'\<lparr>outbits := push_bit nr (outbits o') OR bits, nr_outbits := nr_outbits o' + nr\<rparr> in
      case (if nr > 8 then emit_byte dstlen o1 else Inr o1) of
        Inl e \<Rightarrow> Inl e
      | Inr o2 \<Rightarrow> if nr_outbits o2 \<ge> 8 then emit_byte dstlen o2 else Inr o2)"

text \<open>The 16-bit value at a position of the input (little endian, as on the supported hosts).\<close>

definition HASH :: "bytes \<Rightarrow> nat \<Rightarrow> lzs_err + nat" where
  "HASH src p =
     (case buf_get src p of
        Inl e \<Rightarrow> Inl e
      | Inr a \<Rightarrow> (case buf_get src (p + 1) of Inl e \<Rightarrow> Inl e | Inr b \<Rightarrow> Inr (unat a + 256 * unat b)))"

record lzs_hist =
  hash_table :: "nat \<Rightarrow> nat"
  hash_chain :: "nat \<Rightarrow> nat"

text \<open>Entering a position into both structures; the result is the previous head of its chain.\<close>

definition hist_add :: "bytes \<Rightarrow> nat \<Rightarrow> lzs_hist \<Rightarrow> lzs_err + (nat \<times> lzs_hist)" where
  "hist_add src inpos h =
     (case HASH src inpos of
        Inl e \<Rightarrow> Inl e
      | Inr hash \<Rightarrow>
          (let hofs = hash_table h hash in
           Inr (hofs, h\<lparr>hash_chain := (hash_chain h)(inpos mod MAX_HISTORY := hofs),
                        hash_table := (hash_table h)(hash := inpos mod 65536)\<rparr>)))"

text \<open>\<^verbatim>\<open>memcmp (src + p, src + q, n) == 0\<close>, with the reads checked.\<close>

definition src_eq :: "bytes \<Rightarrow> nat \<Rightarrow> nat \<Rightarrow> nat \<Rightarrow> lzs_err + bool" where
  "src_eq src p q n =
     (if p + n \<le> length src \<and> q + n \<le> length src then Inr (bslice p n src = bslice q n src)
      else Inl OOB)"

text \<open>The loop that extends a match; the flag says that the end of the input was reached. A wrap-around
  of the 16-bit length, after which the loop could go on forever, is the error \<open>FUEL\<close>.\<close>

function extend_match :: "bytes \<Rightarrow> nat \<Rightarrow> nat \<Rightarrow> nat \<Rightarrow> lzs_err + (nat \<times> bool)" where
  "extend_match src inpos hofs len =
     (let len' = (len + 1) mod 65536 in
      if len' + inpos = length src then Inr (len', True)
      else if len' \<le> len then Inl FUEL
      else
        (case buf_get src (len' + inpos) of
           Inl e \<Rightarrow> Inl e
         | Inr a \<Rightarrow>
             (case buf_get src (len' + hofs) of
                Inl e \<Rightarrow> Inl e
              | Inr b \<Rightarrow> if a = b then extend_match src inpos hofs len' else Inr (len', False))))"
  by pat_completeness auto
termination
  by (relation "measure (\<lambda>(src, inpos, hofs, len). length src - len)")
    (auto simp: buf_get_def Let_def split: if_splits)

declare extend_match.simps [simp del]

text \<open>The walk through the chain; the result is the length and the position of the match.\<close>

fun find_match :: "nat \<Rightarrow> bytes \<Rightarrow> (nat \<Rightarrow> nat) \<Rightarrow> nat \<Rightarrow> nat \<Rightarrow> nat \<Rightarrow> nat \<Rightarrow> lzs_err + (nat \<times> nat)" where
  "find_match fuel src chain inpos len ofs hofs =
     (if hofs \<noteq> INVALID_OFS \<and> hofs + MAX_HISTORY > inpos then
        (case fuel of
           0 \<Rightarrow> Inl FUEL
         | Suc fuel \<Rightarrow>
             (case src_eq src (hofs + 2) (inpos + 2) (len - 1) of
                Inl e \<Rightarrow> Inl e
              | Inr True \<Rightarrow>
                  (case extend_match src inpos hofs len of
                     Inl e \<Rightarrow> Inl e
                   | Inr (len, True) \<Rightarrow> Inr (len, hofs)
                   | Inr (len, False) \<Rightarrow>
                       find_match fuel src chain inpos len hofs (chain (hofs mod MAX_HISTORY)))
              | Inr False \<Rightarrow>
                  find_match fuel src chain inpos len ofs (chain (hofs mod MAX_HISTORY))))
      else Inr (len, ofs))"

declare find_match.simps [simp del]

definition put_offset :: "nat \<Rightarrow> nat \<Rightarrow> lzs_out \<Rightarrow> lzs_err + lzs_out" where
  "put_offset dstlen offset o' =
     (if offset < 0x80 then PUT_BITS dstlen 9 (0x180 OR of_nat offset) o'
      else PUT_BITS dstlen 13 (0x1000 OR of_nat offset) o')"

function put_ff :: "nat \<Rightarrow> nat \<Rightarrow> lzs_out \<Rightarrow> lzs_err + (nat \<times> lzs_out)" where
  "put_ff dstlen len o' =
     (if len \<ge> 30 then
        (case PUT_BITS dstlen 8 0xff o' of Inl e \<Rightarrow> Inl e | Inr o1 \<Rightarrow> put_ff dstlen (len - 30) o1)
      else Inr (len, o'))"
  by pat_completeness auto
termination
  by (relation "measure (\<lambda>(dstlen, len, o'). len)") auto

declare put_ff.simps [simp del]

definition put_length :: "nat \<Rightarrow> nat \<Rightarrow> lzs_out \<Rightarrow> lzs_err + lzs_out" where
  "put_length dstlen len o' =
     (if len < 5 then PUT_BITS dstlen 2 (of_nat (len - 2)) o'
      else if len < 8 then PUT_BITS dstlen 4 (of_nat (len + 7)) o'
      else
        (case put_ff dstlen (len + 7) o' of
           Inl e \<Rightarrow> Inl e
         | Inr (len, o1) \<Rightarrow>
             if len \<ge> 15 then PUT_BITS dstlen 8 (of_nat (0xf0 + len - 15)) o1
             else PUT_BITS dstlen 4 (of_nat len) o1))"

text \<open>The rest of a match is entered into the history: \<open>n\<close> further positions.\<close>

fun hist_rest :: "bytes \<Rightarrow> nat \<Rightarrow> nat \<Rightarrow> lzs_hist \<Rightarrow> lzs_err + lzs_hist" where
  "hist_rest src 0 inpos h = Inr h"
| "hist_rest src (Suc n) inpos h =
     (case hist_add src inpos h of
        Inl e \<Rightarrow> Inl e
      | Inr (_, h) \<Rightarrow> hist_rest src n (inpos + 1) h)"

function compress_loop ::
    "nat \<Rightarrow> bytes \<Rightarrow> nat \<Rightarrow> lzs_hist \<Rightarrow> lzs_out \<Rightarrow> lzs_err + (nat \<times> lzs_hist \<times> lzs_out)" where
  "compress_loop dstlen src inpos h o' =
     (if inpos + 2 < length src then
        (case hist_add src inpos h of
           Inl e \<Rightarrow> Inl e
         | Inr (hofs, h1) \<Rightarrow>
             if hofs = INVALID_OFS \<or> hofs + MAX_HISTORY \<le> inpos then
               (case PUT_BITS dstlen 9 (ucast (src ! inpos)) o' of
                  Inl e \<Rightarrow> Inl e
                | Inr o1 \<Rightarrow> compress_loop dstlen src (inpos + 1) h1 o1)
             else
               (case find_match (Suc hofs) src (hash_chain h1) inpos 2 hofs hofs of
                  Inl e \<Rightarrow> Inl e
                | Inr (len, ofs) \<Rightarrow>
                    (case put_offset dstlen (inpos - ofs) o' of
                       Inl e \<Rightarrow> Inl e
                     | Inr o1 \<Rightarrow>
                         (case put_length dstlen len o1 of
                            Inl e \<Rightarrow> Inl e
                          | Inr o2 \<Rightarrow>
                              if inpos + len + 2 \<ge> length src then Inr (inpos + len, h1, o2)
                              else
                                (case hist_rest src (len - 1) (inpos + 1) h1 of
                                   Inl e \<Rightarrow> Inl e
                                 | Inr h2 \<Rightarrow>
                                     compress_loop dstlen src (inpos + 1 + (len - 1)) h2 o2)))))
      else Inr (inpos, h, o'))"
  by pat_completeness auto
termination
  by (relation "measure (\<lambda>(dstlen, src, inpos, h, o'). length src - inpos)") auto

declare compress_loop.simps [simp del]

text \<open>The special cases at the end of the input.\<close>

definition compress_end :: "nat \<Rightarrow> bytes \<Rightarrow> nat \<Rightarrow> lzs_hist \<Rightarrow> lzs_out \<Rightarrow> lzs_err + lzs_out" where
  "compress_end dstlen src inpos h o' =
     (if inpos + 2 = length src then
        (case HASH src inpos of
           Inl e \<Rightarrow> Inl e
         | Inr hash \<Rightarrow>
             (let hofs = hash_table h hash in
              if hofs \<noteq> INVALID_OFS \<and> hofs + MAX_HISTORY > inpos then
                (case put_offset dstlen (inpos - hofs) o' of
                   Inl e \<Rightarrow> Inl e
                 | Inr o1 \<Rightarrow> PUT_BITS dstlen 2 0 o1)
              else
                (case PUT_BITS dstlen 9 (ucast (src ! inpos)) o' of
                   Inl e \<Rightarrow> Inl e
                 | Inr o1 \<Rightarrow> PUT_BITS dstlen 9 (ucast (src ! (inpos + 1))) o1)))
      else if inpos + 1 = length src then PUT_BITS dstlen 9 (ucast (src ! inpos)) o'
      else Inr o')"

text \<open>\<open>chain0\<close> is the uninitialised contents of \<^verbatim>\<open>hash_chain\<close>.\<close>

definition lzs_compress :: "(nat \<Rightarrow> nat) \<Rightarrow> nat \<Rightarrow> bytes \<Rightarrow> lzs_err + bytes" where
  "lzs_compress chain0 dstlen src =
     (if length src > INVALID_OFS + 1 then Inl EFBIG
      else
        (case compress_loop dstlen src 0 \<lparr>hash_table = (\<lambda>_. 0xffff), hash_chain = chain0\<rparr>
                \<lparr>outbits = 0, nr_outbits = 0, dst_out = []\<rparr> of
           Inl e \<Rightarrow> Inl e
         | Inr (inpos, h, o1) \<Rightarrow>
             (case compress_end dstlen src inpos h o1 of
                Inl e \<Rightarrow> Inl e
              | Inr o2 \<Rightarrow>
                  (case PUT_BITS dstlen 16 0xc000 o2 of
                     Inl e \<Rightarrow> Inl e
                   | Inr o3 \<Rightarrow> Inr (dst_out o3)))))"

end
