(* ===== verification/LzsCodec.thy ===== *)
theory LzsCodec
  imports Lzs
begin

text \<open>
  The bit stream between the two halves of \<^verbatim>\<open>src/src/lzs.c\<close>: what \<open>PUT_BITS\<close> appends is what \<open>GET_BITS\<close>
  reads. On top of it the tokens of LZS (literal bytes and back references) with their code words:
  the decompressor executes a sequence of code words exactly as the tokens prescribe.
\<close>

section \<open>Bit streams\<close>

text \<open>The \<open>n\<close> low bits of a word, most significant first.\<close>

definition nbits :: "nat \<Rightarrow> 'a::len word \<Rightarrow> bool list" where
  "nbits n v = map (bit v) (rev [0..<n])"

definition stream_of :: "bytes \<Rightarrow> bool list" where
  "stream_of bs = concat (map (nbits 8) bs)"

lemma length_nbits [simp]: "length (nbits n v) = n"
  by (simp add: nbits_def)

lemma nth_nbits: "i < n \<Longrightarrow> nbits n v ! i = bit v (n - 1 - i)"
  by (simp add: nbits_def rev_nth)

lemma length_stream_of [simp]: "length (stream_of bs) = 8 * length bs"
  by (induction bs) (simp_all add: stream_of_def)

lemma stream_of_simps [simp]:
  "stream_of [] = []" "stream_of (b # bs) = nbits 8 b @ stream_of bs"
  "stream_of (xs @ ys) = stream_of xs @ stream_of ys"
  by (simp_all add: stream_of_def)

lemma nbits_0 [simp]: "nbits 0 v = []"
  by (simp add: nbits_def)

lemma nbits_add: "nbits (m + n) v = nbits m (drop_bit n v) @ nbits n v"
  by (rule nth_equalityI)
    (auto simp: nth_append nth_nbits bit_drop_bit_eq intro!: arg_cong [where f = "bit v"])

text \<open>What a reader with \<^verbatim>\<open>bits_left\<close> bits in its first byte has before it.\<close>

definition pending :: "bit_src \<Rightarrow> bool list" where
  "pending s = drop (8 - snd s) (stream_of (fst s))"

definition src_ok :: "bit_src \<Rightarrow> bool" where
  "src_ok s \<longleftrightarrow> 1 \<le> snd s \<and> snd s \<le> 8"

lemma nth_pending2:
  assumes "1 \<le> k" and "k \<le> 8" and "i < k + 8"
  shows "pending (a # b # rest, k) ! i = (if i < k then bit a (k - 1 - i) else bit b (7 + k - i))"
  using assms by (auto simp: pending_def nth_append nth_nbits intro!: arg_cong2 [where f = bit])

lemma word_eq_nbits:
  fixes v w :: u32
  assumes "nbits n w = nbits n v" and "\<And>i. n \<le> i \<Longrightarrow> \<not> bit v i" and "\<And>i. n \<le> i \<Longrightarrow> \<not> bit w i"
  shows "w = v"
proof (rule bit_eqI)
  fix i
  show "bit w i = bit v i"
  proof (cases "i < n")
    case True
    then have "nbits n w ! (n - 1 - i) = nbits n v ! (n - 1 - i)" using assms(1) by simp
    with True show ?thesis by (simp add: nth_nbits)
  qed (use assms in auto)
qed

lemma bit_mask_u32: "bit (2 ^ n - 1 :: u32) i \<longleftrightarrow> i < 32 \<and> i < n"
  using bit_mask_iff [where 'a = "32 word", of n i]
  by (simp add: mask_eq_exp_minus_1 push_bit_of_1)

text \<open>The value that \<open>GET_BITS\<close> computes has the next \<open>n\<close> bits of the stream.\<close>

lemma GET_BITS_value:
  assumes ok: "src_ok s" and n: "n \<in> {2, 4, 9}" and len: "9 \<le> length (pending s)"
  obtains d s' where "GET_BITS n s = Inr (d, s')" and "src_ok s'" and "pending s' = drop n (pending s)"
    and "nbits n d = take n (pending s)" and "\<And>i. n \<le> i \<Longrightarrow> \<not> bit d i"
proof -
  obtain src k where s: "s = (src, k)" by (cases s)
  have k: "1 \<le> k" "k \<le> 8" using ok by (simp_all add: src_ok_def s)
  have "2 \<le> length src" using len k by (simp add: pending_def s)
  then obtain a b rest where src: "src = a # b # rest"
    by (metis One_nat_def Suc_1 Suc_le_length_iff)
  have pick: "nbits n d = take n (pending s)"
    if "\<And>i. i < n \<Longrightarrow> bit d i = (if n - 1 - i < k then bit a (i + k - n) else bit b (k + 8 + i - n))"
    for d :: u32
    using that k n len
    by (intro nth_equalityI) (auto simp: nth_nbits s src nth_pending2 intro!: arg_cong2 [where f = bit])
  show ?thesis
  proof (cases "n \<ge> 8 \<or> n \<ge> k")
    case True
    let ?j = "k + 8 - n"
    let ?d1 = "push_bit (n - k) (ucast a) AND (push_bit n 1 - 1) :: u32"
    let ?d = "if n > 8 \<or> ?j < 8 then ?d1 OR drop_bit ?j (ucast b) else ?d1"
    let ?s = "if n > 8 \<and> ?j = 0 then (rest, 8) else (b # rest, ?j)"
    have kn: "k \<le> n" "n \<le> 9" using True n k by auto
    have "GET_BITS n s = Inr (?d, ?s)"
      using True n by (auto simp: GET_BITS_def s src Let_def)
    moreover have "src_ok ?s" using k kn by (auto simp: src_ok_def)
    moreover have "pending ?s = drop n (pending s)"
      using k kn by (auto simp: pending_def s src)
    moreover have bit: "bit ?d i = (if i < n then if n - 1 - i < k then bit a (i + k - n) else bit b (k + 8 + i - n) else False)"
      for i
      using k kn bit_imp_le_length [of b "k + 8 + i - n"]
      by (auto simp: bit_and_iff bit_or_iff bit_push_bit_iff bit_drop_bit_eq bit_unsigned_iff bit_mask_u32
          intro!: arg_cong2 [where f = bit])
    ultimately show ?thesis
      by (intro that [of ?d ?s] pick) (simp_all only: bit simp_thms if_True if_False not_less [symmetric])
  next
    case False
    let ?d = "drop_bit (k - n) (ucast a) AND (push_bit n 1 - 1) :: u32"
    have "GET_BITS n s = Inr (?d, (src, k - n))"
      using False by (simp add: GET_BITS_def s src)
    moreover have "src_ok (src, k - n)" using False k by (auto simp: src_ok_def)
    moreover have "pending (src, k - n) = drop n (pending s)"
      using False k by (simp add: pending_def s add.commute)
    moreover have "bit ?d i = (if i < n then bit a (i + k - n) else False)" for i
      using False k n
      by (auto simp: add.commute [of i k] bit_and_iff bit_drop_bit_eq bit_unsigned_iff bit_mask_u32 intro!: arg_cong2 [where f = bit])
    ultimately show ?thesis using False
      by (intro that [of ?d "(src, k - n)"] pick) auto
  qed
qed

definition fits :: "nat \<Rightarrow> u32 \<Rightarrow> bool" where
  "fits n v \<longleftrightarrow> (\<forall>i\<ge>n. \<not> bit v i)"

lemma fits_unat: "unat v < 2 ^ n \<Longrightarrow> fits n v"
proof -
  assume less: "unat v < 2 ^ n"
  have "\<not> bit v i" if "n \<le> i" for i
  proof -
    have "unat v < 2 ^ i" using less that by (meson less_le_trans one_le_numeral power_increasing)
    then have "\<not> bit (unat v) i" by (simp add: bit_iff_odd)
    then show ?thesis by (cases "i < 32") (auto simp: bit_unsigned_iff dest: bit_imp_le_length)
  qed
  then show "fits n v" by (simp add: fits_def)
qed

lemma GET_BITS_reads:
  assumes "src_ok s" and "n \<in> {2, 4, 9}" and "pending s = nbits n v @ rest" and "fits n v"
    and "9 \<le> n + length rest"
  shows "\<exists>s'. GET_BITS n s = Inr (v, s') \<and> src_ok s' \<and> pending s' = rest"
proof -
  have "9 \<le> length (pending s)" using assms by simp
  then obtain d s' where "GET_BITS n s = Inr (d, s')" "src_ok s'" "pending s' = drop n (pending s)"
    "nbits n d = take n (pending s)" "\<And>i. n \<le> i \<Longrightarrow> \<not> bit d i"
    using GET_BITS_value assms by metis
  moreover from this have "d = v"
    using assms by (intro word_eq_nbits [of n]) (auto simp: fits_def)
  ultimately show ?thesis using assms by auto
qed

section \<open>The writer\<close>

definition out_stream :: "lzs_out \<Rightarrow> bool list" where
  "out_stream o' = stream_of (dst_out o') @ nbits (nr_outbits o') (outbits o')"

definition out_ok :: "nat \<Rightarrow> lzs_out \<Rightarrow> bool" where
  "out_ok dstlen o' \<longleftrightarrow> nr_outbits o' < 8 \<and> length (dst_out o') \<le> dstlen"

lemma nbits_ucast: "n \<le> 8 \<Longrightarrow> nbits n (ucast (w :: u32) :: u8) = nbits n w"
  by (rule nth_equalityI) (auto simp: nth_nbits bit_unsigned_iff)

lemma emit_byte_stream:
  assumes "8 \<le> nr_outbits o'" and "length (dst_out o') \<noteq> dstlen"
  shows "\<exists>o1. emit_byte dstlen o' = Inr o1 \<and> out_stream o1 = out_stream o' \<and>
    nr_outbits o1 = nr_outbits o' - 8 \<and> length (dst_out o1) = length (dst_out o') + 1"
proof -
  have "nbits (nr_outbits o') (outbits o') =
      nbits 8 (drop_bit (nr_outbits o' - 8) (outbits o')) @ nbits (nr_outbits o' - 8) (outbits o')"
    using nbits_add [of 8 "nr_outbits o' - 8" "outbits o'"] assms(1) by simp
  then show ?thesis
    using assms by (simp add: emit_byte_def Let_def out_stream_def nbits_ucast)
qed

lemma emit_byte_full: "length (dst_out o') = dstlen \<Longrightarrow> emit_byte dstlen o' = Inl EFBIG"
  by (simp add: emit_byte_def)

lemma nbits_shift_in:
  fixes x v :: u32
  assumes "m + n \<le> 32" and "fits n v"
  shows "nbits (m + n) (push_bit n x OR v) = nbits m x @ nbits n v"
  unfolding nbits_add using assms
  by (intro arg_cong2 [where f = append] nth_equalityI)
    (auto simp: nth_nbits bit_drop_bit_eq bit_or_iff bit_push_bit_iff fits_def)

text \<open>\<open>PUT_BITS\<close> appends its bits, and fails exactly when the complete bytes would not fit.\<close>

lemma PUT_BITS_spec:
  assumes ok: "out_ok dstlen o'" and nr: "nr \<le> 16" and v: "fits nr v"
  shows "if length (out_stream o') + nr < 8 * dstlen + 8
    then \<exists>o1. PUT_BITS dstlen nr v o' = Inr o1 \<and> out_ok dstlen o1 \<and>
      out_stream o1 = out_stream o' @ nbits nr v
    else PUT_BITS dstlen nr v o' = Inl EFBIG"
proof -
  define o1 where "o1 = o'\<lparr>outbits := push_bit nr (outbits o') OR v, nr_outbits := nr_outbits o' + nr\<rparr>"
  have o1: "out_stream o1 = out_stream o' @ nbits nr v" "nr_outbits o1 = nr_outbits o' + nr"
    "length (dst_out o1) = length (dst_out o')"
    using ok nr v by (simp_all add: o1_def out_stream_def nbits_shift_in out_ok_def)
  have len: "length (out_stream o') = 8 * length (dst_out o') + nr_outbits o'"
    by (simp add: out_stream_def)
  define r where "r = (if nr > 8 then emit_byte dstlen o1 else Inr o1)"
  have put: "PUT_BITS dstlen nr v o' =
      (case r of Inl e \<Rightarrow> Inl e | Inr o2 \<Rightarrow> if nr_outbits o2 \<ge> 8 then emit_byte dstlen o2 else Inr o2)"
    by (simp add: PUT_BITS_def o1_def r_def)
  show ?thesis
  proof (cases "nr > 8")
    case True
    show ?thesis
    proof (cases "length (dst_out o1) = dstlen")
      case full: True
      then have "r = Inl EFBIG" using True by (simp add: r_def emit_byte_full)
      then show ?thesis using full True len o1 put by simp
    next
      case False
      obtain o2 where o2: "emit_byte dstlen o1 = Inr o2" "out_stream o2 = out_stream o1"
        "nr_outbits o2 = nr_outbits o1 - 8" "length (dst_out o2) = length (dst_out o1) + 1"
        using emit_byte_stream [of o1 dstlen] True False o1 by auto
      then have r: "r = Inr o2" using True by (simp add: r_def)
      show ?thesis
      proof (cases "nr_outbits o2 \<ge> 8 \<and> length (dst_out o2) \<noteq> dstlen")
        case again: True
        then obtain o3 where "emit_byte dstlen o2 = Inr o3" "out_stream o3 = out_stream o2"
          "nr_outbits o3 = nr_outbits o2 - 8" "length (dst_out o3) = length (dst_out o2) + 1"
          using emit_byte_stream [of o2 dstlen] by blast
        with r put again False o1 o2 ok nr len show ?thesis by (auto simp: out_ok_def)
      next
        case last: False
        with r put False o1 o2 ok nr len show ?thesis by (auto simp: out_ok_def emit_byte_full)
      qed
    qed
  next
    case False
    then have r: "r = Inr o1" by (simp add: r_def)
    show ?thesis
    proof (cases "nr_outbits o1 \<ge> 8 \<and> length (dst_out o1) \<noteq> dstlen")
      case True
      then obtain o2 where "emit_byte dstlen o1 = Inr o2" "out_stream o2 = out_stream o1"
        "nr_outbits o2 = nr_outbits o1 - 8" "length (dst_out o2) = length (dst_out o1) + 1"
        using emit_byte_stream [of o1 dstlen] by blast
      with r put True o1 ok False len show ?thesis by (auto simp: out_ok_def)
    next
      case last: False
      with r put o1 ok False len show ?thesis by (auto simp: out_ok_def emit_byte_full)
    qed
  qed
qed

section \<open>Tokens and their code words\<close>

datatype token = Lit u8 | Ref nat nat \<comment> \<open>offset and length\<close>

text \<open>The length of a long match in nybbles: each full nybble stands for 15.\<close>

fun enc_nyb :: "nat \<Rightarrow> bool list" where
  "enc_nyb n = (if n \<ge> 15 then nbits 4 (15 :: u32) @ enc_nyb (n - 15) else nbits 4 (of_nat n :: u32))"

declare enc_nyb.simps [simp del]

definition enc_len :: "nat \<Rightarrow> bool list" where
  "enc_len len =
     (if len < 5 then nbits 2 (of_nat (len - 2) :: u32)
      else if len < 8 then nbits 4 (of_nat (len + 7) :: u32)
      else enc_nyb (len + 7))"

definition enc_off :: "nat \<Rightarrow> bool list" where
  "enc_off off =
     (if off < 0x80 then nbits 9 (of_nat (0x180 + off) :: u32) else nbits 13 (of_nat (0x1000 + off) :: u32))"

definition enc_tok :: "token \<Rightarrow> bool list" where
  "enc_tok t = (case t of Lit b \<Rightarrow> nbits 9 (ucast b :: u32) | Ref off len \<Rightarrow> enc_off off @ enc_len len)"

text \<open>The meaning of tokens: a reference repeats the output from \<open>off\<close> bytes back, byte by byte, so
  that it may overlap the bytes it produces.\<close>

fun ref_copy :: "nat \<Rightarrow> nat \<Rightarrow> bytes \<Rightarrow> bytes" where
  "ref_copy 0 off out = out"
| "ref_copy (Suc n) off out = ref_copy n off (out @ [out ! (length out - off)])"

definition apply_tok :: "bytes \<Rightarrow> token \<Rightarrow> bytes" where
  "apply_tok out t = (case t of Lit b \<Rightarrow> out @ [b] | Ref off len \<Rightarrow> ref_copy len off out)"

definition tok_ok :: "nat \<Rightarrow> token \<Rightarrow> bool" where
  "tok_ok n t = (case t of Lit b \<Rightarrow> True
     | Ref off len \<Rightarrow> 1 \<le> off \<and> off \<le> n \<and> off < MAX_HISTORY \<and> 2 \<le> len \<and> len < 65536)"

fun toks_ok :: "bytes \<Rightarrow> token list \<Rightarrow> bool" where
  "toks_ok out [] = True"
| "toks_ok out (t # ts) = (tok_ok (length out) t \<and> toks_ok (apply_tok out t) ts)"

definition expand :: "bytes \<Rightarrow> token list \<Rightarrow> bytes" where
  "expand out ts = foldl apply_tok out ts"

definition enc_toks :: "token list \<Rightarrow> bool list" where
  "enc_toks ts = concat (map enc_tok ts)"

lemma length_ref_copy [simp]: "length (ref_copy n off out) = length out + n"
  by (induction n arbitrary: out) simp_all

lemma take_ref_copy: "take (length out) (ref_copy n off out) = out"
proof (induction n arbitrary: out)
  case (Suc n)
  have "take (length out) (take (length out + 1) (ref_copy n off (out @ [out ! (length out - off)]))) = out"
    using Suc [of "out @ [out ! (length out - off)]"] by simp
  then show ?case by (simp add: min_def)
qed simp

lemma toks_ok_append: "toks_ok out (ts @ us) \<longleftrightarrow> toks_ok out ts \<and> toks_ok (expand out ts) us"
  by (induction ts arbitrary: out) (simp_all add: expand_def)

lemma length_apply_tok: "length (apply_tok out t) =
    length out + (case t of Lit b \<Rightarrow> 1 | Ref off len \<Rightarrow> len)"
  by (cases t) (simp_all add: apply_tok_def)

lemma length_expand_mono: "length out \<le> length (expand out ts)"
proof (induction ts arbitrary: out)
  case (Cons t ts)
  have "length out \<le> length (apply_tok out t)" by (simp add: length_apply_tok)
  with Cons [of "apply_tok out t"] show ?case by (simp add: expand_def)
qed (simp add: expand_def)

section \<open>Reading one token\<close>

lemma unat_of_nat_u32: "n < 2 ^ 32 \<Longrightarrow> unat (of_nat n :: u32) = n"
  by (simp add: unat_of_nat)

lemma fits_of_nat: "n < 2 ^ k \<Longrightarrow> n < 2 ^ 32 \<Longrightarrow> fits k (of_nat n)"
  by (rule fits_unat) (simp add: unat_of_nat_u32)

lemma drop_bit_of_nat_u32:
  assumes "n < 2 ^ 32"
  shows "drop_bit k (of_nat n :: u32) = of_nat (n div 2 ^ k)"
proof (rule word_unat_eq_iff [THEN iffD2])
  have "unat (drop_bit k (of_nat n :: u32)) = n div 2 ^ k"
    by (subst unat_drop_bit_eq) (simp add: drop_bit_eq_div unat_of_nat_u32 [OF assms])
  moreover have "unat (of_nat (n div 2 ^ k) :: u32) = n div 2 ^ k"
    using assms by (intro unat_of_nat_u32) (rule le_less_trans [OF div_le_dividend])
  ultimately show "unat (drop_bit k (of_nat n :: u32)) = unat (of_nat (n div 2 ^ k) :: u32)" by simp
qed

lemma nbits_mod: "n < 2 ^ 32 \<Longrightarrow> k \<le> 32 \<Longrightarrow> nbits k (of_nat (n mod 2 ^ k) :: u32) = nbits k (of_nat n :: u32)"
proof (rule nth_equalityI)
  fix i
  assume n: "n < 2 ^ 32" and k: "k \<le> 32" and i: "i < length (nbits k (of_nat (n mod 2 ^ k) :: u32))"
  have "of_nat (n mod 2 ^ k) = take_bit k (of_nat n :: u32)"
    by (simp add: take_bit_of_nat [symmetric] take_bit_eq_mod [symmetric])
  with i k show "nbits k (of_nat (n mod 2 ^ k) :: u32) ! i = nbits k (of_nat n :: u32) ! i"
    by (simp add: nth_nbits bit_take_bit_iff)
qed simp

text \<open>A code word of \<open>m + k\<close> bits is one of \<open>m\<close> followed by one of \<open>k\<close> bits.\<close>

lemma nbits_of_nat_split:
  "n < 2 ^ 32 \<Longrightarrow> k \<le> 32 \<Longrightarrow>
     nbits (m + k) (of_nat n :: u32) = nbits m (of_nat (n div 2 ^ k) :: u32) @ nbits k (of_nat (n mod 2 ^ k) :: u32)"
  by (simp only: nbits_add drop_bit_of_nat_u32 nbits_mod)

lemma GET_BITS_of_nat:
  assumes "src_ok s" and "n \<in> {2, 4, 9}" and "pending s = nbits n (of_nat v :: u32) @ rest" and "v < 2 ^ n"
    and "9 \<le> n + length rest"
  shows "\<exists>s'. GET_BITS n s = Inr (of_nat v, s') \<and> src_ok s' \<and> pending s' = rest"
proof -
  have "v < 2 ^ 32" using assms(2,4) by auto
  then show ?thesis using assms by (intro GET_BITS_reads) (auto intro: fits_of_nat)
qed

lemma of_nat_u32_eq_iff: "m < 2 ^ 32 \<Longrightarrow> n < 2 ^ 32 \<Longrightarrow> (of_nat m :: u32) = of_nat n \<longleftrightarrow> m = n"
  by (metis unat_of_nat_u32)

lemma ucast_of_nat_u16: "n < 2 ^ 32 \<Longrightarrow> (ucast (of_nat n :: u32) :: u16) = of_nat n"
  by (simp add: unsigned_of_nat take_bit_nat_eq_self)

lemma length_loop_reads:
  assumes "src_ok s" and "pending s = enc_nyb n @ rest" and "9 \<le> length rest"
  shows "\<exists>s'. length_loop s acc = Inr (acc + of_nat n, s') \<and> src_ok s' \<and> pending s' = rest"
  using assms
proof (induction n arbitrary: s acc rule: enc_nyb.induct)
  case (1 n)
  show ?case
  proof (cases "n \<ge> 15")
    case True
    have "pending s = nbits 4 (of_nat 15 :: u32) @ enc_nyb (n - 15) @ rest"
      using True 1(3) by (subst (asm) enc_nyb.simps) simp
    then obtain s1 where s1: "GET_BITS 4 s = Inr (15, s1)" "src_ok s1" "pending s1 = enc_nyb (n - 15) @ rest"
      using GET_BITS_of_nat [of s 4 15 "enc_nyb (n - 15) @ rest"] 1(2,4) by auto
    obtain s2 where "length_loop s1 (acc + 15) = Inr (acc + 15 + of_nat (n - 15), s2)" "src_ok s2"
      "pending s2 = rest"
      using 1(1) [OF True s1(2,3) 1(4)] by blast
    with s1 True show ?thesis by (subst length_loop.simps) (simp add: of_nat_diff)
  next
    case False
    have "pending s = nbits 4 (of_nat n :: u32) @ rest"
      using False 1(3) by (subst (asm) enc_nyb.simps) simp
    then obtain s1 where s1: "GET_BITS 4 s = Inr (of_nat n, s1)" "src_ok s1" "pending s1 = rest"
      using GET_BITS_of_nat [of s 4 n rest] 1(2,4) False by auto
    moreover have "(of_nat n :: u32) \<noteq> 15"
      using of_nat_u32_eq_iff [of n 15] False by simp
    ultimately show ?thesis
      using False by (subst length_loop.simps) (simp add: ucast_of_nat_u16)
  qed
qed

lemma get_length_short:
  assumes "src_ok s" and "pending s = nbits 2 (of_nat d :: u32) @ rest" and "d < 3" and "9 \<le> length rest"
  shows "\<exists>s'. get_length s = Inr (of_nat (d + 2), s') \<and> src_ok s' \<and> pending s' = rest"
proof -
  obtain s1 where "GET_BITS 2 s = Inr (of_nat d, s1)" "src_ok s1" "pending s1 = rest"
    using GET_BITS_of_nat [of s 2 d rest] assms by auto
  moreover have "(of_nat d :: u32) \<noteq> 3" using of_nat_u32_eq_iff [of d 3] assms by simp
  ultimately show ?thesis using assms(3) by (simp add: get_length_def ucast_of_nat_u16 add.commute)
qed

lemma get_length_skip:
  assumes "src_ok s" and "pending s = nbits 2 (of_nat 3 :: u32) @ nbits 2 (of_nat d :: u32) @ rest" and "d < 4"
    and "9 \<le> length rest"
  shows "\<exists>s'. src_ok s' \<and> pending s' = rest \<and>
    (d < 3 \<longrightarrow> get_length s = Inr (of_nat (d + 5), s')) \<and> (d = 3 \<longrightarrow> get_length s = length_loop s' 8)"
proof -
  obtain s1 where s1: "GET_BITS 2 s = Inr (3, s1)" "src_ok s1" "pending s1 = nbits 2 (of_nat d :: u32) @ rest"
    using GET_BITS_of_nat [of s 2 3 "nbits 2 (of_nat d :: u32) @ rest"] assms by auto
  obtain s2 where s2: "GET_BITS 2 s1 = Inr (of_nat d, s2)" "src_ok s2" "pending s2 = rest"
    using GET_BITS_of_nat [OF s1(2) _ s1(3)] assms by auto
  have "(of_nat d :: u32) = 3 \<longleftrightarrow> d = 3" using of_nat_u32_eq_iff [of d 3] assms by simp
  with s1 s2 show ?thesis
    using assms(3) by (intro exI [of _ s2]) (auto simp: get_length_def ucast_of_nat_u16 add.commute)
qed

lemma get_length_reads:
  assumes ok: "src_ok s" and p: "pending s = enc_len len @ rest" and len: "2 \<le> len" and rest: "9 \<le> length rest"
  shows "\<exists>s'. get_length s = Inr (of_nat len, s') \<and> src_ok s' \<and> pending s' = rest"
proof -
  consider (a) "len < 5" | (b) "5 \<le> len" "len < 8" | (c) "8 \<le> len" by linarith
  then show ?thesis
  proof cases
    case a
    then show ?thesis
      using get_length_short [of s "len - 2" rest] ok p len rest by (simp add: enc_len_def)
  next
    case b
    then have "(len + 7) div 4 = 3" "(len + 7) mod 4 = len - 5" by presburger+
    with b have "pending s = nbits 2 (of_nat 3 :: u32) @ nbits 2 (of_nat (len - 5) :: u32) @ rest"
      using p nbits_of_nat_split [of "len + 7" 2 2] by (simp add: enc_len_def)
    moreover have "len - 5 < 3" "len - 5 < 4" using b by simp_all
    ultimately obtain s1 where "src_ok s1" "pending s1 = rest" "get_length s = Inr (of_nat (len - 5 + 5), s1)"
      using get_length_skip [OF ok, of "len - 5" rest] rest by blast
    with b show ?thesis by (intro exI [of _ s1]) simp
  next
    case c
    have "enc_nyb (len + 7) = nbits 4 (of_nat 15 :: u32) @ enc_nyb (len - 8)"
      using c by (subst enc_nyb.simps) simp
    then have "pending s = nbits 2 (of_nat 3 :: u32) @ nbits 2 (of_nat 3 :: u32) @ enc_nyb (len - 8) @ rest"
      using p c nbits_of_nat_split [of 15 2 2] by (simp add: enc_len_def)
    then obtain s1 where s1: "src_ok s1" "pending s1 = enc_nyb (len - 8) @ rest" "get_length s = length_loop s1 8"
      using get_length_skip [OF ok _ _, of 3] rest by auto
    from length_loop_reads [OF s1(1,2) rest, of 8] s1(3) c show ?thesis
      by (simp add: of_nat_diff)
  qed
qed

lemma and_7f_of_nat: "(of_nat n :: u32) AND 0x7f = of_nat (n mod 128)"
proof -
  have "of_nat (n mod 128) = take_bit 7 (of_nat n :: u32)"
    using take_bit_of_nat [where 'a = "32 word", of 7 n] by (simp add: take_bit_eq_mod)
  then show ?thesis by (simp add: take_bit_eq_mask mask_eq_exp_minus_1)
qed

lemma not_bit_small_nat: "(b :: nat) < 2 ^ k \<Longrightarrow> k \<le> n \<Longrightarrow> \<not> bit b n"
  by (metis bit_iff_odd div_less even_zero less_le_trans one_le_numeral power_increasing)

lemma push_or_of_nat: "b < 16 \<Longrightarrow> push_bit 4 (of_nat a :: u16) OR of_nat b = of_nat (16 * a + b)"
proof -
  assume b: "b < 16"
  have "\<not> bit (push_bit 4 (of_nat a :: u16)) n \<or> \<not> bit (of_nat b :: u16) n" for n
    using b not_bit_small_nat [of b 4 n] by (auto simp: bit_push_bit_iff bit_of_nat_iff)
  then have "push_bit 4 (of_nat a :: u16) OR of_nat b = push_bit 4 (of_nat a) + of_nat b"
    using disjunctive_add [of "push_bit 4 (of_nat a :: u16)" "of_nat b"] by simp
  then show ?thesis by (simp add: push_bit_eq_mult mult.commute)
qed

lemma of_nat_less_u32: "m < 2 ^ 32 \<Longrightarrow> n < 2 ^ 32 \<Longrightarrow> (of_nat m :: u32) < of_nat n \<longleftrightarrow> m < n"
  by (simp add: word_less_nat_alt unat_of_nat_u32)

lemma read_ref:
  assumes ok: "src_ok s" and p: "pending s = enc_off off @ rest" and off: "1 \<le> off" "off < MAX_HISTORY"
    and rest: "9 \<le> length rest"
  shows "\<exists>d s1 s2. GET_BITS 9 s = Inr (d, s1) \<and> \<not> d < 0x100 \<and> d \<noteq> 0x180 \<and>
    get_offset d s1 = Inr (of_nat off, s2) \<and> src_ok s2 \<and> pending s2 = rest"
proof (cases "off < 0x80")
  case True
  let ?n = "0x180 + off"
  obtain s1 where s1: "GET_BITS 9 s = Inr (of_nat ?n, s1)" "src_ok s1" "pending s1 = rest"
    using GET_BITS_of_nat [of s 9 ?n rest] ok p True rest by (auto simp: enc_off_def)
  have d: "\<not> (of_nat ?n :: u32) < 0x100" "(of_nat ?n :: u32) \<noteq> 0x180" "\<not> (of_nat ?n :: u32) < 0x180"
    using of_nat_less_u32 [of ?n 256] of_nat_u32_eq_iff [of ?n 384] of_nat_less_u32 [of ?n 384] True off
    by simp_all
  have "?n mod 128 = off" using True mod_mult_self3 [of 3 128 off] by simp
  then have "get_offset (of_nat ?n) s1 = Inr (of_nat off, s1)"
    using d(3) True and_7f_of_nat [of ?n] ucast_of_nat_u16 [of off] by (simp add: get_offset_def del: of_nat_add)
  with s1 d show ?thesis by blast
next
  case False
  let ?n = "0x100 + off div 16"
  have n: "(0x1000 + off) div 16 = ?n" "(0x1000 + off) mod 16 = off mod 16" "off div 16 < 128" "?n mod 128 = off div 16"
    using off div_mult_self3 [of 16 256 off] mod_mult_self3 [of 256 16 off]
      mod_mult_self3 [of 2 128 "off div 16"] by (simp_all add: less_mult_imp_div_less)
  have "pending s = nbits 9 (of_nat ?n :: u32) @ nbits 4 (of_nat (off mod 16) :: u32) @ rest"
    using p False off nbits_of_nat_split [of "0x1000 + off" 4 9] n by (simp add: enc_off_def del: of_nat_add)
  then obtain s1 where s1: "GET_BITS 9 s = Inr (of_nat ?n, s1)" "src_ok s1"
    "pending s1 = nbits 4 (of_nat (off mod 16) :: u32) @ rest"
    using GET_BITS_of_nat [of s 9 ?n "nbits 4 (of_nat (off mod 16) :: u32) @ rest"] ok n(3) rest by auto
  obtain s2 where s2: "GET_BITS 4 s1 = Inr (of_nat (off mod 16), s2)" "src_ok s2" "pending s2 = rest"
    using GET_BITS_of_nat [OF s1(2) _ s1(3)] rest by auto
  have d: "\<not> (of_nat ?n :: u32) < 0x100" "(of_nat ?n :: u32) \<noteq> 0x180" "(of_nat ?n :: u32) < 0x180"
    using of_nat_less_u32 [of ?n 256] of_nat_u32_eq_iff [of ?n 384] of_nat_less_u32 [of ?n 384] n(3)
    by (simp_all del: of_nat_add)
  have "push_bit 4 (of_nat (off div 16) :: u16) OR of_nat (off mod 16) = of_nat off"
    using push_or_of_nat [of "off mod 16" "off div 16"] by simp
  then have "get_offset (of_nat ?n) s1 = Inr (of_nat off, s2)"
    using d(3) s2(1) and_7f_of_nat [of ?n] n ucast_of_nat_u16 [of "off div 16"] ucast_of_nat_u16 [of "off mod 16"]
    by (simp add: get_offset_def Let_def del: of_nat_add)
  with s1 s2 d show ?thesis by blast
qed

section \<open>The decompressor executes the tokens\<close>

lemma copy_loop_spec:
  assumes "take n dst = out" and "length out = n" and "1 \<le> off" and "off \<le> n" and "n + len \<le> length dst"
  shows "\<exists>dst'. copy_loop len off n dst = Inr dst' \<and> length dst' = length dst \<and>
    take (n + len) dst' = ref_copy len off out"
  using assms
proof (induction len arbitrary: n dst out)
  case (Suc len)
  let ?b = "out ! (n - off)"
  have b: "dst ! (n - off) = ?b" using Suc.prems by (metis diff_less less_le_trans nth_take zero_less_one)
  have "take (n + 1) (dst[n := ?b]) = out @ [?b]"
    using Suc.prems by (simp add: take_Suc_conv_app_nth)
  then obtain dst' where "copy_loop len off (n + 1) (dst[n := ?b]) = Inr dst'" "length dst' = length dst"
    "take (n + 1 + len) dst' = ref_copy len off (out @ [?b])"
    using Suc.IH [of "n + 1" "dst[n := ?b]" "out @ [?b]"] Suc.prems by auto
  with Suc.prems b show ?case by (simp add: buf_get_def buf_put_def)
qed simp

lemma ucast_u32_u8 [simp]: "(ucast (ucast (b :: u8) :: u32) :: u8) = b"
  by (rule bit_word_eqI) (simp add: bit_unsigned_iff)

lemma decompress_tokens:
  assumes "src_ok s" and "pending s = enc_toks ts @ nbits 9 (0x180 :: u32) @ rest"
    and "take n dst = out" and "length out = n" and "toks_ok out ts" and "length (expand out ts) \<le> length dst"
  shows "\<exists>dst'. decompress_loop s n dst = Inr (length (expand out ts), dst') \<and> length dst' = length dst \<and>
    take (length (expand out ts)) dst' = expand out ts"
  using assms
proof (induction ts arbitrary: s n dst out)
  case Nil
  obtain s' where "GET_BITS 9 s = Inr (0x180, s')"
    using GET_BITS_of_nat [of s 9 384 rest] Nil.prems by (auto simp: enc_toks_def)
  with Nil.prems show ?case by (subst decompress_loop.simps) (simp add: expand_def)
next
  case (Cons t ts)
  let ?tail = "enc_toks ts @ nbits 9 (0x180 :: u32) @ rest"
  let ?out = "apply_tok out t"
  have p: "pending s = enc_tok t @ ?tail" using Cons.prems by (simp add: enc_toks_def)
  have fit: "length ?out \<le> length dst"
    using Cons.prems(6) length_expand_mono [of ?out ts] by (simp add: expand_def)
  have step: "\<exists>s1 dst1. decompress_loop s n dst = decompress_loop s1 (length ?out) dst1 \<and> src_ok s1 \<and>
    pending s1 = ?tail \<and> length dst1 = length dst \<and> take (length ?out) dst1 = ?out"
  proof (cases t)
    case (Lit b)
    have "pending s = nbits 9 (of_nat (unat b) :: u32) @ ?tail" using p by (simp add: Lit enc_tok_def)
    then obtain s1 where s1: "GET_BITS 9 s = Inr (of_nat (unat b), s1)" "src_ok s1" "pending s1 = ?tail"
      using GET_BITS_of_nat [of s 9 "unat b" ?tail] Cons.prems unsigned_less [of b, where ?'a = nat]
      by auto
    have lt: "(of_nat (unat b) :: u32) < 0x100"
      using of_nat_less_u32 [of "unat b" 256] unsigned_less [of b, where ?'a = nat] by simp
    have n: "n < length dst" using fit Cons.prems(4) by (simp add: Lit apply_tok_def)
    have "take (Suc n) (dst[n := b]) = out @ [b]"
      using n Cons.prems(3) by (simp add: take_Suc_conv_app_nth)
    with s1 lt n Cons.prems(4) show ?thesis
      by (subst decompress_loop.simps) (intro exI [of _ s1] exI [of _ "dst[n := b]"],
          simp add: Lit apply_tok_def buf_put_def)
  next
    case (Ref off len)
    have r: "1 \<le> off" "off \<le> n" "off < 2048" "2 \<le> len" "len < 65536"
      using Cons.prems(4,5) by (simp_all add: Ref tok_ok_def)
    have "pending s = enc_off off @ enc_len len @ ?tail" using p by (simp add: Ref enc_tok_def)
    then obtain d s1 s2 where s2: "GET_BITS 9 s = Inr (d, s1)" "\<not> d < 0x100" "d \<noteq> 0x180"
      "get_offset d s1 = Inr (of_nat off, s2)" "src_ok s2" "pending s2 = enc_len len @ ?tail"
      using read_ref [of s off "enc_len len @ ?tail"] r Cons.prems(1) by auto
    obtain s3 where s3: "get_length s2 = Inr (of_nat len, s3)" "src_ok s3" "pending s3 = ?tail"
      using get_length_reads [OF s2(5,6) r(4)] by auto
    have u: "unat (of_nat off :: u16) = off" "unat (of_nat len :: u16) = len"
      using r by (simp_all add: unat_of_nat)
    have fit': "n + len \<le> length dst" using fit Cons.prems(4) by (simp add: Ref apply_tok_def)
    then obtain dst1 where "copy_loop len off n dst = Inr dst1" "length dst1 = length dst"
      "take (n + len) dst1 = ref_copy len off out"
      using copy_loop_spec [OF Cons.prems(3,4) r(1,2)] by blast
    with s2 s3 u r fit' Cons.prems(4) show ?thesis
      by (subst decompress_loop.simps) (intro exI [of _ s3] exI [of _ dst1], simp add: Ref apply_tok_def)
  qed
  then obtain s1 dst1 where s1: "decompress_loop s n dst = decompress_loop s1 (length ?out) dst1" "src_ok s1"
    "pending s1 = ?tail" "length dst1 = length dst" "take (length ?out) dst1 = ?out" by blast
  show ?case
    using Cons.IH [OF s1(2,3,5)] Cons.prems(5,6) s1(1,4) by (simp add: expand_def)
qed

end
