(* ===== verification/LzsCorrect.thy ===== *)
theory LzsCorrect
  imports LzsCodec
begin

text \<open>
  Correctness of \<^verbatim>\<open>src/src/lzs.c\<close>: the compressor writes the code words of a sequence of tokens that
  expands to its input, so that the decompressor gives the input back. Along the way: the history
  arrays only hold positions with the same first two bytes, the walk through the hash chain ends,
  no read leaves the input, and the output grows by at most one bit per byte and the end marker.
\<close>

section \<open>Writing one token\<close>

text \<open>\<open>r\<close> is the outcome of appending the bits \<open>w\<close> to the output \<open>o'\<close>.\<close>

definition appends :: "nat \<Rightarrow> lzs_err + lzs_out \<Rightarrow> lzs_out \<Rightarrow> bool list \<Rightarrow> bool" where
  "appends dstlen r o' w \<longleftrightarrow>
     (if length (out_stream o') + length w < 8 * dstlen + 8
      then \<exists>o1. r = Inr o1 \<and> out_ok dstlen o1 \<and> out_stream o1 = out_stream o' @ w
      else r = Inl EFBIG)"

lemma appends_PUT_BITS:
  "out_ok dstlen o' \<Longrightarrow> nr \<le> 16 \<Longrightarrow> n < 2 ^ nr \<Longrightarrow>
     appends dstlen (PUT_BITS dstlen nr (of_nat n) o') o' (nbits nr (of_nat n :: u32))"
proof -
  assume ok: "out_ok dstlen o'" and nr: "nr \<le> 16" and n: "n < 2 ^ nr"
  have "(2 :: nat) ^ nr \<le> 2 ^ 16" using nr by (intro power_increasing) auto
  with n have "fits nr (of_nat n)" by (intro fits_of_nat) auto
  from PUT_BITS_spec [OF ok nr this] show ?thesis by (simp add: appends_def)
qed

lemma appends_bind:
  assumes "appends dstlen r o' w1"
    and "\<And>o1. r = Inr o1 \<Longrightarrow> out_ok dstlen o1 \<Longrightarrow> out_stream o1 = out_stream o' @ w1 \<Longrightarrow>
      appends dstlen (f o1) o1 w2"
  shows "appends dstlen (case r of Inl e \<Rightarrow> Inl e | Inr o1 \<Rightarrow> f o1) o' (w1 @ w2)"
proof (cases "length (out_stream o') + length w1 < 8 * dstlen + 8")
  case True
  then obtain o1 where o1: "r = Inr o1" "out_ok dstlen o1" "out_stream o1 = out_stream o' @ w1"
    using assms(1) by (auto simp: appends_def)
  with assms(2) [of o1] show ?thesis by (auto simp: appends_def add.assoc split: if_splits)
next
  case False
  with assms(1) show ?thesis by (simp add: appends_def)
qed

lemma or_of_nat_add:
  "(\<And>n. \<not> bit a n \<or> \<not> bit b n) \<Longrightarrow> (of_nat a OR of_nat b :: u32) = of_nat (a + b)"
  using disjunctive_add [of "of_nat a :: u32" "of_nat b"] by (simp add: bit_of_nat_iff)

lemma or_0x180: "off < 0x80 \<Longrightarrow> (0x180 OR of_nat off :: u32) = of_nat (0x180 + off)"
proof -
  assume "off < 0x80"
  then have "\<not> bit (384 :: nat) n \<or> \<not> bit off n" for n
    using not_bit_small_nat [of off 7 n] bit_push_bit_iff [where 'a = nat, of 7 3 n]
    by (auto simp: push_bit_eq_mult)
  from or_of_nat_add [OF this] show ?thesis by simp
qed

lemma or_0x1000: "off < 0x800 \<Longrightarrow> (0x1000 OR of_nat off :: u32) = of_nat (0x1000 + off)"
proof -
  assume "off < 0x800"
  then have "\<not> bit (4096 :: nat) n \<or> \<not> bit off n" for n
    using not_bit_small_nat [of off 11 n] bit_push_bit_iff [where 'a = nat, of 12 1 n]
    by (auto simp: push_bit_eq_mult)
  from or_of_nat_add [OF this] show ?thesis by simp
qed

lemma appends_put_offset:
  assumes "out_ok dstlen o'" and "off < MAX_HISTORY"
  shows "appends dstlen (put_offset dstlen off o') o' (enc_off off)"
proof (cases "off < 0x80")
  case True
  then show ?thesis
    using appends_PUT_BITS [OF assms(1), of 9 "384 + off"]
    by (simp add: put_offset_def enc_off_def or_0x180 del: of_nat_add)
next
  case False
  then show ?thesis
    using assms(2) appends_PUT_BITS [OF assms(1), of 13 "4096 + off"]
    by (simp add: put_offset_def enc_off_def or_0x1000 del: of_nat_add)
qed

lemma enc_nyb_15: "n \<ge> 15 \<Longrightarrow> enc_nyb n = nbits 4 (15 :: u32) @ enc_nyb (n - 15)"
  by (subst enc_nyb.simps) simp

lemma enc_nyb_small: "n < 15 \<Longrightarrow> enc_nyb n = nbits 4 (of_nat n :: u32)"
  by (subst enc_nyb.simps) simp

lemma nbits_8_nyb: "n < 15 \<Longrightarrow> nbits 8 (of_nat (240 + n) :: u32) = nbits 4 (15 :: u32) @ nbits 4 (of_nat n :: u32)"
  using nbits_of_nat_split [of "240 + n" 4 4] div_mult_self3 [of 16 15 n] mod_mult_self3 [of 15 16 n]
  by (simp del: of_nat_add)

lemma nbits_ff: "nbits 8 (0xff :: u32) = nbits 4 (15 :: u32) @ nbits 4 (15 :: u32)"
  using nbits_of_nat_split [of 255 4 4] by simp

lemma appends_nyb:
  assumes "out_ok dstlen o'"
  shows "appends dstlen
    (case put_ff dstlen n o' of
       Inl e \<Rightarrow> Inl e
     | Inr (len, o1) \<Rightarrow>
         if len \<ge> 15 then PUT_BITS dstlen 8 (of_nat (0xf0 + len - 15)) o1
         else PUT_BITS dstlen 4 (of_nat len) o1) o' (enc_nyb n)"
  using assms
proof (induction dstlen n o' rule: put_ff.induct)
  case (1 dstlen len o')
  consider "len \<ge> 30" | "15 \<le> len" "len < 30" | "len < 15" by linarith
  then show ?case
  proof cases
    case 1
    then have enc: "enc_nyb len = nbits 8 (of_nat 255 :: u32) @ enc_nyb (len - 30)"
      by (simp add: enc_nyb_15 nbits_ff)
    let ?fin = "\<lambda>r. case r of
       Inl e \<Rightarrow> Inl e
     | Inr (len, o1) \<Rightarrow>
         if len \<ge> 15 then PUT_BITS dstlen 8 (of_nat (0xf0 + len - 15)) o1
         else PUT_BITS dstlen 4 (of_nat len) o1"
    have "?fin (put_ff dstlen len o') =
        (case PUT_BITS dstlen 8 (of_nat 255) o' of Inl e \<Rightarrow> Inl e | Inr o1 \<Rightarrow> ?fin (put_ff dstlen (len - 30) o1))"
      using 1 by (subst put_ff.simps) (simp split: sum.split)
    then show ?thesis
      unfolding enc using "1.IH" [OF 1] "1.prems"
      by (simp only:) (intro appends_bind appends_PUT_BITS, simp_all)
  next
    case 2
    have "enc_nyb len = nbits 8 (of_nat (240 + (len - 15)) :: u32)"
      using 2 by (simp only: enc_nyb_15) (subst nbits_8_nyb, simp, subst enc_nyb_small, simp_all)
    then show ?thesis
      using 2 appends_PUT_BITS [OF "1.prems", of 8 "240 + (len - 15)"]
      by (subst put_ff.simps) (simp del: of_nat_add of_nat_diff)
  next
    case 3
    then show ?thesis
      using appends_PUT_BITS [OF "1.prems", of 4 len]
      by (subst put_ff.simps) (simp add: enc_nyb_small)
  qed
qed

lemma appends_put_length:
  assumes "out_ok dstlen o'" and "2 \<le> len"
  shows "appends dstlen (put_length dstlen len o') o' (enc_len len)"
proof -
  consider "len < 5" | "5 \<le> len" "len < 8" | "8 \<le> len" by linarith
  then show ?thesis
  proof cases
    case 1
    then show ?thesis using appends_PUT_BITS [OF assms(1), of 2 "len - 2"]
      by (simp add: put_length_def enc_len_def)
  next
    case 2
    then show ?thesis using appends_PUT_BITS [OF assms(1), of 4 "len + 7"]
      by (simp add: put_length_def enc_len_def del: of_nat_add)
  next
    case 3
    then show ?thesis using appends_nyb [OF assms(1), of "len + 7"]
      by (simp add: put_length_def enc_len_def)
  qed
qed

section \<open>The history\<close>

definition hash_at :: "bytes \<Rightarrow> nat \<Rightarrow> nat" where
  "hash_at src p = unat (src ! p) + 256 * unat (src ! (p + 1))"

lemma HASH_eq: "p + 1 < length src \<Longrightarrow> HASH src p = Inr (hash_at src p)"
  by (simp add: HASH_def buf_get_def hash_at_def)

lemma hash_at_eqD:
  assumes "hash_at src p = hash_at src q"
  shows "src ! p = src ! q" and "src ! (p + 1) = src ! (q + 1)"
proof -
  have lt: "unat (b :: u8) < 256" for b using unsigned_less [of b, where ?'a = nat] by simp
  have "hash_at src r mod 256 = unat (src ! r)" for r
    using lt [of "src ! r"] by (simp add: hash_at_def)
  then have fst: "unat (src ! p) = unat (src ! q)" using assms by metis
  with assms have "unat (src ! (p + 1)) = unat (src ! (q + 1))" by (simp add: hash_at_def)
  with fst show "src ! p = src ! q" and "src ! (p + 1) = src ! (q + 1)"
    by (simp_all add: word_unat_eq_iff)
qed

text \<open>A link of the history from a position \<open>p\<close>: none, or an earlier position with the same hash.\<close>

definition link_ok :: "bytes \<Rightarrow> nat \<Rightarrow> nat \<Rightarrow> nat \<Rightarrow> bool" where
  "link_ok src x p c \<longleftrightarrow> c = INVALID_OFS \<or> c < p \<and> hash_at src c = x"

definition hist_ok :: "bytes \<Rightarrow> nat \<Rightarrow> lzs_hist \<Rightarrow> bool" where
  "hist_ok src n h \<longleftrightarrow>
     (\<forall>x. link_ok src x n (hash_table h x)) \<and>
     (\<forall>p < n. n \<le> p + MAX_HISTORY \<longrightarrow> link_ok src (hash_at src p) p (hash_chain h (p mod MAX_HISTORY)))"

lemma link_ok_mono: "link_ok src x p c \<Longrightarrow> p \<le> q \<Longrightarrow> link_ok src x q c"
  by (auto simp: link_ok_def)

lemma ring_slots_differ: "p < n \<Longrightarrow> n < p + MAX_HISTORY \<Longrightarrow> p mod MAX_HISTORY \<noteq> n mod (MAX_HISTORY :: nat)"
proof
  assume "p < n" and "n < p + 2048" and "p mod 2048 = n mod 2048"
  then have "2048 dvd n - p" by (metis less_imp_le mod_eq_dvd_iff_nat)
  with \<open>p < n\<close> \<open>n < p + 2048\<close> show False by (auto dest: dvd_imp_le)
qed

lemma hist_add_ok:
  assumes "hist_ok src n h" and "n + 1 < length src" and "length src \<le> 65536"
  shows "\<exists>hofs h1. hist_add src n h = Inr (hofs, h1) \<and> hist_ok src (n + 1) h1 \<and>
    link_ok src (hash_at src n) n hofs"
proof -
  define hofs where "hofs = hash_table h (hash_at src n)"
  define h1 where "h1 = h\<lparr>hash_chain := (hash_chain h)(n mod MAX_HISTORY := hofs),
    hash_table := (hash_table h)(hash_at src n := n mod 65536)\<rparr>"
  have add: "hist_add src n h = Inr (hofs, h1)"
    using assms(2) by (simp add: hist_add_def HASH_eq hofs_def h1_def Let_def)
  have hofs: "link_ok src (hash_at src n) n hofs"
    using assms(1) by (simp add: hist_ok_def hofs_def)
  have "link_ok src x (n + 1) (hash_table h1 x)" for x
    using assms link_ok_mono [of src x n "hash_table h x" "n + 1"]
    by (auto simp: hist_ok_def h1_def link_ok_def)
  moreover have "link_ok src (hash_at src p) p (hash_chain h1 (p mod MAX_HISTORY))"
    if "p < n + 1" "n + 1 \<le> p + MAX_HISTORY" for p
  proof (cases "p = n")
    case True
    then show ?thesis using hofs by (simp add: h1_def)
  next
    case False
    then have "p < n" "n < p + 2048" using that by simp_all
    then show ?thesis using assms(1) ring_slots_differ [of p n] by (simp add: hist_ok_def h1_def)
  qed
  ultimately have "hist_ok src (n + 1) h1" by (simp add: hist_ok_def)
  with add hofs show ?thesis by blast
qed

lemma hist_rest_ok:
  assumes "hist_ok src n h" and "n + k < length src" and "length src \<le> 65536"
  shows "\<exists>h1. hist_rest src k n h = Inr h1 \<and> hist_ok src (n + k) h1"
  using assms
proof (induction k arbitrary: n h)
  case (Suc k)
  then obtain hofs h1 where "hist_add src n h = Inr (hofs, h1)" "hist_ok src (n + 1) h1"
    using hist_add_ok [of src n h] by auto
  with Suc.IH [of "n + 1" h1] Suc.prems show ?case by simp
qed simp

section \<open>The search for a match\<close>

definition agree :: "bytes \<Rightarrow> nat \<Rightarrow> nat \<Rightarrow> nat \<Rightarrow> bool" where
  "agree src p q n \<longleftrightarrow> (\<forall>i < n. src ! (p + i) = src ! (q + i))"

lemma agree_Suc: "agree src p q (Suc n) \<longleftrightarrow> agree src p q n \<and> src ! (p + n) = src ! (q + n)"
  by (auto simp: agree_def less_Suc_eq)

lemma extend_match_ok:
  assumes "agree src hofs inpos (Suc len)" and "inpos + len < length src" and "hofs < inpos"
    and "length src \<le> 65536"
  shows "\<exists>len' b. extend_match src inpos hofs len = Inr (len', b) \<and> len < len' \<and> inpos + len' \<le> length src \<and>
    agree src hofs inpos len' \<and> (b \<longleftrightarrow> inpos + len' = length src)"
  using assms
proof (induction src inpos hofs len rule: extend_match.induct)
  case (1 src inpos hofs len)
  have m: "(len + 1) mod 65536 = Suc len" using "1.prems" by simp
  consider (last) "Suc len + inpos = length src"
    | (more) "Suc len + inpos < length src" "src ! (Suc len + inpos) = src ! (Suc len + hofs)"
    | (stop) "Suc len + inpos < length src" "src ! (Suc len + inpos) \<noteq> src ! (Suc len + hofs)"
    using "1.prems"(2) by linarith
  then show ?case
  proof cases
    case last
    then show ?thesis using "1.prems" by (subst extend_match.simps) (simp add: m Let_def)
  next
    case more
    have "agree src hofs inpos (Suc (Suc len))"
      using "1.prems"(1) more by (simp add: agree_Suc [of _ _ _ "Suc len"] add.commute)
    then have "\<exists>len' b. extend_match src inpos hofs (Suc len) = Inr (len', b) \<and> Suc len < len' \<and>
      inpos + len' \<le> length src \<and> agree src hofs inpos len' \<and> (b \<longleftrightarrow> inpos + len' = length src)"
      using "1.IH" [of "Suc len"] "1.prems" more m by (auto simp: buf_get_def)
    with "1.prems" more show ?thesis
      by (subst extend_match.simps) (auto simp: m Let_def buf_get_def)
  next
    case stop
    then show ?thesis using "1.prems"
      by (subst extend_match.simps) (auto simp: m Let_def buf_get_def)
  qed
qed

text \<open>A match that can be sent: in reach, at least two bytes, within the input.\<close>

definition match_ok :: "bytes \<Rightarrow> nat \<Rightarrow> nat \<Rightarrow> nat \<Rightarrow> bool" where
  "match_ok src inpos len ofs \<longleftrightarrow> ofs < inpos \<and> inpos < ofs + MAX_HISTORY \<and> 2 \<le> len \<and>
     inpos + len \<le> length src \<and> agree src ofs inpos len"

lemma bslice_agree:
  assumes "p + n \<le> length src" and "q + n \<le> length src"
  shows "bslice p n src = bslice q n src \<longleftrightarrow> agree src p q n"
  using assms by (auto simp: bslice_def agree_def list_eq_iff_nth_eq)

lemma agree_extend:
  assumes "hash_at src hofs = hash_at src inpos" and "agree src (hofs + 2) (inpos + 2) (len - 1)" and "2 \<le> len"
  shows "agree src hofs inpos (Suc len)"
  unfolding agree_def
proof (intro allI impI)
  fix i
  assume "i < Suc len"
  consider "i = 0" | "i = 1" | "2 \<le> i" by linarith
  then show "src ! (hofs + i) = src ! (inpos + i)"
  proof cases
    case 3
    then have "i - 2 < len - 1" using \<open>i < Suc len\<close> assms(3) by linarith
    then have "src ! (hofs + 2 + (i - 2)) = src ! (inpos + 2 + (i - 2))"
      using assms(2) unfolding agree_def by blast
    moreover have "hofs + 2 + (i - 2) = hofs + i" "inpos + 2 + (i - 2) = inpos + i" using 3 by simp_all
    ultimately show ?thesis by (simp only:)
  qed (use hash_at_eqD [OF assms(1)] in simp_all)
qed

lemma find_match_ok:
  assumes "hist_ok src (inpos + 1) h" and "length src \<le> 65536"
    and "match_ok src inpos len ofs" and "inpos + len < length src"
    and "link_ok src (hash_at src inpos) inpos hofs" and "hofs \<noteq> INVALID_OFS \<longrightarrow> hofs < fuel"
  shows "\<exists>len' ofs'. find_match fuel src (hash_chain h) inpos len ofs hofs = Inr (len', ofs') \<and>
    match_ok src inpos len' ofs'"
  using assms(3-6)
proof (induction fuel arbitrary: len ofs hofs)
  case 0
  then show ?case by (auto simp: find_match.simps link_ok_def)
next
  case (Suc fuel)
  show ?case
  proof (cases "hofs \<noteq> INVALID_OFS \<and> hofs + MAX_HISTORY > inpos")
    case False
    then show ?thesis using Suc.prems(1) by (subst find_match.simps) auto
  next
    case True
    have hofs: "hofs < inpos" "hash_at src hofs = hash_at src inpos"
      using True Suc.prems(3) by (simp_all add: link_ok_def)
    let ?next = "hash_chain h (hofs mod MAX_HISTORY)"
    have "link_ok src (hash_at src hofs) hofs ?next"
      using assms(1) hofs(1) True by (simp add: hist_ok_def)
    then have nxt: "link_ok src (hash_at src inpos) inpos ?next" "?next \<noteq> INVALID_OFS \<longrightarrow> ?next < fuel"
      using hofs Suc.prems(4) True by (auto simp: link_ok_def)
    have len: "2 \<le> len" using Suc.prems(1) by (simp add: match_ok_def)
    have eq: "src_eq src (hofs + 2) (inpos + 2) (len - 1) = Inr (agree src (hofs + 2) (inpos + 2) (len - 1))"
      using Suc.prems(2) hofs(1) len by (simp add: src_eq_def bslice_agree)
    show ?thesis
    proof (cases "agree src (hofs + 2) (inpos + 2) (len - 1)")
      case False
      with Suc.IH [OF Suc.prems(1,2) nxt] True eq show ?thesis
        by (subst find_match.simps) simp
    next
      case agr: True
      obtain len' b where ext: "extend_match src inpos hofs len = Inr (len', b)" "len < len'"
        "inpos + len' \<le> length src" "agree src hofs inpos len'" "b \<longleftrightarrow> inpos + len' = length src"
        using extend_match_ok [OF agree_extend [OF hofs(2) agr len] Suc.prems(2) hofs(1) assms(2)] by blast
      have ok: "match_ok src inpos len' hofs"
        using ext hofs True len by (simp add: match_ok_def)
      show ?thesis
      proof (cases b)
        case True
        with \<open>hofs \<noteq> INVALID_OFS \<and> hofs + MAX_HISTORY > inpos\<close> eq agr ext ok show ?thesis
          by (subst find_match.simps) simp
      next
        case False
        then have "inpos + len' < length src" using ext by simp
        from Suc.IH [OF ok this nxt] False \<open>hofs \<noteq> INVALID_OFS \<and> hofs + MAX_HISTORY > inpos\<close> eq agr ext
        show ?thesis by (subst find_match.simps) simp
      qed
    qed
  qed
qed

section \<open>The main loop\<close>

text \<open>The output so far holds the code words of tokens that expand to the first \<open>inpos\<close> bytes.\<close>

definition enc_state :: "nat \<Rightarrow> bytes \<Rightarrow> nat \<Rightarrow> lzs_out \<Rightarrow> bool" where
  "enc_state dstlen src inpos o' \<longleftrightarrow> out_ok dstlen o' \<and> inpos \<le> length src \<and>
     (\<exists>ts. toks_ok [] ts \<and> expand [] ts = take inpos src \<and> out_stream o' = enc_toks ts)"

definition tok_len :: "token \<Rightarrow> nat" where
  "tok_len t = (case t of Lit b \<Rightarrow> 1 | Ref off len \<Rightarrow> len)"

lemma length_enc_nyb: "length (enc_nyb n) \<le> 4 + n"
proof (induction n rule: enc_nyb.induct)
  case (1 n)
  then show ?case by (subst enc_nyb.simps) auto
qed

lemma length_enc_tok: "tok_ok n t \<Longrightarrow> length (enc_tok t) \<le> 9 * tok_len t"
  using length_enc_nyb [of "tok_len t + 7"]
  by (auto simp: enc_tok_def tok_len_def tok_ok_def enc_off_def enc_len_def split: token.splits)

lemma length_enc_toks: "toks_ok out ts \<Longrightarrow> length (enc_toks ts) + 9 * length out \<le> 9 * length (expand out ts)"
proof (induction ts arbitrary: out)
  case (Cons t ts)
  then have "length (enc_tok t) \<le> 9 * tok_len t" by (auto intro: length_enc_tok)
  moreover have "length (apply_tok out t) = length out + tok_len t"
    by (simp add: length_apply_tok tok_len_def)
  ultimately show ?case using Cons.IH [of "apply_tok out t"] Cons.prems
    by (simp add: enc_toks_def expand_def)
qed (simp add: enc_toks_def expand_def)

text \<open>The step for one token: it is written, or the destination is too small for the worst case.\<close>

definition too_small :: "nat \<Rightarrow> bytes \<Rightarrow> bool" where
  "too_small dstlen src \<longleftrightarrow> 8 * dstlen \<le> 9 * length src + 8"

lemma enc_state_step:
  assumes st: "enc_state dstlen src inpos o'" and t: "tok_ok inpos t"
    and ap: "apply_tok (take inpos src) t = take (inpos + tok_len t) src"
    and fit: "inpos + tok_len t \<le> length src"
    and r: "appends dstlen r o' (enc_tok t)"
  shows "r = Inl EFBIG \<and> too_small dstlen src \<or> (\<exists>o1. r = Inr o1 \<and> enc_state dstlen src (inpos + tok_len t) o1)"
proof -
  obtain ts where ts: "toks_ok [] ts" "expand [] ts = take inpos src" "out_stream o' = enc_toks ts"
    and le: "inpos \<le> length src"
    using st by (auto simp: enc_state_def)
  have ok: "toks_ok [] (ts @ [t])" using ts t le by (simp add: toks_ok_append)
  have ex: "expand [] (ts @ [t]) = take (inpos + tok_len t) src" using ts ap by (simp add: expand_def)
  have enc: "enc_toks (ts @ [t]) = enc_toks ts @ enc_tok t" by (simp add: enc_toks_def)
  have "length (enc_toks (ts @ [t])) \<le> 9 * length src"
    using length_enc_toks [OF ok] fit by (simp add: ex)
  with r ts enc fit show ?thesis
  proof (cases "length (out_stream o') + length (enc_tok t) < 8 * dstlen + 8")
    case True
    with r obtain o1 where "r = Inr o1" "out_ok dstlen o1" "out_stream o1 = enc_toks (ts @ [t])"
      by (auto simp: appends_def ts enc)
    with ok ex fit show ?thesis by (auto simp: enc_state_def)
  next
    case False
    with r \<open>length (enc_toks (ts @ [t])) \<le> 9 * length src\<close> show ?thesis
      by (simp add: appends_def too_small_def ts enc)
  qed
qed

lemma ref_copy_src:
  assumes "1 \<le> off" and "off \<le> n" and "agree src (n - off) n len" and "n + len \<le> length src"
  shows "ref_copy len off (take n src) = take (n + len) src"
  using assms
proof (induction len arbitrary: n)
  case (Suc len)
  have "src ! (n - off) = src ! n" using Suc.prems(3) by (auto simp: agree_def)
  then have "take n src @ [take n src ! (n - off)] = take (n + 1) src"
    using Suc.prems by (simp add: take_Suc_conv_app_nth)
  moreover have "agree src (n + 1 - off) (n + 1) len"
    using Suc.prems by (auto simp: agree_def Suc_diff_le)
  ultimately show ?case using Suc.IH [of "n + 1"] Suc.prems by (simp add: min_def)
qed simp

lemma put_literal:
  assumes "enc_state dstlen src inpos o'" and "inpos < length src"
  shows "PUT_BITS dstlen 9 (ucast (src ! inpos)) o' = Inl EFBIG \<and> too_small dstlen src \<or>
    (\<exists>o1. PUT_BITS dstlen 9 (ucast (src ! inpos)) o' = Inr o1 \<and> enc_state dstlen src (inpos + 1) o1)"
proof -
  let ?n = "unat (src ! inpos)"
  have "?n < 2 ^ 9" using unsigned_less [of "src ! inpos", where ?'a = nat] by simp
  then have "appends dstlen (PUT_BITS dstlen 9 (of_nat ?n) o') o' (nbits 9 (of_nat ?n :: u32))"
    using assms(1) by (intro appends_PUT_BITS) (simp_all add: enc_state_def)
  then have ap: "appends dstlen (PUT_BITS dstlen 9 (ucast (src ! inpos)) o') o' (enc_tok (Lit (src ! inpos)))"
    by (simp add: enc_tok_def)
  have tok: "tok_ok inpos (Lit (src ! inpos))" by (simp add: tok_ok_def)
  have "apply_tok (take inpos src) (Lit (src ! inpos)) = take (inpos + tok_len (Lit (src ! inpos))) src"
    using assms(2) by (simp add: apply_tok_def tok_len_def take_Suc_conv_app_nth)
  from enc_state_step [OF assms(1) tok this _ ap] assms(2) show ?thesis by (simp add: tok_len_def)
qed

lemma put_match:
  assumes st: "enc_state dstlen src inpos o'" and m: "match_ok src inpos len ofs" and "length src \<le> 65536"
    and r: "r = (case put_offset dstlen (inpos - ofs) o' of Inl e \<Rightarrow> Inl e | Inr o1 \<Rightarrow> f o1)"
    and f: "\<And>o1. out_ok dstlen o1 \<Longrightarrow> appends dstlen (f o1) o1 (enc_len len)"
  shows "r = Inl EFBIG \<and> too_small dstlen src \<or> (\<exists>o1. r = Inr o1 \<and> enc_state dstlen src (inpos + len) o1)"
proof -
  let ?t = "Ref (inpos - ofs) len"
  have ofs: "ofs < inpos" "inpos < ofs + 2048" "2 \<le> len" "inpos + len \<le> length src" "agree src ofs inpos len"
    using m by (simp_all add: match_ok_def)
  have "appends dstlen r o' (enc_off (inpos - ofs) @ enc_len len)"
    unfolding r using st ofs by (intro appends_bind appends_put_offset f) (auto simp: enc_state_def)
  then have ap: "appends dstlen r o' (enc_tok ?t)" by (simp add: enc_tok_def)
  have "tok_ok inpos ?t" using ofs assms(3) by (auto simp: tok_ok_def)
  moreover have "apply_tok (take inpos src) ?t = take (inpos + tok_len ?t) src"
    using ofs ref_copy_src [of "inpos - ofs" inpos src len] by (simp add: apply_tok_def tok_len_def)
  ultimately show ?thesis using enc_state_step [OF st _ _ _ ap] ofs by (simp add: tok_len_def)
qed

lemma match_ok_initial:
  assumes "link_ok src (hash_at src inpos) inpos hofs" and "hofs \<noteq> INVALID_OFS" and "inpos < hofs + MAX_HISTORY"
    and "inpos + 2 \<le> length src"
  shows "match_ok src inpos 2 hofs"
proof -
  have "agree src hofs inpos 2"
    using assms(1,2) hash_at_eqD [of src hofs inpos] by (auto simp: link_ok_def agree_def less_2_cases_iff)
  then show ?thesis using assms by (auto simp: match_ok_def link_ok_def)
qed

definition loop_done :: "nat \<Rightarrow> bytes \<Rightarrow> lzs_err + (nat \<times> lzs_hist \<times> lzs_out) \<Rightarrow> bool" where
  "loop_done dstlen src r \<longleftrightarrow> r = Inl EFBIG \<and> too_small dstlen src \<or>
     (\<exists>inpos h o'. r = Inr (inpos, h, o') \<and> enc_state dstlen src inpos o' \<and> length src \<le> inpos + 2 \<and>
        (\<forall>x. link_ok src x inpos (hash_table h x)))"

lemma compress_loop_done:
  assumes "hist_ok src inpos h" and "enc_state dstlen src inpos o'" and "length src \<le> 65536"
  shows "loop_done dstlen src (compress_loop dstlen src inpos h o')"
  using assms
proof (induction dstlen src inpos h o' rule: compress_loop.induct)
  case (1 dstlen src inpos h o')
  note st = "1.prems"(2)
  show ?case
  proof (cases "inpos + 2 < length src")
    case False
    then show ?thesis using "1.prems"
      by (subst compress_loop.simps) (auto simp: loop_done_def hist_ok_def)
  next
    case inp: True
    obtain hofs h1 where add: "hist_add src inpos h = Inr (hofs, h1)" and h1: "hist_ok src (inpos + 1) h1"
      and hofs: "link_ok src (hash_at src inpos) inpos hofs"
      using hist_add_ok [OF "1.prems"(1) _ "1.prems"(3)] inp by auto
    show ?thesis
    proof (cases "hofs = INVALID_OFS \<or> hofs + MAX_HISTORY \<le> inpos")
      case lit: True
      consider "PUT_BITS dstlen 9 (ucast (src ! inpos)) o' = Inl EFBIG" "too_small dstlen src"
        | o1 where "PUT_BITS dstlen 9 (ucast (src ! inpos)) o' = Inr o1" "enc_state dstlen src (inpos + 1) o1"
        using put_literal [OF st] inp by auto
      then show ?thesis
      proof cases
        case 1
        then show ?thesis using inp add lit by (subst compress_loop.simps) (simp add: loop_done_def)
      next
        case 2
        then show ?thesis
          using "1.IH"(1) [OF inp add refl lit 2(1) h1 2(2) "1.prems"(3)] inp add lit
          by (subst compress_loop.simps) simp
      qed
    next
      case nolit: False
      then obtain len ofs where find: "find_match (Suc hofs) src (hash_chain h1) inpos 2 hofs hofs = Inr (len, ofs)"
        and m: "match_ok src inpos len ofs"
        using find_match_ok [OF h1 "1.prems"(3) match_ok_initial [OF hofs] _ hofs, of "Suc hofs"] inp by auto
      let ?put = "case put_offset dstlen (inpos - ofs) o' of Inl e \<Rightarrow> Inl e | Inr o1 \<Rightarrow> put_length dstlen len o1"
      have "2 \<le> len" using m by (simp add: match_ok_def)
      then consider "?put = Inl EFBIG" "too_small dstlen src"
        | o1 o2 where "put_offset dstlen (inpos - ofs) o' = Inr o1" "put_length dstlen len o1 = Inr o2"
          "enc_state dstlen src (inpos + len) o2"
        using put_match [OF st m "1.prems"(3) refl, of "put_length dstlen len"] appends_put_length
        by (auto split: sum.splits)
      then show ?thesis
      proof cases
        case 1
        then show ?thesis using inp add nolit find
          by (subst compress_loop.simps) (auto simp: loop_done_def split: sum.splits)
      next
        case 2
        show ?thesis
        proof (cases "inpos + len + 2 \<ge> length src")
          case True
          have "link_ok src x (inpos + len) (hash_table h1 x)" for x
            using h1 \<open>2 \<le> len\<close> link_ok_mono [of src x "inpos + 1" _ "inpos + len"] by (simp add: hist_ok_def)
          with True 2 show ?thesis using inp add nolit find
            by (subst compress_loop.simps) (simp add: loop_done_def)
        next
          case False
          have eq: "inpos + 1 + (len - 1) = inpos + len" using \<open>2 \<le> len\<close> by simp
          obtain h2 where rest: "hist_rest src (len - 1) (inpos + 1) h1 = Inr h2"
            and h2: "hist_ok src (inpos + 1 + (len - 1)) h2"
            using hist_rest_ok [OF h1 _ "1.prems"(3), of "len - 1"] False eq by auto
          have st2: "enc_state dstlen src (inpos + 1 + (len - 1)) o2" using 2(3) unfolding eq .
          show ?thesis
            using "1.IH"(2) [OF inp add refl nolit find refl 2(1,2) False rest h2 st2 "1.prems"(3)]
              inp add nolit find 2(1,2) False rest
            by (subst compress_loop.simps) simp
        qed
      qed
    qed
  qed
qed

section \<open>The whole compressor\<close>

definition end_done :: "nat \<Rightarrow> bytes \<Rightarrow> lzs_err + lzs_out \<Rightarrow> bool" where
  "end_done dstlen src r \<longleftrightarrow> r = Inl EFBIG \<and> too_small dstlen src \<or>
     (\<exists>o'. r = Inr o' \<and> enc_state dstlen src (length src) o')"

lemma compress_end_done:
  assumes st: "enc_state dstlen src inpos o'" and le: "length src \<le> inpos + 2" "length src \<le> 65536"
    and h: "\<And>x. link_ok src x inpos (hash_table h x)"
  shows "end_done dstlen src (compress_end dstlen src inpos h o')"
proof -
  have "inpos \<le> length src" using st by (simp add: enc_state_def)
  then consider "inpos = length src" | "inpos + 1 = length src" | "inpos + 2 = length src"
    using le by linarith
  then show ?thesis
  proof cases
    case 1
    then show ?thesis using st by (simp add: compress_end_def end_done_def)
  next
    case 2
    then show ?thesis using put_literal [OF st] by (auto simp: compress_end_def end_done_def)
  next
    case 3
    let ?hofs = "hash_table h (hash_at src inpos)"
    have hash: "HASH src inpos = Inr (hash_at src inpos)" using 3 by (simp add: HASH_eq)
    show ?thesis
    proof (cases "?hofs \<noteq> INVALID_OFS \<and> ?hofs + MAX_HISTORY > inpos")
      case True
      then have m: "match_ok src inpos 2 ?hofs" using 3 by (intro match_ok_initial h) auto
      have "appends dstlen (PUT_BITS dstlen 2 0 o1) o1 (enc_len 2)" if "out_ok dstlen o1" for o1
        using appends_PUT_BITS [OF that, of 2 0] by (simp add: enc_len_def)
      from put_match [OF st m le(2) refl this] 3 True hash show ?thesis
        by (simp add: compress_end_def end_done_def)
    next
      case False
      have "enc_state dstlen src (inpos + 1) o1 \<Longrightarrow>
          end_done dstlen src (PUT_BITS dstlen 9 (ucast (src ! (inpos + 1))) o1)" for o1
        using put_literal [of dstlen src "inpos + 1" o1] 3 by (auto simp: end_done_def)
      moreover have "compress_end dstlen src inpos h o' =
          (case PUT_BITS dstlen 9 (ucast (src ! inpos)) o' of Inl e \<Rightarrow> Inl e
           | Inr o1 \<Rightarrow> PUT_BITS dstlen 9 (ucast (src ! (inpos + 1))) o1)"
        using False 3 hash by (auto simp: compress_end_def)
      moreover have "inpos < length src" using 3 by simp
      note put_literal [OF st this]
      ultimately show ?thesis by (elim disjE exE conjE) (simp_all add: end_done_def)
    qed
  qed
qed

lemma nbits_end_marker: "nbits 16 (0xc000 :: u32) = nbits 9 (0x180 :: u32) @ nbits 7 (0 :: u32)"
  using nbits_of_nat_split [of 49152 7 9] by simp

definition encodes :: "bytes \<Rightarrow> bytes \<Rightarrow> bool" where
  "encodes out src \<longleftrightarrow> (\<exists>ts rest. toks_ok [] ts \<and> expand [] ts = src \<and>
     stream_of out = enc_toks ts @ nbits 9 (0x180 :: u32) @ rest)"

lemma lzs_compress_spec:
  assumes "length src \<le> 65536"
  shows "lzs_compress chain0 dstlen src = Inl EFBIG \<and> too_small dstlen src \<or>
    (\<exists>out. lzs_compress chain0 dstlen src = Inr out \<and> encodes out src \<and> length out \<le> dstlen \<and>
       8 * length out \<le> 9 * length src + 16)"
proof -
  let ?h = "\<lparr>hash_table = (\<lambda>_. 0xffff), hash_chain = chain0\<rparr>"
  let ?o = "\<lparr>outbits = 0, nr_outbits = 0, dst_out = []\<rparr>"
  have "hist_ok src 0 ?h" by (simp add: hist_ok_def link_ok_def)
  moreover have "enc_state dstlen src 0 ?o"
    by (auto simp: enc_state_def out_ok_def out_stream_def enc_toks_def expand_def intro!: exI [of _ "[]"])
  ultimately have loop: "loop_done dstlen src (compress_loop dstlen src 0 ?h ?o)"
    using assms by (rule compress_loop_done)
  show ?thesis
  proof (cases "compress_loop dstlen src 0 ?h ?o")
    case (Inl e)
    with loop assms show ?thesis by (auto simp: lzs_compress_def loop_done_def)
  next
    case (Inr q)
    then obtain inpos h o1 where q: "compress_loop dstlen src 0 ?h ?o = Inr (inpos, h, o1)"
      and q': "enc_state dstlen src inpos o1" "length src \<le> inpos + 2" "\<And>x. link_ok src x inpos (hash_table h x)"
      using loop by (auto simp: loop_done_def)
    have fin: "end_done dstlen src (compress_end dstlen src inpos h o1)"
      using q' assms by (intro compress_end_done) auto
    show ?thesis
    proof (cases "compress_end dstlen src inpos h o1")
      case (Inl e)
      with fin q assms show ?thesis by (auto simp: lzs_compress_def end_done_def)
    next
      case (Inr o2)
      then have "enc_state dstlen src (length src) o2" using fin by (simp add: end_done_def)
      then obtain ts where ts: "toks_ok [] ts" "expand [] ts = src" "out_stream o2 = enc_toks ts"
        and ok: "out_ok dstlen o2" by (auto simp: enc_state_def)
      have len: "length (enc_toks ts) \<le> 9 * length src" using length_enc_toks [OF ts(1)] ts(2) by simp
      have ap: "appends dstlen (PUT_BITS dstlen 16 (of_nat 49152) o2) o2 (nbits 16 (of_nat 49152 :: u32))"
        by (rule appends_PUT_BITS [OF ok]) simp_all
      show ?thesis
      proof (cases "length (out_stream o2) + 16 < 8 * dstlen + 8")
        case True
        with ap obtain o3 where o3: "PUT_BITS dstlen 16 0xc000 o2 = Inr o3" "out_ok dstlen o3"
          "out_stream o3 = enc_toks ts @ nbits 9 (0x180 :: u32) @ nbits 7 (0 :: u32)"
          by (auto simp: appends_def ts nbits_end_marker)
        let ?k = "nr_outbits o3"
        have k: "?k < 8" using o3(2) by (simp add: out_ok_def)
        have "stream_of (dst_out o3) = take (length (out_stream o3) - ?k) (out_stream o3)"
          by (simp add: out_stream_def)
        also have "\<dots> = enc_toks ts @ nbits 9 (0x180 :: u32) @ take (7 - ?k) (nbits 7 (0 :: u32))"
          using k by (simp add: o3(3) Suc_diff_le)
        finally have st: "stream_of (dst_out o3) = \<dots>" .
        then have "encodes (dst_out o3) src" using ts by (auto simp: encodes_def)
        moreover have "8 * length (dst_out o3) \<le> 9 * length src + 16"
          using arg_cong [OF st, of length] len by simp
        moreover have "lzs_compress chain0 dstlen src = Inr (dst_out o3)"
          using q Inr o3(1) assms by (simp add: lzs_compress_def)
        ultimately show ?thesis using o3(2) by (auto simp: out_ok_def)
      next
        case False
        with ap have "PUT_BITS dstlen 16 0xc000 o2 = Inl EFBIG" by (simp add: appends_def)
        with q Inr assms False len ts show ?thesis by (simp add: lzs_compress_def too_small_def)
      qed
    qed
  qed
qed

lemma decompress_encodes:
  assumes "encodes out src" and "length src \<le> length dst"
  shows "\<exists>dst'. lzs_decompress dst out = Inr (length src, dst') \<and> length dst' = length dst \<and>
    take (length src) dst' = src"
proof -
  obtain ts rest where ts: "toks_ok [] ts" "expand [] ts = src"
    "stream_of out = enc_toks ts @ nbits 9 (0x180 :: u32) @ rest"
    using assms(1) by (auto simp: encodes_def)
  have "src_ok (out, 8)" "pending (out, 8) = enc_toks ts @ nbits 9 (0x180 :: u32) @ rest"
    by (simp_all add: src_ok_def pending_def ts)
  from decompress_tokens [OF this, of 0 dst "[]"] ts assms(2) show ?thesis
    by (simp add: lzs_decompress_def)
qed

section \<open>The decompressor on arbitrary input\<close>

definition dec_safe :: "nat \<Rightarrow> bytes \<Rightarrow> lzs_err + (nat \<times> bytes) \<Rightarrow> bool" where
  "dec_safe outlen dst r \<longleftrightarrow>
     (case r of
        Inl e \<Rightarrow> e = EINVAL \<or> e = EFBIG
      | Inr (n, dst') \<Rightarrow> outlen \<le> n \<and> n \<le> length dst \<and> length dst' = length dst \<and> drop n dst' = drop n dst \<and>
          take outlen dst' = take outlen dst)"

lemma GET_BITS_error: "GET_BITS n s = Inl e \<Longrightarrow> e = EINVAL"
  by (auto simp: GET_BITS_def Let_def split: prod.splits list.splits if_splits)

lemma length_loop_error: "length_loop s len = Inl e \<Longrightarrow> e = EINVAL"
proof (induction s len rule: length_loop.induct)
  case (1 s len)
  then show ?case
    by (subst (asm) (2) length_loop.simps) (auto split: sum.splits if_splits dest: GET_BITS_error)
qed

lemma get_error:
  "get_offset d s = Inl e \<Longrightarrow> e = EINVAL" "get_length s = Inl e \<Longrightarrow> e = EINVAL"
  by (auto simp: get_offset_def get_length_def Let_def split: sum.splits if_splits dest: GET_BITS_error)
    (use GET_BITS_error length_loop_error in blast)+

lemma copy_loop_safe:
  assumes "n + len \<le> length dst"
  shows "\<exists>dst'. copy_loop len off n dst = Inr dst' \<and> length dst' = length dst \<and>
    drop (n + len) dst' = drop (n + len) dst \<and> take n dst' = take n dst"
  using assms
proof (induction len arbitrary: n dst)
  case (Suc len)
  let ?dst = "dst[n := dst ! (n - off)]"
  obtain dst' where "copy_loop len off (n + 1) ?dst = Inr dst'" "length dst' = length dst"
    "drop (n + 1 + len) dst' = drop (n + 1 + len) ?dst" "take (n + 1) dst' = take (n + 1) ?dst"
    using Suc.IH [of "n + 1" ?dst] Suc.prems by auto
  moreover have "take n dst' = take n dst"
    using calculation(4) by (metis le_add1 min.absorb1 take_take take_update_cancel le_refl)
  ultimately show ?case using Suc.prems by (simp add: buf_get_def buf_put_def)
qed simp

lemma dec_safe_later:
  assumes "dec_safe m dst1 r" and "length dst1 = length dst" and "outlen \<le> m"
    and "drop m dst1 = drop m dst" and "take outlen dst1 = take outlen dst"
  shows "dec_safe outlen dst r"
proof (cases r)
  case (Inr q)
  obtain n dst' where q: "q = (n, dst')" by (cases q)
  have "m \<le> n" "n \<le> length dst" "length dst' = length dst" "drop n dst' = drop n dst1" "take m dst' = take m dst1"
    using assms(1,2) by (simp_all add: dec_safe_def Inr q)
  moreover have "drop n dst1 = drop n dst"
    using assms(4) \<open>m \<le> n\<close> by (metis drop_drop le_add_diff_inverse2)
  moreover have "take outlen dst' = take outlen dst"
    using \<open>take m dst' = take m dst1\<close> assms(3,5) by (metis min.absorb1 take_take)
  ultimately show ?thesis using assms(3) by (simp add: dec_safe_def Inr q)
qed (use assms in \<open>simp add: dec_safe_def\<close>)

lemma decompress_loop_safe: "outlen \<le> length dst \<Longrightarrow> dec_safe outlen dst (decompress_loop s outlen dst)"
proof (induction s outlen dst rule: decompress_loop.induct)
  case (1 s outlen dst)
  show ?case
  proof (cases "GET_BITS 9 s")
    case (Inl e)
    then show ?thesis
      by (subst decompress_loop.simps) (simp add: dec_safe_def GET_BITS_error)
  next
    case (Inr q)
    obtain data s1 where q: "q = (data, s1)" by (cases q)
    note g = Inr [unfolded q]
    consider "data < 0x100" "outlen = length dst" | "data < 0x100" "outlen < length dst"
      | "\<not> data < 0x100" "data = 0x180" | "\<not> data < 0x100" "data \<noteq> 0x180"
      using "1.prems" by linarith
    then show ?thesis
    proof cases
      case 1
      then show ?thesis by (subst decompress_loop.simps) (simp add: g dec_safe_def)
    next
      case 2
      let ?dst = "dst[outlen := ucast data]"
      have "dec_safe (outlen + 1) ?dst (decompress_loop s1 (outlen + 1) ?dst)"
        using 2 by (intro "1.IH"(1) [OF g refl]) (simp_all add: buf_put_def)
      then have "dec_safe outlen dst (decompress_loop s1 (outlen + 1) ?dst)"
        by (rule dec_safe_later) (use 2 in simp_all)
      then show ?thesis using 2 by (subst decompress_loop.simps) (simp add: g buf_put_def)
    next
      case 3
      then show ?thesis using "1.prems" by (subst decompress_loop.simps) (simp add: g dec_safe_def)
    next
      case 4
      show ?thesis
      proof (cases "get_offset data s1")
        case (Inl e)
        then show ?thesis using 4
          by (subst decompress_loop.simps) (simp add: g dec_safe_def get_error)
      next
        case (Inr q)
        obtain off s2 where q: "q = (off, s2)" by (cases q)
        note o = Inr [unfolded q]
        show ?thesis
        proof (cases "get_length s2")
          case (Inl e)
          then show ?thesis using 4
            by (subst decompress_loop.simps) (simp add: g o dec_safe_def get_error)
        next
          case (Inr q)
          obtain len s3 where q: "q = (len, s3)" by (cases q)
          note l = Inr [unfolded q]
          show ?thesis
          proof (cases "outlen < unat off \<or> length dst < unat len + outlen")
            case True
            then show ?thesis using 4
              by (subst decompress_loop.simps) (auto simp: g o l dec_safe_def)
          next
            case False
            then obtain dst1 where c: "copy_loop (unat len) (unat off) outlen dst = Inr dst1" "length dst1 = length dst"
              "drop (outlen + unat len) dst1 = drop (outlen + unat len) dst" "take outlen dst1 = take outlen dst"
              using copy_loop_safe [of outlen "unat len" dst "unat off"] by auto
            have "dec_safe (outlen + unat len) dst1 (decompress_loop s3 (outlen + unat len) dst1)"
              using 4 False c by (intro "1.IH"(2) [OF g refl _ _ o refl l refl _ _ c(1)]) auto
            then have "dec_safe outlen dst (decompress_loop s3 (outlen + unat len) dst1)"
              by (rule dec_safe_later) (use c in simp_all)
            then show ?thesis using 4 False c(1)
              by (subst decompress_loop.simps) (auto simp: g o l)
          qed
        qed
      qed
    qed
  qed
qed

section \<open>The uninitialised chain does not matter\<close>

text \<open>Two histories that agree on the hash table and on the links of the last \<open>MAX_HISTORY\<close> positions.\<close>

definition hist_agree :: "nat \<Rightarrow> lzs_hist \<Rightarrow> lzs_hist \<Rightarrow> bool" where
  "hist_agree n h h' \<longleftrightarrow> hash_table h = hash_table h' \<and>
     (\<forall>p < n. n \<le> p + MAX_HISTORY \<longrightarrow> hash_chain h (p mod MAX_HISTORY) = hash_chain h' (p mod MAX_HISTORY))"

lemma hist_add_agree:
  assumes "hist_agree n h h'" and "hist_add src n h = Inr (hofs, h1)"
  shows "\<exists>h1'. hist_add src n h' = Inr (hofs, h1') \<and> hist_agree (n + 1) h1 h1'"
proof -
  have eq: "p mod 2048 = n mod 2048 \<or> hash_chain h (p mod 2048) = hash_chain h' (p mod 2048)"
    if "p < Suc n" "n \<le> 2047 + p" for p
    using that assms(1) by (cases "p = n") (auto simp: hist_agree_def)
  from assms show ?thesis
    by (auto simp: hist_add_def Let_def hist_agree_def split: sum.splits) (use eq in blast)
qed

lemma hist_rest_agree:
  assumes "hist_agree n h h'" and "hist_rest src k n h = Inr h1"
  shows "\<exists>h1'. hist_rest src k n h' = Inr h1' \<and> hist_agree (n + k) h1 h1'"
  using assms
proof (induction k arbitrary: n h h')
  case (Suc k)
  then obtain hofs h2 where "hist_add src n h = Inr (hofs, h2)" and r: "hist_rest src k (n + 1) h2 = Inr h1"
    by (auto split: sum.splits)
  from hist_add_agree [OF Suc.prems(1) this(1)] obtain h2' where
    "hist_add src n h' = Inr (hofs, h2')" "hist_agree (n + 1) h2 h2'" by blast
  with Suc.IH [OF this(2) r] show ?case by simp
qed simp

lemma find_match_agree:
  assumes "hist_ok src (inpos + 1) h" and "hist_agree (inpos + 1) h h'"
    and "link_ok src (hash_at src inpos) inpos hofs"
  shows "find_match fuel src (hash_chain h) inpos len ofs hofs = find_match fuel src (hash_chain h') inpos len ofs hofs"
  using assms(3)
proof (induction fuel arbitrary: len ofs hofs)
  case 0
  then show ?case by (simp add: find_match.simps)
next
  case (Suc fuel)
  show ?case
  proof (cases "hofs \<noteq> INVALID_OFS \<and> hofs + MAX_HISTORY > inpos")
    case True
    let ?next = "hash_chain h (hofs mod MAX_HISTORY)"
    have hofs: "hofs < inpos" "hash_at src hofs = hash_at src inpos" using True Suc.prems by (auto simp: link_ok_def)
    have "link_ok src (hash_at src hofs) hofs ?next"
      using assms(1) hofs(1) True by (simp add: hist_ok_def)
    then have "link_ok src (hash_at src inpos) inpos ?next" using hofs by (auto intro: link_ok_mono)
    then have IH: "find_match fuel src (hash_chain h) inpos l' o' ?next = find_match fuel src (hash_chain h') inpos l' o' ?next"
      for l' o' by (rule Suc.IH)
    have "hash_chain h' (hofs mod MAX_HISTORY) = ?next"
      using assms(2) hofs(1) True by (simp add: hist_agree_def)
    then show ?thesis
      by (simp add: find_match.simps [of "Suc fuel"] IH split: sum.split bool.split prod.split)
  qed (subst (1 2) find_match.simps, auto)
qed

text \<open>Equal outcomes, up to the contents of the chain.\<close>

definition same_outcome ::
    "lzs_err + (nat \<times> lzs_hist \<times> lzs_out) \<Rightarrow> lzs_err + (nat \<times> lzs_hist \<times> lzs_out) \<Rightarrow> bool" where
  "same_outcome r r' \<longleftrightarrow>
     (case (r, r') of
        (Inl e, Inl e') \<Rightarrow> e = e'
      | (Inr (i, h, o'), Inr (i', h', o'')) \<Rightarrow> i = i' \<and> hash_table h = hash_table h' \<and> o' = o''
      | _ \<Rightarrow> False)"

lemma compress_loop_agree:
  assumes "hist_ok src inpos h" and "hist_agree inpos h h'" and "length src \<le> 65536"
  shows "same_outcome (compress_loop dstlen src inpos h o') (compress_loop dstlen src inpos h' o')"
  using assms
proof (induction dstlen src inpos h o' arbitrary: h' rule: compress_loop.induct)
  case (1 dstlen src inpos h o')
  show ?case
  proof (cases "inpos + 2 < length src")
    case False
    then show ?thesis using "1.prems"
      by (subst (1 2) compress_loop.simps) (simp add: same_outcome_def hist_agree_def)
  next
    case inp: True
    obtain hofs h1 where add: "hist_add src inpos h = Inr (hofs, h1)" and h1: "hist_ok src (inpos + 1) h1"
      and hofs: "link_ok src (hash_at src inpos) inpos hofs"
      using hist_add_ok [OF "1.prems"(1) _ "1.prems"(3)] inp by auto
    obtain h1' where add': "hist_add src inpos h' = Inr (hofs, h1')" and agr: "hist_agree (inpos + 1) h1 h1'"
      using hist_add_agree [OF "1.prems"(2) add] by blast
    show ?thesis
    proof (cases "hofs = INVALID_OFS \<or> hofs + MAX_HISTORY \<le> inpos")
      case lit: True
      show ?thesis
      proof (cases "PUT_BITS dstlen 9 (ucast (src ! inpos)) o'")
        case (Inl e)
        then show ?thesis using inp add add' lit
          by (subst (1 2) compress_loop.simps) (simp add: same_outcome_def)
      next
        case (Inr o1)
        from "1.IH"(1) [OF inp add refl lit Inr h1 agr "1.prems"(3)] show ?thesis using inp add add' lit Inr
          by (subst (1 2) compress_loop.simps) simp
      qed
    next
      case nolit: False
      note find' = find_match_agree [OF h1 agr hofs, symmetric]
      obtain len ofs where find: "find_match (Suc hofs) src (hash_chain h1) inpos 2 hofs hofs = Inr (len, ofs)"
        and m: "match_ok src inpos len ofs"
        using find_match_ok [OF h1 "1.prems"(3) match_ok_initial [OF hofs] _ hofs, of "Suc hofs"] inp nolit by auto
      consider e where "put_offset dstlen (inpos - ofs) o' = Inl e"
        | o1 e where "put_offset dstlen (inpos - ofs) o' = Inr o1" "put_length dstlen len o1 = Inl e"
        | o1 o2 where "put_offset dstlen (inpos - ofs) o' = Inr o1" "put_length dstlen len o1 = Inr o2"
        by (metis sum.exhaust)
      then show ?thesis
      proof cases
        case 3
        show ?thesis
        proof (cases "inpos + len + 2 \<ge> length src")
          case True
          with 3 show ?thesis using inp add add' nolit find find' agr
            by (subst (1 2) compress_loop.simps) (simp add: same_outcome_def hist_agree_def)
        next
          case False
          have "2 \<le> len" using m by (simp add: match_ok_def)
          then obtain h2 where rest: "hist_rest src (len - 1) (inpos + 1) h1 = Inr h2"
            and h2: "hist_ok src (inpos + 1 + (len - 1)) h2"
            using hist_rest_ok [OF h1 _ "1.prems"(3), of "len - 1"] False by auto
          obtain h2' where rest': "hist_rest src (len - 1) (inpos + 1) h1' = Inr h2'"
            and agr2: "hist_agree (inpos + 1 + (len - 1)) h2 h2'"
            using hist_rest_agree [OF agr rest] by blast
          show ?thesis
            using "1.IH"(2) [OF inp add refl nolit find refl 3 False rest h2 agr2 "1.prems"(3)]
              inp add add' nolit find find' 3 False rest rest'
            by (subst (1 2) compress_loop.simps) simp
        qed
      qed (use inp add add' nolit find find' in
          \<open>subst (1 2) compress_loop.simps, simp add: same_outcome_def\<close>)+
    qed
  qed
qed

lemma compress_end_table: "hash_table h = hash_table h' \<Longrightarrow> compress_end dstlen src inpos h o' = compress_end dstlen src inpos h' o'"
  unfolding compress_end_def by (simp only:)

section \<open>Properties\<close>

text \<open>C1. Round trip: whatever \<open>lzs_compress\<close> writes, \<open>lzs_decompress\<close> turns back into the packet it
  was given, in any destination buffer with room for the packet, whatever that buffer and the
  uninitialised hash chain held.\<close>

theorem lzs_round_trip:
  assumes "lzs_compress chain0 dstlen src = Inr out" and "length src \<le> length dst"
  shows "\<exists>dst'. lzs_decompress dst out = Inr (length src, dst') \<and> length dst' = length dst \<and>
    take (length src) dst' = src"
proof -
  have "length src \<le> 65536" using assms(1) by (simp add: lzs_compress_def split: if_splits)
  with lzs_compress_spec [of src chain0 dstlen] assms(1) have "encodes out src" by auto
  then show ?thesis using assms(2) by (rule decompress_encodes)
qed

definition demo_packet :: bytes where "demo_packet = [1, 2, 3, 1, 2, 3, 1, 2, 3, 1, 2, 3, 4]"

lemma demo_compress:
  "lzs_compress (\<lambda>_. 7) 20 demo_packet = Inr [0, 128, 128, 120, 63, 16, 38, 0]"
  by code_simp

theorem lzs_round_trip_witness:
  "\<exists>dst'. lzs_decompress (replicate 20 9) [0, 128, 128, 120, 63, 16, 38, 0] = Inr (length demo_packet, dst') \<and>
     length dst' = length (replicate 20 (9 :: u8)) \<and> take (length demo_packet) dst' = demo_packet"
  using lzs_round_trip [OF demo_compress, of "replicate 20 9"] by (simp add: demo_packet_def)

text \<open>C15. The compressor is total and memory safe: on every packet of at most 64 KiB it neither reads
  outside the packet nor walks the hash chain forever; it writes at most \<open>dstlen\<close> bytes, at most nine
  bits per input byte plus the end marker, and it only gives up (\<^verbatim>\<open>-EFBIG\<close>) when \<open>dstlen\<close> is below
  that worst case.\<close>

theorem lzs_compress_total:
  "case lzs_compress chain0 dstlen src of
     Inl e \<Rightarrow> e = EFBIG \<and> (65536 < length src \<or> 8 * dstlen \<le> 9 * length src + 8)
   | Inr out \<Rightarrow> length out \<le> dstlen \<and> 8 * length out \<le> 9 * length src + 16"
proof (cases "length src \<le> 65536")
  case True
  from lzs_compress_spec [OF True, of chain0 dstlen] show ?thesis by (auto simp: too_small_def)
next
  case False
  then show ?thesis by (simp add: lzs_compress_def)
qed


text \<open>The hash chain needs no initialisation, as the comment in the source says: the compressed
  packet does not depend on what the array held before.\<close>

theorem lzs_chain_uninitialised:
  "lzs_compress chain0 dstlen src = lzs_compress chain1 dstlen src"
proof (cases "length src \<le> 65536")
  case True
  let ?loop = "\<lambda>chain. compress_loop dstlen src 0 \<lparr>hash_table = (\<lambda>_. 0xffff), hash_chain = chain\<rparr>
    \<lparr>outbits = 0, nr_outbits = 0, dst_out = []\<rparr>"
  have same: "same_outcome (?loop chain0) (?loop chain1)"
    using True by (intro compress_loop_agree) (simp_all add: hist_ok_def link_ok_def hist_agree_def)
  show ?thesis
  proof (cases "?loop chain0")
    case (Inl e)
    with same have "?loop chain1 = Inl e" by (cases "?loop chain1") (simp_all add: same_outcome_def)
    with Inl show ?thesis by (simp add: lzs_compress_def)
  next
    case (Inr q)
    obtain i h o' where q: "q = (i, h, o')" by (cases q)
    with Inr same obtain h' where "?loop chain1 = Inr (i, h', o')" "hash_table h = hash_table h'"
      by (cases "?loop chain1") (auto simp: same_outcome_def)
    with Inr q compress_end_table [of h h'] show ?thesis by (simp add: lzs_compress_def)
  qed
next
  case False
  then show ?thesis by (simp add: lzs_compress_def)
qed


end
