(* ===== verification/ConfigPorts.thy ===== *)
theory ConfigPorts
  imports CLib
begin

text \<open>
  The parser of the option \<^verbatim>\<open>restrict-user-to-ports\<close>, \<^verbatim>\<open>src/src/config-ports.c\<close>: a list of protocols
  with a port such as \<^verbatim>\<open>tcp(443), udp(53)\<close>, or the same list negated, \<^verbatim>\<open>!(tcp(443), udp(53))\<close>.

  The array of ports grows by one object per element. The outcome of the two allocations of
  \<open>append_port\<close> is an argument that depends on the number of ports so far; a failure leaves no array
  (\<^term>\<open>None\<close>).
\<close>

section \<open>Types\<close>

datatype fw_proto = PROTO_UDP | PROTO_TCP | PROTO_SCTP | PROTO_ESP | PROTO_ICMP | PROTO_ICMPv6

record fw_port =
  fw_portno :: u32
  fw_protocol :: fw_proto
  fw_negate :: bool

fun proto_to_str :: "fw_proto \<Rightarrow> string" where
  "proto_to_str PROTO_UDP = ''udp''"
| "proto_to_str PROTO_TCP = ''tcp''"
| "proto_to_str PROTO_SCTP = ''sctp''"
| "proto_to_str PROTO_ESP = ''esp''"
| "proto_to_str PROTO_ICMP = ''icmp''"
| "proto_to_str PROTO_ICMPv6 = ''icmpv6''"

section \<open>The parser\<close>

definition append_port ::
    "(nat \<Rightarrow> bool \<times> bool) \<Rightarrow> fw_port list \<Rightarrow> int \<Rightarrow> fw_proto \<Rightarrow> bool \<Rightarrow> fw_port list option" where
  "append_port alloc ports port proto negate =
     (case alloc (length ports) of
        (realloc_ok, talloc_ok) \<Rightarrow>
          if \<not> realloc_ok then None
          else if \<not> talloc_ok then None
          else Some (ports @ [\<lparr>fw_portno = word_of_int port, fw_protocol = proto, fw_negate = negate\<rparr>]))"

text \<open>The protocol at the start of the text, case ignored, and the text behind it.\<close>

definition match_proto :: "string \<Rightarrow> (fw_proto \<times> string) option" where
  "match_proto p =
     (if prefix_nocase ''tcp'' p then Some (PROTO_TCP, drop 3 p)
      else if prefix_nocase ''udp'' p then Some (PROTO_UDP, drop 3 p)
      else if prefix_nocase ''sctp'' p then Some (PROTO_SCTP, drop 4 p)
      else if prefix_nocase ''icmpv6'' p then Some (PROTO_ICMPv6, drop 6 p)
      else if prefix_nocase ''icmp'' p then Some (PROTO_ICMP, drop 4 p)
      else if prefix_nocase ''esp'' p then Some (PROTO_ESP, drop 3 p)
      else None)"

text \<open>What follows the parenthesis of an element: the end of the list, an error, or the next element.\<close>

datatype port_end = Port_Finish | Port_Error | Port_Next string

definition port_end :: "bool \<Rightarrow> string \<Rightarrow> port_end" where
  "port_end negate p2 =
     (case dropWhile c_isspace p2 of
        [] \<Rightarrow> Port_Finish
      | c # p \<Rightarrow> if negate \<and> c = CHR '')'' then Port_Finish
               else if c \<noteq> CHR '','' then Port_Error
               else Port_Next p)"

lemma length_dropWhile_le: "length (dropWhile P xs) \<le> length xs"
  by (induction xs) auto

lemma match_proto_shorter: "match_proto p = Some (proto, q) \<Longrightarrow> length q \<le> length p"
  by (auto simp: match_proto_def split: if_splits)

lemma strchr_shorter: "strchr s c = Some t \<Longrightarrow> length t \<le> length s"
  by (auto simp: strchr_Some_iff)

lemma port_end_shorter: "port_end negate p2 = Port_Next p \<Longrightarrow> length p < length p2"
  using length_dropWhile_le [of c_isspace p2]
  by (auto simp: port_end_def split: list.splits if_splits)

function cfg_parse_loop ::
    "(nat \<Rightarrow> bool \<times> bool) \<Rightarrow> bool \<Rightarrow> string \<Rightarrow> fw_port list \<Rightarrow> int \<times> fw_port list option" where
  "cfg_parse_loop alloc negate p0 ports =
     (case match_proto (dropWhile c_isspace p0) of
        None \<Rightarrow> (- 1, Some ports)
      | Some (proto, p1) \<Rightarrow>
          (let p = dropWhile c_isspace p1 in
           if p = [] \<or> hd p \<noteq> CHR ''('' then (- 1, Some ports)
           else
             (let p = tl p in
              case append_port alloc ports (atoi p) proto negate of
                None \<Rightarrow> (- 1, None)
              | Some ports' \<Rightarrow>
                  (case strchr p (CHR '')'') of
                     None \<Rightarrow> (- 1, Some ports')
                   | Some p2 \<Rightarrow>
                       (case port_end negate (tl p2) of
                          Port_Finish \<Rightarrow> (0, Some ports')
                        | Port_Error \<Rightarrow> (- 1, Some ports')
                        | Port_Next p3 \<Rightarrow> cfg_parse_loop alloc negate p3 ports')))))"
  by pat_completeness auto
termination
proof (relation "measure (\<lambda>(alloc, negate, p, ports). length p)", goal_cases)
  case (2 alloc negate p0 ports a proto p1 p p' ports' p2 p3)
  have "length p3 < length (tl p2)" using 2 port_end_shorter by blast
  also have "\<dots> \<le> length p'" using strchr_shorter [OF 2(7)] by simp
  also have "\<dots> \<le> length p1" using 2 length_dropWhile_le [of c_isspace p1] by simp
  also have "\<dots> \<le> length (dropWhile c_isspace p0)" using 2 match_proto_shorter by blast
  also have "\<dots> \<le> length p0" by (rule length_dropWhile_le)
  finally show ?case by simp
qed simp

declare cfg_parse_loop.simps [simp del]

definition cfg_parse_ports ::
    "(nat \<Rightarrow> bool \<times> bool) \<Rightarrow> fw_port list \<Rightarrow> string option \<Rightarrow> int \<times> fw_port list option" where
  "cfg_parse_ports alloc ports str =
     (case str of
        None \<Rightarrow> (0, Some ports)
      | Some s \<Rightarrow>
          (let p = dropWhile c_isspace s in
           if p \<noteq> [] \<and> hd p = CHR ''!'' then
             (let skip = (\<lambda>c. c_isspace c \<or> c = CHR ''('') in
              if CHR ''('' \<notin> set (takeWhile skip (tl p)) then (- 1, Some ports)
              else cfg_parse_loop alloc True (dropWhile skip (tl p)) ports)
           else cfg_parse_loop alloc False p ports))"

section \<open>Correctness\<close>

text \<open>Allocations that succeed.\<close>

definition alloc_ok :: "nat \<Rightarrow> bool \<times> bool" where "alloc_ok n = (True, True)"

text \<open>The notation of the configuration file for a list of ports.\<close>

definition print_port :: "fw_proto \<times> nat \<Rightarrow> string" where
  "print_port pn = proto_to_str (fst pn) @ ''('' @ dec (snd pn) @ '')''"

fun print_list :: "(fw_proto \<times> nat) list \<Rightarrow> string" where
  "print_list [] = ''''"
| "print_list [pn] = print_port pn"
| "print_list (pn # pns) = print_port pn @ '', '' @ print_list pns"

definition print_ports :: "bool \<Rightarrow> (fw_proto \<times> nat) list \<Rightarrow> string" where
  "print_ports negate pns = (if negate then ''!('' @ print_list pns @ '')'' else print_list pns)"

definition port_of :: "bool \<Rightarrow> fw_proto \<times> nat \<Rightarrow> fw_port" where
  "port_of negate pn = \<lparr>fw_portno = word_of_nat (snd pn), fw_protocol = fst pn, fw_negate = negate\<rparr>"

lemma match_proto_to_str: "match_proto (proto_to_str pr @ CHR ''('' # r) = Some (pr, CHR ''('' # r)"
  by (cases pr) (simp_all add: match_proto_def prefix_nocase_def c_tolower_def)

lemma proto_to_str_first:
  "\<exists>c r. proto_to_str pr = c # r \<and> \<not> c_isspace c \<and> c \<noteq> CHR ''!'' \<and> c \<noteq> CHR ''(''"
  by (cases pr) (simp_all add: c_isspace_def)

lemma drop_space_print_port [simp]:
  "dropWhile c_isspace (print_port pn @ r) = print_port pn @ r"
  using proto_to_str_first [of "fst pn"] by (auto simp: print_port_def)

lemma parse_port_step:
  assumes "snd pn < 2 ^ 31"
  shows "cfg_parse_loop alloc_ok negate (print_port pn @ r) ports =
    (case port_end negate r of
       Port_Finish \<Rightarrow> (0, Some (ports @ [port_of negate pn]))
     | Port_Error \<Rightarrow> (- 1, Some (ports @ [port_of negate pn]))
     | Port_Next p \<Rightarrow> cfg_parse_loop alloc_ok negate p (ports @ [port_of negate pn]))"
proof -
  let ?p = "dec (snd pn) @ CHR '')'' # r"
  have "match_proto (dropWhile c_isspace (print_port pn @ r)) = Some (fst pn, CHR ''('' # ?p)"
    by (simp add: match_proto_to_str) (simp add: print_port_def match_proto_to_str)
  moreover have "atoi ?p = int (snd pn)"
    using assms(1) by (intro atoi_dec) (simp_all add: c_isdigit_def)
  moreover have "CHR '')'' \<notin> set (dec (snd pn))"
    using dec_digits [of "CHR '')''" "snd pn"] by (auto simp: c_isdigit_def)
  then have "strchr ?p (CHR '')'') = Some (CHR '')'' # r)"
    by (rule strchr_append)
  ultimately show ?thesis
    by (subst cfg_parse_loop.simps) (simp add: c_isspace_def append_port_def alloc_ok_def port_of_def Let_def split: port_end.split)
qed

lemma skip_space_parse: "cfg_parse_loop alloc negate (CHR '' '' # p) ports = cfg_parse_loop alloc negate p ports"
  by (subst (1 2) cfg_parse_loop.simps) (simp add: c_isspace_def)

lemma parse_print_list:
  assumes "pns \<noteq> []" and "list_all (\<lambda>pn. snd pn < 2 ^ 31) pns"
    and "port_end negate r = Port_Finish"
  shows "cfg_parse_loop alloc_ok negate (print_list pns @ r) ports = (0, Some (ports @ map (port_of negate) pns))"
  using assms
proof (induction pns arbitrary: ports rule: print_list.induct)
  case (3 pn pn' pns)
  have "port_end negate ('', '' @ print_list (pn' # pns) @ r) = Port_Next ('' '' @ print_list (pn' # pns) @ r)"
    by (simp add: port_end_def c_isspace_def)
  then have "cfg_parse_loop alloc_ok negate (print_list (pn # pn' # pns) @ r) ports =
      cfg_parse_loop alloc_ok negate (print_list (pn' # pns) @ r) (ports @ [port_of negate pn])"
    using 3 parse_port_step [where pn = pn and ports = ports and negate = negate and r = "'', '' @ print_list (pn' # pns) @ r"]
    by (simp add: skip_space_parse)
  then show ?case using 3 by simp
qed (simp_all add: parse_port_step)

lemma print_list_first:
  "pns \<noteq> [] \<Longrightarrow> \<exists>c r. print_list pns = c # r \<and> \<not> c_isspace c \<and> c \<noteq> CHR ''!'' \<and> c \<noteq> CHR ''(''"
  using proto_to_str_first [of "fst (hd pns)"]
  by (cases pns rule: print_list.cases) (auto simp: print_port_def)

text \<open>What \<open>cfg_parse_ports\<close> reads is what was written: for every list of ports, allowed or
  negated, the text of the configuration file is accepted and appends exactly the listed protocols
  and ports, each with the flag of the list.\<close>

theorem ports_round_trip:
  assumes "pns \<noteq> []" and "list_all (\<lambda>pn. snd pn < 2 ^ 31) pns"
  shows "cfg_parse_ports alloc_ok ports (Some (print_ports negate pns)) =
    (0, Some (ports @ map (port_of negate) pns))"
proof -
  obtain c r where first: "print_list pns = c # r" "\<not> c_isspace c" "c \<noteq> CHR ''!''" "c \<noteq> CHR ''(''"
    using print_list_first [OF assms(1)] by auto
  show ?thesis
  proof (cases negate)
    case True
    have "\<not> c_isspace (CHR ''!'')" by (simp add: c_isspace_def)
    moreover have "port_end True '')'' = Port_Finish" by (simp add: port_end_def c_isspace_def)
    ultimately show ?thesis
      using True parse_print_list [OF assms, of True "'')''"] first
      by (simp add: cfg_parse_ports_def print_ports_def)
  next
    case False
    have "port_end False '''' = Port_Finish" by (simp add: port_end_def)
    then show ?thesis
      using False parse_print_list [OF assms, of False "''''"] first
      by (simp add: cfg_parse_ports_def print_ports_def)
  qed
qed

theorem ports_round_trip_witness:
  "print_ports True [(PROTO_TCP, 443), (PROTO_ICMPv6, 0)] = ''!(tcp(443), icmpv6(0))'' \<and>
   cfg_parse_ports alloc_ok [] (Some ''!(tcp(443), icmpv6(0))'') =
     (0, Some [\<lparr>fw_portno = 443, fw_protocol = PROTO_TCP, fw_negate = True\<rparr>,
               \<lparr>fw_portno = 0, fw_protocol = PROTO_ICMPv6, fw_negate = True\<rparr>])"
proof -
  have notation_eq: "print_ports True [(PROTO_TCP, 443), (PROTO_ICMPv6, 0)] = ''!(tcp(443), icmpv6(0))''"
    by code_simp
  have "cfg_parse_ports alloc_ok [] (Some (print_ports True [(PROTO_TCP, 443), (PROTO_ICMPv6, 0)])) =
      (0, Some ([] @ map (port_of True) [(PROTO_TCP, 443), (PROTO_ICMPv6, 0)]))"
    by (rule ports_round_trip) simp_all
  then show ?thesis unfolding notation_eq by (simp add: port_of_def)
qed

end
