(* ===== verification/SecModDb.thy ===== *)
theory SecModDb
  imports Htable CLib
begin

text \<open>
  The client entries of the security module: \<^verbatim>\<open>src/src/sec-mod.h\<close>, \<^verbatim>\<open>sec-mod-db.c\<close>, the
  virtual hosts of \<^verbatim>\<open>vhost.h\<close> and the module interfaces of \<^verbatim>\<open>sec-mod-auth.h\<close> and \<^verbatim>\<open>sec-mod-acct.h\<close>.

  A client entry is made when a worker starts an authentication, is found again by its session
  identifier (the cookie), and lives until it expires while no worker uses it. Authentication modules
  are records of functions over their context (the type \<open>'c\<close>), as the structs of function pointers in
  the source. Messages to the other processes and calls of the accounting module are logged in
  \<open>sent\<close>; \<open>send_msg\<close> gives the outcome of each send. \<open>hash_any\<close>, the random source, the printable
  session id and the clock are arguments.
\<close>

section \<open>Types\<close>

datatype ps_auth = PS_AUTH_INACTIVE | PS_AUTH_FAILED | PS_AUTH_INIT | PS_AUTH_CONT | PS_AUTH_COMPLETED

fun ps_num :: "ps_auth \<Rightarrow> nat" where
  "ps_num PS_AUTH_INACTIVE = 0"
| "ps_num PS_AUTH_FAILED = 1"
| "ps_num PS_AUTH_INIT = 2"
| "ps_num PS_AUTH_CONT = 3"
| "ps_num PS_AUTH_COMPLETED = 4"

lemma ps_num_eq_iff: "ps_num a = ps_num b \<longleftrightarrow> a = b"
  by (cases a; cases b) simp_all

instantiation ps_auth :: linorder
begin

definition less_eq_ps_auth :: "ps_auth \<Rightarrow> ps_auth \<Rightarrow> bool" where
  "less_eq_ps_auth a b \<longleftrightarrow> ps_num a \<le> ps_num b"

definition less_ps_auth :: "ps_auth \<Rightarrow> ps_auth \<Rightarrow> bool" where
  "less_ps_auth a b \<longleftrightarrow> ps_num a < ps_num b"

instance
  by standard (auto simp: less_eq_ps_auth_def less_ps_auth_def ps_num_eq_iff)

end

lemma ps_less_completed [simp]: "s < PS_AUTH_COMPLETED \<longleftrightarrow> s \<noteq> PS_AUTH_COMPLETED"
  by (cases s) (simp_all add: less_ps_auth_def)

abbreviation (input) REASON_USER_DISCONNECT :: u32 where "REASON_USER_DISCONNECT \<equiv> 2"
abbreviation (input) REASON_SERVER_DISCONNECT :: u32 where "REASON_SERVER_DISCONNECT \<equiv> 3"
abbreviation (input) REASON_SESSION_TIMEOUT :: u32 where "REASON_SESSION_TIMEOUT \<equiv> 7"
abbreviation (input) AUTH_TYPE_USERNAME_PASS :: u32 where "AUTH_TYPE_USERNAME_PASS \<equiv> 1"
abbreviation (input) AUTH_TYPE_CERTIFICATE :: u32 where "AUTH_TYPE_CERTIFICATE \<equiv> 8"
abbreviation (input) AUTH_SLACK_TIME :: time_t where "AUTH_SLACK_TIME \<equiv> 15"
abbreviation (input) SID_SIZE :: nat where "SID_SIZE \<equiv> 32"
abbreviation (input) MAX_USERNAME_SIZE :: nat where "MAX_USERNAME_SIZE \<equiv> 64"
abbreviation (input) MAX_GROUPNAME_SIZE :: nat where "MAX_GROUPNAME_SIZE \<equiv> 64"
abbreviation (input) MAX_AGENT_NAME :: nat where "MAX_AGENT_NAME \<equiv> 64"
abbreviation (input) MAX_IP_STR :: nat where "MAX_IP_STR \<equiv> 46"
abbreviation (input) MAX_GROUPS :: nat where "MAX_GROUPS \<equiv> 32"

record stats =
  bytes_in :: u64
  bytes_out :: u64
  uptime :: time_t

record acct_info =
  username :: string
  groupname :: string
  safe_id :: string
  remote_ip :: string
  user_agent :: string
  our_ip :: string
  ai_ipv4 :: string
  ai_ipv6 :: string
  acct_id :: u32

record common_auth_init =
  ci_username :: string
  ci_ip :: string
  ci_our_ip :: "string option"
  ci_user_agent :: "string option"
  ci_id :: u32

text \<open>\<open>auth_msg\<close> gives its return value, the message and the password counter; \<open>auth_group\<close> its return
  value and the group name it wrote; \<open>auth_user\<close> the user name as it left it.\<close>

record 'c auth_mod =
  allows_retries :: bool
  auth_init :: "common_auth_init \<Rightarrow> int \<times> 'c option"
  auth_msg :: "'c option \<Rightarrow> int \<times> string option \<times> u32"
  auth_pass :: "'c option \<Rightarrow> string \<Rightarrow> int \<times> 'c option"
  auth_group :: "('c option \<Rightarrow> string option \<Rightarrow> string \<Rightarrow> int \<times> string) option"
  auth_user :: "'c option \<Rightarrow> string \<Rightarrow> string"

record acct_mod =
  open_session :: "(u32 \<Rightarrow> acct_info \<Rightarrow> bytes \<Rightarrow> int) option"
  session_stats :: bool \<comment> \<open>whether the callback is there\<close>
  close_session :: bool

record 'c auth_method =
  enabled :: bool
  am_type :: u32
  amod :: "'c auth_mod option"

record 'c vhost =
  vh_name :: "string option"
  auth_methods :: "'c auth_method list"
  acct :: "acct_mod option"
  sup_config :: "(acct_info \<Rightarrow> int) option" \<comment> \<open>\<^verbatim>\<open>config_module->get_sup_config\<close>\<close>
  cookie_timeout :: time_t
  persistent_cookies :: bool
  predictable_ips :: bool
  vh_max_ban_score :: u32
  ban_points_wrong_password :: u32
  cert_user_oid :: "string option"
  cert_group_oid :: "string option"

record 'c client_entry =
  sid :: bytes
  auth_ctx :: "'c option"
  session_is_open :: bool
  in_use :: u32
  tls_auth_ok :: bool
  msg_str :: "string option"
  passwd_counter :: u32
  saved_stats :: stats
  cur_stats :: stats
  status :: ps_auth
  created :: time_t
  exptime :: time_t
  auth_type :: u32
  discon_reason :: u32
  acct_info :: acct_info
  req_group_name :: string
  cert_group_names :: "string list"
  cert_user_name :: string
  module :: "'c auth_mod option"
  ce_vhost :: "'c vhost"

record session_reply =
  sr_username :: string
  sr_groupname :: string
  sr_ip :: string
  sr_tls_auth_ok :: bool
  sr_vhost :: "string option"
  sr_ipv4_seed :: u32
  sr_sid :: bytes

datatype sec_msg =
  BanIp string u32 bytes
| AuthRepOk string "string option" bytes
| AuthRepFailed
| AuthRepMsg "string option" u32 bytes
| SessionFailed
| SessionOk session_reply
| CliStats u64 u64 "u32 option"
| AcctStats u32 acct_info stats
| AcctClose u32 acct_info stats u32

record 'c sec_mod =
  client_db :: "'c client_entry htable"
  vconfig :: "'c vhost list"
  auth_failures :: u64
  max_auth_time :: u32
  avg_auth_time :: u32
  total_authentications :: u32
  sent :: "sec_msg list"

section \<open>Virtual hosts\<close>

definition c_strcaseeq :: "string \<Rightarrow> string \<Rightarrow> bool" where
  "c_strcaseeq a b \<longleftrightarrow> map c_tolower a = map c_tolower b"

definition default_vhost :: "'c vhost list \<Rightarrow> 'c vhost" where
  "default_vhost vs = last vs"

fun find_vhost_loop :: "'c vhost list \<Rightarrow> string \<Rightarrow> 'c vhost option" where
  "find_vhost_loop [] name = None"
| "find_vhost_loop (v # vs) name =
     (case vh_name v of
        Some n \<Rightarrow> if c_strcaseeq n name then Some v else find_vhost_loop vs name
      | None \<Rightarrow> find_vhost_loop vs name)"

definition find_vhost :: "'c vhost list \<Rightarrow> string option \<Rightarrow> 'c vhost" where
  "find_vhost vs name =
     (case name of
        None \<Rightarrow> default_vhost vs
      | Some n \<Rightarrow> (case find_vhost_loop vs n of Some v \<Rightarrow> v | None \<Rightarrow> default_vhost vs))"

section \<open>The database\<close>

text \<open>\<open>oc_strlcpy\<close> into an array of \<open>n\<close> bytes.\<close>

definition strlcpy :: "nat \<Rightarrow> string \<Rightarrow> string" where
  "strlcpy n s = take (n - 1) s"

abbreviation (input) db_get :: "(bytes \<Rightarrow> u64) \<Rightarrow> 'c sec_mod \<Rightarrow> bytes \<Rightarrow> 'c client_entry option" where
  "db_get hash_any sec \<equiv> kt_get hash_any sid (client_db sec)"

definition find_client_entry :: "(bytes \<Rightarrow> u64) \<Rightarrow> 'c sec_mod \<Rightarrow> bytes \<Rightarrow> 'c client_entry option" where
  "find_client_entry hash_any sec s =
     htable_get (client_db sec) (hash_any s) (\<lambda>e. memcmp (sid e) s = 0)"

text \<open>A store through the pointer to an entry of the database.\<close>

definition put_entry :: "(bytes \<Rightarrow> u64) \<Rightarrow> 'c sec_mod \<Rightarrow> 'c client_entry \<Rightarrow> 'c sec_mod" where
  "put_entry hash_any sec e = sec\<lparr>client_db := kt_set hash_any sid (client_db sec) (sid e) e\<rparr>"

definition IS_CLIENT_ENTRY_EXPIRED :: "'c client_entry \<Rightarrow> time_t \<Rightarrow> bool" where
  "IS_CLIENT_ENTRY_EXPIRED e now \<longleftrightarrow> exptime e \<noteq> - 1 \<and> now \<ge> exptime e \<and> in_use e = 0"

definition zero_stats :: stats where "zero_stats = \<lparr>bytes_in = 0, bytes_out = 0, uptime = 0\<rparr>"

definition zero_acct :: acct_info where
  "zero_acct = \<lparr>username = [], groupname = [], safe_id = [], remote_ip = [], user_agent = [], our_ip = [],
     ai_ipv4 = [], ai_ipv6 = [], acct_id = 0\<rparr>"

text \<open>\<open>rnd i\<close> is the \<open>i\<close>-th answer of \<^verbatim>\<open>gnutls_rnd\<close>; the last component says that the identifier is
  still in use after all retries.\<close>

function gen_sid ::
    "(bytes \<Rightarrow> u64) \<Rightarrow> 'c sec_mod \<Rightarrow> (nat \<Rightarrow> bytes option) \<Rightarrow> nat \<Rightarrow> int \<Rightarrow> (bytes \<times> bool) option" where
  "gen_sid hash_any sec rnd i retries =
     (case rnd i of
        None \<Rightarrow> None
      | Some s \<Rightarrow>
          (let te = find_client_entry hash_any sec s in
           if te \<noteq> None \<and> retries \<ge> 0 then gen_sid hash_any sec rnd (i + 1) (retries - 1)
           else Some (s, te \<noteq> None)))"
  by pat_completeness auto
termination
  by (relation "measure (\<lambda>(h, s, r, i, retries). nat (retries + 1))") auto

declare gen_sid.simps [simp del]

definition new_client_entry ::
    "(bytes \<Rightarrow> u64) \<Rightarrow> (bytes \<Rightarrow> string) \<Rightarrow> (nat \<Rightarrow> bytes option) \<Rightarrow> bool \<Rightarrow> bool \<Rightarrow> time_t \<Rightarrow>
     'c sec_mod \<Rightarrow> 'c vhost \<Rightarrow> string \<Rightarrow> u32 \<Rightarrow> ('c client_entry \<times> 'c sec_mod) option" where
  "new_client_entry hash_any calc_safe_id rnd talloc_ok add_ok now sec vhost ip pid =
     (if \<not> talloc_ok then None
      else
        (case gen_sid hash_any sec rnd 0 3 of
           None \<Rightarrow> None
         | Some (s, used) \<Rightarrow>
             if used then None
             else
               (let e = \<lparr>sid = s, auth_ctx = None, session_is_open = False, in_use = 0, tls_auth_ok = False,
                      msg_str = None, passwd_counter = 0, saved_stats = zero_stats, cur_stats = zero_stats,
                      status = PS_AUTH_INACTIVE, created = now,
                      exptime = now + cookie_timeout vhost + AUTH_SLACK_TIME,
                      auth_type = 0, discon_reason = 0,
                      acct_info = zero_acct\<lparr>remote_ip := strlcpy MAX_IP_STR ip, acct_id := pid,
                        safe_id := calc_safe_id s\<rparr>,
                      req_group_name = [], cert_group_names = [], cert_user_name = [], module = None,
                      ce_vhost = vhost\<rparr>
                in if add_ok then Some (e, sec\<lparr>client_db := htable_add (client_db sec) (hash_any s) e\<rparr>)
                   else None)))"

text \<open>\<open>sec_auth_user_deinit\<close> of \<^verbatim>\<open>sec-mod-auth.c\<close>, which \<open>clean_entry\<close> calls; the entry is freed afterwards.\<close>

definition sec_auth_user_deinit :: "'c sec_mod \<Rightarrow> 'c client_entry \<Rightarrow> 'c sec_mod" where
  "sec_auth_user_deinit sec e =
     (case acct (ce_vhost e) of
        Some m \<Rightarrow>
          if close_session m \<and> session_is_open e
          then sec\<lparr>sent := sent sec @ [AcctClose (auth_type e) (acct_info e) (saved_stats e) (discon_reason e)]\<rparr>
          else sec
      | None \<Rightarrow> sec)"

definition clean_entry :: "'c sec_mod \<Rightarrow> 'c client_entry \<Rightarrow> 'c sec_mod" where
  "clean_entry sec e = sec_auth_user_deinit sec e"

definition cleanup_client_entries :: "time_t \<Rightarrow> 'c sec_mod \<Rightarrow> 'c sec_mod" where
  "cleanup_client_entries now sec =
     foldl clean_entry
       (sec\<lparr>client_db := htable_purge (client_db sec) (\<lambda>t. IS_CLIENT_ENTRY_EXPIRED t now)\<rparr>)
       (filter (\<lambda>t. IS_CLIENT_ENTRY_EXPIRED t now) (htable_objs (client_db sec)))"

definition del_client_entry :: "(bytes \<Rightarrow> u64) \<Rightarrow> 'c sec_mod \<Rightarrow> 'c client_entry \<Rightarrow> 'c sec_mod" where
  "del_client_entry hash_any sec e =
     clean_entry (sec\<lparr>client_db := kt_del hash_any sid (client_db sec) (sid e)\<rparr>) e"

definition expire_client_entry :: "(bytes \<Rightarrow> u64) \<Rightarrow> time_t \<Rightarrow> 'c sec_mod \<Rightarrow> 'c client_entry \<Rightarrow> 'c sec_mod" where
  "expire_client_entry hash_any now sec e =
     (let e = (if in_use e > 0 then e\<lparr>in_use := in_use e - 1\<rparr> else e);
          sec = put_entry hash_any sec e
      in if in_use e = 0 then
           if \<not> persistent_cookies (ce_vhost e) \<and>
              (discon_reason e = REASON_SERVER_DISCONNECT \<or> discon_reason e = REASON_SESSION_TIMEOUT \<or>
               (session_is_open e \<and> discon_reason e = REASON_USER_DISCONNECT))
           then del_client_entry hash_any sec e
           else if discon_reason e = REASON_USER_DISCONNECT then
             if \<not> persistent_cookies (ce_vhost e) \<or> now + AUTH_SLACK_TIME \<ge> exptime e
             then put_entry hash_any sec (e\<lparr>exptime := now + AUTH_SLACK_TIME\<rparr>) else sec
           else put_entry hash_any sec (e\<lparr>exptime := now + cookie_timeout (ce_vhost e) + AUTH_SLACK_TIME\<rparr>)
         else sec)"

section \<open>The database as a map\<close>

definition sec_wf :: "(bytes \<Rightarrow> u64) \<Rightarrow> 'c sec_mod \<Rightarrow> bool" where
  "sec_wf H sec \<longleftrightarrow> kt_inv H sid (client_db sec) \<and> list_all (\<lambda>(h, e). length (sid e) = SID_SIZE) (client_db sec)"

lemma htable_get_cong:
  "list_all (\<lambda>(h, e). P e = Q e) t \<Longrightarrow> htable_get t h P = htable_get t h Q"
  by (induction t) auto

lemma find_client_entry_get:
  assumes "sec_wf H sec" and "length s = SID_SIZE"
  shows "find_client_entry H sec s = db_get H sec s"
  unfolding find_client_entry_def kt_get_def
proof (rule htable_get_cong)
  show "list_all (\<lambda>(h, e). (memcmp (sid e) s = 0) = (sid e = s)) (client_db sec)"
    using assms by (auto simp: sec_wf_def list_all_iff memcmp_eq_0_iff)
qed

lemma db_get_sid: "sec_wf H sec \<Longrightarrow> db_get H sec k = Some e \<Longrightarrow> sid e = k"
  by (auto simp: sec_wf_def intro: kt_get_key)

lemma db_get_length: "sec_wf H sec \<Longrightarrow> db_get H sec k = Some e \<Longrightarrow> length k = SID_SIZE"
  unfolding sec_wf_def list_all_iff by (metis (mono_tags, lifting) case_prodD imageE kt_get_key kt_get_mem
      list.set_map prod.collapse)

lemma put_entry_get:
  assumes "sec_wf H sec" and "db_get H sec (sid e) \<noteq> None"
  shows "db_get H (put_entry H sec e) = (db_get H sec)(sid e \<mapsto> e)"
  using assms by (simp add: put_entry_def sec_wf_def kdb.lookup_store)

lemma put_entry_wf:
  assumes "sec_wf H sec" and "length (sid e) = SID_SIZE"
  shows "sec_wf H (put_entry H sec e)"
  using assms by (auto simp: put_entry_def sec_wf_def kdb.invar_store intro: list_all_kt_set)

lemma clean_entry_simps [simp]:
  "client_db (clean_entry sec e) = client_db sec" "vconfig (clean_entry sec e) = vconfig sec"
  by (simp_all add: clean_entry_def sec_auth_user_deinit_def split: option.split)

lemma foldl_clean_entry [simp]: "client_db (foldl clean_entry sec es) = client_db sec"
  by (induction es arbitrary: sec) simp_all

lemma sec_wf_cong: "client_db sec' = client_db sec \<Longrightarrow> sec_wf H sec' = sec_wf H sec"
  by (simp add: sec_wf_def)

lemma cleanup_get:
  assumes "sec_wf H sec"
  shows "db_get H (cleanup_client_entries now sec) k =
      (case db_get H sec k of None \<Rightarrow> None | Some e \<Rightarrow> if IS_CLIENT_ENTRY_EXPIRED e now then None else Some e)"
    and "sec_wf H (cleanup_client_entries now sec)"
  using assms by (simp_all add: cleanup_client_entries_def sec_wf_def kdb.lookup_purge kdb.invar_purge list_all_iff)

lemma del_client_entry_get:
  assumes "sec_wf H sec"
  shows "db_get H (del_client_entry H sec e) = (db_get H sec)(sid e := None)"
    and "sec_wf H (del_client_entry H sec e)"
  using assms by (simp_all add: del_client_entry_def sec_wf_def kdb.lookup_delete kdb.invar_delete list_all_kt_del)

lemma gen_sid_fresh: "gen_sid H sec rnd i r = Some (s, False) \<Longrightarrow> find_client_entry H sec s = None \<and> (\<exists>j. rnd j = Some s)"
proof (induction H sec rnd i r rule: gen_sid.induct)
  case (1 H sec rnd i r)
  show ?case
  proof (cases "rnd i")
    case None
    then show ?thesis using "1.prems" by (subst (asm) gen_sid.simps) simp
  next
    case (Some s')
    show ?thesis
    proof (cases "find_client_entry H sec s' \<noteq> None \<and> r \<ge> 0")
      case True
      then have "gen_sid H sec rnd (i + 1) (r - 1) = Some (s, False)"
        using "1.prems" Some by (subst (asm) gen_sid.simps) (auto simp: Let_def)
      then show ?thesis using "1.IH" [OF Some refl True] by blast
    next
      case False
      then show ?thesis using "1.prems" Some by (subst (asm) gen_sid.simps) (auto simp: Let_def split: if_splits)
    qed
  qed
qed

text \<open>A new entry is stored under an identifier that was not in use, and nothing else changes.\<close>

lemma new_client_entry_get:
  assumes wf: "sec_wf H sec" and rnd: "\<And>i s. rnd i = Some s \<Longrightarrow> length s = SID_SIZE"
    and new: "new_client_entry H safe rnd tok aok now sec vhost ip pid = Some (e, sec')"
  shows "db_get H sec (sid e) = None" and "db_get H sec' = (db_get H sec)(sid e \<mapsto> e)" and "sec_wf H sec'"
    and "length (sid e) = SID_SIZE" and "in_use e = 0" and "\<not> session_is_open e" and "status e = PS_AUTH_INACTIVE"
proof -
  obtain s where g: "gen_sid H sec rnd 0 3 = Some (s, False)"
    using new by (auto simp: new_client_entry_def split: if_splits option.splits)
  have fresh: "find_client_entry H sec s = None" and len: "length s = SID_SIZE"
    using gen_sid_fresh [OF g] rnd by auto
  have e: "sid e = s" "in_use e = 0" "\<not> session_is_open e" "status e = PS_AUTH_INACTIVE"
    and sec': "sec' = sec\<lparr>client_db := kt_add H sid (client_db sec) e\<rparr>"
    using new g by (auto simp: new_client_entry_def Let_def kt_add_def split: if_splits)
  have none: "db_get H sec (sid e) = None" using fresh find_client_entry_get [OF wf len] e by simp
  show "db_get H sec (sid e) = None" by (rule none)
  show "db_get H sec' = (db_get H sec)(sid e \<mapsto> e)"
    using wf none by (simp add: sec' sec_wf_def kdb.lookup_add)
  show "sec_wf H sec'"
    using wf none len e by (simp add: sec' sec_wf_def kdb.invar_add) (simp add: kt_add_def htable_add_def)
  show "length (sid e) = SID_SIZE" "in_use e = 0" "\<not> session_is_open e" "status e = PS_AUTH_INACTIVE"
    using e len by simp_all
qed

end
