(* ===== verification/SecModAuth.thy ===== *)
theory SecModAuth
  imports SecModDb
begin

text \<open>
  Authentication and sessions in the security module, \<^verbatim>\<open>src/src/sec-mod-auth.c\<close>: the requests of the
  workers (start and continue an authentication) and of the main process (open and close a session,
  statistics, the answer to a ban report), each as the whole handler with every early return.

  The environment of a request is the record \<open>sec_env\<close>: the outcome of \<open>send_msg\<close> per message, the clock,
  the random source and the allocations. A handler returns its integer result and the new state.
\<close>

section \<open>Environment and messages\<close>

record sec_env =
  hash_any :: "bytes \<Rightarrow> u64"
  send_msg :: "sec_msg \<Rightarrow> int"
  now :: time_t \<comment> \<open>the first reading of the clock\<close>
  now_later :: time_t \<comment> \<open>the second one, where a handler has two\<close>
  calc_safe_id :: "bytes \<Rightarrow> string"
  rnd_sid :: "nat \<Rightarrow> bytes option"
  rnd_seed :: "u32 option"
  name_hash :: "string \<Rightarrow> u32"
  alloc_ok :: bool \<comment> \<open>\<^verbatim>\<open>talloc\<close>\<close>
  add_ok :: bool \<comment> \<open>\<^verbatim>\<open>htable_add\<close>\<close>

definition sec_send :: "sec_env \<Rightarrow> sec_msg \<Rightarrow> 'c sec_mod \<Rightarrow> int \<times> 'c sec_mod" where
  "sec_send env m sec =
     (send_msg env m, if send_msg env m \<ge> 0 then sec\<lparr>sent := sent sec @ [m]\<rparr> else sec)"

definition sec_mod_add_score_to_ip :: "sec_env \<Rightarrow> 'c sec_mod \<Rightarrow> 'c client_entry \<Rightarrow> string \<Rightarrow> u32 \<Rightarrow> 'c sec_mod" where
  "sec_mod_add_score_to_ip env sec e ip points =
     (if vh_max_ban_score (ce_vhost e) = 0 then sec
      else if \<not> alloc_ok env then sec
      else snd (sec_send env (BanIp ip points (sid e)) sec))"

text \<open>\<^verbatim>\<open>avg * (total - 1) + secs\<close> is computed with \<^verbatim>\<open>uint32_t\<close> operands and a 64-bit \<^verbatim>\<open>time_t\<close>: the product
  wraps at 32 bits, the sum does not.\<close>

definition update_auth_time_stats :: "'c sec_mod \<Rightarrow> time_t \<Rightarrow> 'c sec_mod" where
  "update_auth_time_stats sec secs =
     (if secs < 0 then sec
      else
        (let total = total_authentications sec + 1 in
         if total = 0 then sec\<lparr>total_authentications := 0, avg_auth_time := 0, max_auth_time := 0\<rparr>
         else sec\<lparr>total_authentications := total,
                max_auth_time := (if secs > uint (max_auth_time sec) then word_of_int secs else max_auth_time sec),
                avg_auth_time :=
                  word_of_int ((uint (avg_auth_time sec * (total - 1)) + secs) div uint total)\<rparr>))"

text \<open>The result also carries the entry, whose message was consumed.\<close>

definition send_sec_auth_reply ::
    "sec_env \<Rightarrow> 'c sec_mod \<Rightarrow> 'c client_entry \<Rightarrow> bool \<Rightarrow> int \<times> 'c client_entry \<times> 'c sec_mod" where
  "send_sec_auth_reply env sec entry rep_ok =
     (let (ret, sec) =
        (if rep_ok
         then sec_send env (AuthRepOk (username (acct_info entry)) (msg_str entry) (sid entry))
                (update_auth_time_stats sec (now env - created entry))
         else sec_send env AuthRepFailed (sec\<lparr>auth_failures := auth_failures sec + 1\<rparr>))
      in if ret < 0 then (ret, entry, sec) else (0, entry\<lparr>msg_str := None\<rparr>, sec))"

definition send_sec_auth_reply_msg ::
    "sec_env \<Rightarrow> 'c sec_mod \<Rightarrow> 'c client_entry \<Rightarrow> int \<times> 'c client_entry \<times> 'c sec_mod" where
  "send_sec_auth_reply_msg env sec e =
     (let (ret, sec) = sec_send env (AuthRepMsg (msg_str e) (passwd_counter e) (sid e)) sec
      in (ret, e\<lparr>msg_str := None\<rparr>, sec))"

section \<open>Users and groups\<close>

abbreviation (input) has_type :: "'c client_entry \<Rightarrow> u32 \<Rightarrow> bool" where
  "has_type e t \<equiv> auth_type e AND t \<noteq> 0"

definition check_cert_user_group_status :: "'c client_entry \<Rightarrow> int \<times> 'c client_entry" where
  "check_cert_user_group_status e =
     (let c = ce_vhost e; ai = acct_info e in
      if has_type e AUTH_TYPE_CERTIFICATE then
        if \<not> tls_auth_ok e then (- 1, e)
        else if username ai = [] \<and> cert_user_oid c \<noteq> None then
          if cert_user_name e = [] then (- 1, e)
          else
            (let ai = ai\<lparr>username := strlcpy (MAX_USERNAME_SIZE * 2) (cert_user_name e)\<rparr>;
                 ai = (if cert_group_names e \<noteq> [] \<and> cert_group_oid c \<noteq> None \<and> groupname ai = []
                       then ai\<lparr>groupname := strlcpy MAX_GROUPNAME_SIZE (hd (cert_group_names e))\<rparr> else ai)
             in (0, e\<lparr>acct_info := ai\<rparr>))
        else if cert_user_oid c \<noteq> None \<and> cert_user_name e \<noteq> [] \<and> username ai \<noteq> cert_user_name e then (- 1, e)
        else if cert_group_oid c \<noteq> None \<and> groupname ai \<notin> set (cert_group_names e) then (- 1, e)
        else (0, e)
      else (0, e))"

definition check_group :: "'c client_entry \<Rightarrow> int \<times> 'c client_entry" where
  "check_group e =
     (let req_group = (if req_group_name e \<noteq> [] then Some (req_group_name e) else None);
          (ret :: int, e) =
            (case module e of
               Some m \<Rightarrow>
                 (case auth_group m of
                    Some f \<Rightarrow>
                      (let (ret, g) = f (auth_ctx e) req_group (groupname (acct_info e)) in
                       if ret \<noteq> 0 then (- 1, e\<lparr>acct_info := (acct_info e)\<lparr>groupname := g\<rparr>\<rparr>)
                       else (0, e\<lparr>acct_info := (acct_info e)\<lparr>groupname := take (MAX_GROUPNAME_SIZE - 1) g\<rparr>\<rparr>))
                  | None \<Rightarrow> (0, e))
             | None \<Rightarrow> (0, e))
      in if ret < 0 then (- 1, e)
         else
           (let (ret :: int, e) =
              (if has_type e AUTH_TYPE_CERTIFICATE \<and> groupname (acct_info e) = [] \<and> req_group \<noteq> None \<and>
                  cert_group_oid (ce_vhost e) \<noteq> None then
                 (if the req_group \<in> set (cert_group_names e)
                  then (0, e\<lparr>acct_info := (acct_info e)\<lparr>groupname := strlcpy MAX_GROUPNAME_SIZE (the req_group)\<rparr>\<rparr>)
                  else (- 1, e))
               else (0, e))
            in if ret < 0 then (- 1, e)
               else
                 (let (ret, e) = check_cert_user_group_status e
                  in if ret < 0 then (- 1, e) else (0, e))))"

section \<open>The outcome of an authentication step\<close>

definition auth_fail :: "sec_env \<Rightarrow> 'c sec_mod \<Rightarrow> 'c client_entry \<Rightarrow> 'c sec_mod" where
  "auth_fail env sec e = put_entry (hash_any env) sec (e\<lparr>status := PS_AUTH_FAILED\<rparr>)"

text \<open>The prompt of the module: its return value, \<^verbatim>\<open>passwd_retries\<close>, and the entry with the message.\<close>

definition auth_res_msg :: "'c client_entry \<Rightarrow> int \<Rightarrow> int \<times> bool \<times> 'c client_entry" where
  "auth_res_msg e result =
     (case module e of
        Some m \<Rightarrow>
          if result = ERR_AUTH_CONTINUE \<or> result = 0 then
            (let (ret, msg, counter) = auth_msg m (auth_ctx e) in
             if ret < 0 then (ret, True, e)
             else (0, \<not> passwd_counter e < counter, e\<lparr>msg_str := msg, passwd_counter := counter\<rparr>))
          else (0, True, e)
      | None \<Rightarrow> (0, True, e))"

definition auth_res_continue :: "sec_env \<Rightarrow> 'c sec_mod \<Rightarrow> 'c client_entry \<Rightarrow> bool \<Rightarrow> int \<times> 'c sec_mod" where
  "auth_res_continue env sec e passwd_retries =
     (let sec = (if status e \<noteq> PS_AUTH_INIT \<and> (case module e of Some m \<Rightarrow> allows_retries m | None \<Rightarrow> False) \<and>
                    passwd_retries
                 then sec_mod_add_score_to_ip env sec e (remote_ip (acct_info e))
                        (ban_points_wrong_password (ce_vhost e))
                 else sec);
          (ret, e, sec) = send_sec_auth_reply_msg env sec e
      in if ret < 0 then (ret, auth_fail env sec e) else (0, put_entry (hash_any env) sec e))"

definition auth_res_complete :: "sec_env \<Rightarrow> 'c sec_mod \<Rightarrow> 'c client_entry \<Rightarrow> int \<times> 'c sec_mod" where
  "auth_res_complete env sec e =
     (let (ret, e) = check_group e in
      if ret < 0 then (ret, auth_fail env sec e)
      else
        (let e = e\<lparr>status := PS_AUTH_COMPLETED\<rparr>;
             e = (case module e of
                    Some m \<Rightarrow> e\<lparr>acct_info := (acct_info e)\<lparr>username :=
                      take (MAX_USERNAME_SIZE * 2 - 1) (auth_user m (auth_ctx e) (username (acct_info e)))\<rparr>\<rparr>
                  | None \<Rightarrow> e);
             (ret, e, sec) = send_sec_auth_reply env sec e True
         in if ret < 0 then (ret, auth_fail env sec e) else (0, put_entry (hash_any env) sec e)))"

definition auth_res_failed :: "sec_env \<Rightarrow> 'c sec_mod \<Rightarrow> 'c client_entry \<Rightarrow> int \<Rightarrow> int \<times> 'c sec_mod" where
  "auth_res_failed env sec e result =
     (let e = e\<lparr>status := PS_AUTH_FAILED\<rparr>;
          sec = sec_mod_add_score_to_ip env sec e (remote_ip (acct_info e)) (ban_points_wrong_password (ce_vhost e));
          (ret, e, sec) = send_sec_auth_reply env sec e False
      in (if ret < 0 then ret else if result < 0 then result else ERR_BAD_COMMAND, put_entry (hash_any env) sec e))"

definition handle_sec_auth_res ::
    "sec_env \<Rightarrow> 'c sec_mod \<Rightarrow> 'c client_entry \<Rightarrow> int \<Rightarrow> int \<times> 'c sec_mod" where
  "handle_sec_auth_res env sec e result =
     (let (ret, passwd_retries, e) = auth_res_msg e result in
      if ret < 0 then (ret, auth_fail env sec e)
      else if result = ERR_AUTH_CONTINUE then auth_res_continue env sec e passwd_retries
      else if result = 0 \<and> status e \<noteq> PS_AUTH_FAILED then auth_res_complete env sec e
      else auth_res_failed env sec e result)"

section \<open>Requests of the workers\<close>

record auth_init_req =
  ir_tls_auth_ok :: bool
  ir_user_name :: "string option"
  ir_group_name :: "string option"
  ir_cert_user_name :: "string option"
  ir_cert_group_names :: "string list"
  ir_ip :: string
  ir_auth_type :: u32
  ir_our_ip :: "string option"
  ir_user_agent :: "string option"
  ir_vhost :: "string option"

fun set_module_loop :: "'c auth_method list \<Rightarrow> 'c client_entry \<Rightarrow> u32 \<Rightarrow> int \<times> 'c client_entry" where
  "set_module_loop [] e t = (- 1, e)"
| "set_module_loop (m # ms) e t =
     (if enabled m \<and> am_type m AND t = t then (0, e\<lparr>module := amod m, auth_type := am_type m\<rparr>)
      else set_module_loop ms e t)"

definition set_module :: "'c vhost \<Rightarrow> 'c client_entry \<Rightarrow> u32 \<Rightarrow> int \<times> 'c client_entry" where
  "set_module vhost e t = (if t = 0 then (- 1, e) else set_module_loop (auth_methods vhost) e t)"

definition opt_copy :: "nat \<Rightarrow> string option \<Rightarrow> string \<Rightarrow> string" where
  "opt_copy n s old = (case s of Some s \<Rightarrow> strlcpy n s | None \<Rightarrow> old)"

definition handle_sec_auth_init ::
    "sec_env \<Rightarrow> 'c sec_mod \<Rightarrow> auth_init_req \<Rightarrow> u32 \<Rightarrow> int \<times> 'c sec_mod" where
  "handle_sec_auth_init env sec req pid =
     (let vhost = find_vhost (vconfig sec) (ir_vhost req) in
      case new_client_entry (hash_any env) (calc_safe_id env) (rnd_sid env) (alloc_ok env) (add_ok env) (now env)
             sec vhost (ir_ip req) pid of
        None \<Rightarrow> (- 1, sec)
      | Some (e, sec) \<Rightarrow>
          (let (ret, e) = set_module vhost e (ir_auth_type req) in
           if ret < 0 then handle_sec_auth_res env sec e ret
           else
             (let (ret, e) =
                (case module e of
                   Some m \<Rightarrow>
                     (let (ret, ctx) = auth_init m \<lparr>ci_username = (case ir_user_name req of Some u \<Rightarrow> u | None \<Rightarrow> []),
                            ci_ip = ir_ip req, ci_our_ip = ir_our_ip req, ci_user_agent = ir_user_agent req, ci_id = pid\<rparr>
                      in (ret, e\<lparr>auth_ctx := ctx\<rparr>))
                 | None \<Rightarrow> (0, e));
                  need_continue = (ret = ERR_AUTH_CONTINUE)
              in if \<not> need_continue \<and> ret < 0 then handle_sec_auth_res env sec e ret
                 else
                   (let ai = acct_info e;
                        ai = ai\<lparr>user_agent := opt_copy MAX_AGENT_NAME (ir_user_agent req) (user_agent ai),
                               username := opt_copy (MAX_USERNAME_SIZE * 2) (ir_user_name req) (username ai),
                               our_ip := opt_copy MAX_IP_STR (ir_our_ip req) (our_ip ai)\<rparr>;
                        e = e\<lparr>tls_auth_ok := ir_tls_auth_ok req, acct_info := ai,
                              req_group_name := opt_copy MAX_GROUPNAME_SIZE (ir_group_name req) (req_group_name e),
                              cert_user_name := opt_copy MAX_USERNAME_SIZE (ir_cert_user_name req) (cert_user_name e),
                              cert_group_names := take MAX_GROUPS (ir_cert_group_names req),
                              status := PS_AUTH_INIT\<rparr>
                    in handle_sec_auth_res env sec e (if need_continue then ERR_AUTH_CONTINUE else 0)))))"

definition handle_sec_auth_cont ::
    "sec_env \<Rightarrow> 'c sec_mod \<Rightarrow> bytes \<Rightarrow> string option \<Rightarrow> int \<times> 'c sec_mod" where
  "handle_sec_auth_cont env sec req_sid password =
     (if length req_sid \<noteq> SID_SIZE then (- 1, sec)
      else
        (case find_client_entry (hash_any env) sec req_sid of
           None \<Rightarrow> (- 1, sec)
         | Some e \<Rightarrow>
             if status e \<noteq> PS_AUTH_INIT \<and> status e \<noteq> PS_AUTH_CONT then handle_sec_auth_res env sec e (- 1)
             else
               (case (password, module e) of
                  (Some pass, Some m) \<Rightarrow>
                    (let (ret, ctx) = auth_pass m (auth_ctx e) pass;
                         e = e\<lparr>status := PS_AUTH_CONT, auth_ctx := ctx\<rparr>
                     in handle_sec_auth_res env sec e ret)
                | _ \<Rightarrow> handle_sec_auth_res env sec e (- 1))))"

section \<open>Requests of the main process\<close>

definition send_failed_session_open_reply :: "sec_env \<Rightarrow> 'c sec_mod \<Rightarrow> int \<times> 'c sec_mod" where
  "send_failed_session_open_reply env sec =
     (if \<not> alloc_ok env then (ERR_BAD_COMMAND, sec)
      else
        (let (ret, sec) = sec_send env SessionFailed sec
         in (if ret < 0 then ERR_BAD_COMMAND else ret, sec)))"

record open_req =
  or_sid :: bytes
  or_ipv4 :: "string option"
  or_ipv6 :: "string option"

text \<open>The addresses of the request, and the decision of the accounting module.\<close>

definition session_addrs :: "open_req \<Rightarrow> 'c client_entry \<Rightarrow> 'c client_entry" where
  "session_addrs req e =
     e\<lparr>acct_info := (acct_info e)\<lparr>ai_ipv4 := opt_copy MAX_IP_STR (or_ipv4 req) (ai_ipv4 (acct_info e)),
         ai_ipv6 := opt_copy MAX_IP_STR (or_ipv6 req) (ai_ipv6 (acct_info e))\<rparr>\<rparr>"

definition acct_open :: "bytes \<Rightarrow> 'c client_entry \<Rightarrow> int" where
  "acct_open req_sid e =
     (case acct (ce_vhost e) of
        Some a \<Rightarrow>
          (case open_session a of
             Some f \<Rightarrow> if session_is_open e then 0 else f (auth_type e) (acct_info e) req_sid
           | None \<Rightarrow> 0)
      | None \<Rightarrow> 0)"

text \<open>The part after \<^verbatim>\<open>e->session_is_open = 1\<close>.\<close>

definition session_start :: "sec_env \<Rightarrow> 'c sec_mod \<Rightarrow> 'c client_entry \<Rightarrow> int \<times> 'c sec_mod" where
  "session_start env sec e =
     (let ai = acct_info e;
          seed = (if predictable_ips (ce_vhost e) then Some (name_hash env (username ai)) else rnd_seed env)
      in case seed of
           None \<Rightarrow> (- 1, sec)
         | Some seed \<Rightarrow>
             if \<not> alloc_ok env then (ERR_BAD_COMMAND, sec)
             else if (case sup_config (ce_vhost e) of Some f \<Rightarrow> f ai < 0 | None \<Rightarrow> False)
             then send_failed_session_open_reply env sec
             else
               (let (ret, sec) = sec_send env (SessionOk \<lparr>sr_username = username ai, sr_groupname = groupname ai,
                      sr_ip = remote_ip ai, sr_tls_auth_ok = tls_auth_ok e, sr_vhost = vh_name (ce_vhost e),
                      sr_ipv4_seed = seed, sr_sid = sid e\<rparr>) sec
                in if ret < 0 then (ERR_BAD_COMMAND, sec)
                   else (0, put_entry (hash_any env) sec
                              (e\<lparr>exptime := now_later env + cookie_timeout (ce_vhost e) + AUTH_SLACK_TIME,
                                 in_use := in_use e + 1\<rparr>))))"

definition handle_secm_session_open_cmd :: "sec_env \<Rightarrow> 'c sec_mod \<Rightarrow> open_req \<Rightarrow> int \<times> 'c sec_mod" where
  "handle_secm_session_open_cmd env sec req =
     (if length (or_sid req) \<noteq> SID_SIZE then send_failed_session_open_reply env sec
      else
        (case find_client_entry (hash_any env) sec (or_sid req) of
           None \<Rightarrow> send_failed_session_open_reply env sec
         | Some e \<Rightarrow>
             if status e \<noteq> PS_AUTH_COMPLETED then send_failed_session_open_reply env sec
             else if IS_CLIENT_ENTRY_EXPIRED e (now env)
             then send_failed_session_open_reply env (auth_fail env sec e)
             else
               (let e = session_addrs req e in
                if acct_open (or_sid req) e < 0 then send_failed_session_open_reply env (auth_fail env sec e)
                else
                  (let e = e\<lparr>session_is_open := True\<rparr>
                   in session_start env (put_entry (hash_any env) sec e) e))))"

definition stats_add_to :: "stats \<Rightarrow> stats \<Rightarrow> stats" where
  "stats_add_to a b = \<lparr>bytes_in = bytes_in a + bytes_in b, bytes_out = bytes_out a + bytes_out b,
     uptime = uptime a + uptime b\<rparr>"

record close_req =
  cr_sid :: bytes
  cr_uptime :: "u32 option"
  cr_bytes_in :: "u64 option"
  cr_bytes_out :: "u64 option"

definition raise_to :: "'a::linorder option \<Rightarrow> 'a \<Rightarrow> 'a" where
  "raise_to r x = (case r of Some v \<Rightarrow> if v > x then v else x | None \<Rightarrow> x)"

definition handle_secm_session_close_cmd :: "sec_env \<Rightarrow> 'c sec_mod \<Rightarrow> close_req \<Rightarrow> int \<times> 'c sec_mod" where
  "handle_secm_session_close_cmd env sec req =
     (if length (cr_sid req) \<noteq> SID_SIZE then (ERR_BAD_COMMAND, sec)
      else
        (case find_client_entry (hash_any env) sec (cr_sid req) of
           None \<Rightarrow> sec_send env (CliStats 0 0 None) sec
         | Some e \<Rightarrow>
             if status e < PS_AUTH_COMPLETED then sec_send env (CliStats 0 0 None) sec
             else
               (let st = (cur_stats e)\<lparr>uptime := raise_to (map_option uint (cr_uptime req)) (uptime (cur_stats e)),
                      bytes_in := raise_to (cr_bytes_in req) (bytes_in (cur_stats e)),
                      bytes_out := raise_to (cr_bytes_out req) (bytes_out (cur_stats e))\<rparr>;
                    e = e\<lparr>cur_stats := st\<rparr>;
                    sec = put_entry (hash_any env) sec e;
                    (ret, sec) = sec_send env (CliStats (bytes_in st) (bytes_out st) (Some (discon_reason e))) sec
                in if ret < 0 then (ERR_BAD_COMMAND, sec)
                   else
                     (let e = e\<lparr>saved_stats := stats_add_to (saved_stats e) (cur_stats e), cur_stats := zero_stats\<rparr>
                      in (0, expire_client_entry (hash_any env) (now env) (put_entry (hash_any env) sec e) e)))))"

definition handle_sec_auth_ban_ip_reply :: "sec_env \<Rightarrow> 'c sec_mod \<Rightarrow> bytes \<Rightarrow> bool \<Rightarrow> 'c sec_mod" where
  "handle_sec_auth_ban_ip_reply env sec msg_sid rep_ok =
     (if length msg_sid \<noteq> SID_SIZE then sec
      else
        (case find_client_entry (hash_any env) sec msg_sid of
           None \<Rightarrow> sec
         | Some e \<Rightarrow> if \<not> rep_ok then put_entry (hash_any env) sec (e\<lparr>status := PS_AUTH_FAILED\<rparr>) else sec))"

record stats_req =
  st_sid :: bytes
  st_bytes_in :: u64
  st_bytes_out :: u64
  st_uptime :: u32
  st_discon_reason :: "u32 option"
  st_remote_ip :: "string option"
  st_ipv4 :: "string option"
  st_ipv6 :: "string option"

definition handle_sec_auth_stats_cmd :: "sec_env \<Rightarrow> 'c sec_mod \<Rightarrow> stats_req \<Rightarrow> u32 \<Rightarrow> int \<times> 'c sec_mod" where
  "handle_sec_auth_stats_cmd env sec req pid =
     (if length (st_sid req) \<noteq> SID_SIZE then (- 1, sec)
      else
        (case find_client_entry (hash_any env) sec (st_sid req) of
           None \<Rightarrow> (- 1, sec)
         | Some e \<Rightarrow>
             if status e \<noteq> PS_AUTH_COMPLETED then (- 1, sec)
             else
               (let st = (cur_stats e)\<lparr>bytes_in := raise_to (Some (st_bytes_in req)) (bytes_in (cur_stats e)),
                      bytes_out := raise_to (Some (st_bytes_out req)) (bytes_out (cur_stats e)),
                      uptime := raise_to (Some (uint (st_uptime req))) (uptime (cur_stats e))\<rparr>;
                    e = e\<lparr>cur_stats := st,
                          discon_reason := (case st_discon_reason req of Some r \<Rightarrow> if r \<noteq> 0 then r else discon_reason e
                                            | None \<Rightarrow> discon_reason e),
                          acct_info := (acct_info e)\<lparr>acct_id := pid\<rparr>\<rparr>
                in if (case acct (ce_vhost e) of Some a \<Rightarrow> \<not> session_stats a | None \<Rightarrow> True)
                   then (0, put_entry (hash_any env) sec e)
                   else
                     (let totals = stats_add_to (cur_stats e) (saved_stats e);
                          ai = acct_info e;
                          e = e\<lparr>acct_info := ai\<lparr>remote_ip := opt_copy MAX_IP_STR (st_remote_ip req) (remote_ip ai),
                                ai_ipv4 := opt_copy MAX_IP_STR (st_ipv4 req) (ai_ipv4 ai),
                                ai_ipv6 := opt_copy MAX_IP_STR (st_ipv6 req) (ai_ipv6 ai)\<rparr>\<rparr>;
                          sec = put_entry (hash_any env) sec e
                      in (0, sec\<lparr>sent := sent sec @ [AcctStats (auth_type e) (acct_info e) totals]\<rparr>)))))"

section \<open>What the handlers do to the entries\<close>

lemma sec_send_db [simp]: "client_db (snd (sec_send env m sec)) = client_db sec"
  by (simp add: sec_send_def)

lemma add_score_db [simp]: "client_db (sec_mod_add_score_to_ip env sec e ip points) = client_db sec"
  by (simp add: sec_mod_add_score_to_ip_def)

lemma update_auth_time_db [simp]: "client_db (update_auth_time_stats sec secs) = client_db sec"
  by (simp add: update_auth_time_stats_def Let_def)

text \<open>What an authentication step leaves of an entry.\<close>

definition keeps :: "'c client_entry \<Rightarrow> 'c client_entry \<Rightarrow> bool" where
  "keeps e e' \<longleftrightarrow> sid e' = sid e \<and> in_use e' = in_use e \<and> session_is_open e' = session_is_open e \<and>
     tls_auth_ok e' = tls_auth_ok e \<and> auth_type e' = auth_type e \<and> created e' = created e \<and>
     saved_stats e' = saved_stats e \<and> cur_stats e' = cur_stats e"

text \<open>A login with a certificate method needs the certificate.\<close>

definition cert_ok :: "'c client_entry \<Rightarrow> bool" where
  "cert_ok e \<longleftrightarrow> (has_type e AUTH_TYPE_CERTIFICATE \<longrightarrow> tls_auth_ok e)"

lemma keeps_refl [simp]: "keeps e e"
  by (simp add: keeps_def)

lemma keeps_trans: "keeps a b \<Longrightarrow> keeps b c \<Longrightarrow> keeps a c"
  by (simp add: keeps_def)

lemma keeps_upd [simp]:
  "keeps e (e'\<lparr>status := s\<rparr>) = keeps e e'" "keeps e (e'\<lparr>msg_str := m\<rparr>) = keeps e e'"
  "keeps e (e'\<lparr>passwd_counter := c\<rparr>) = keeps e e'" "keeps e (e'\<lparr>acct_info := ai\<rparr>) = keeps e e'"
  "keeps e (e'\<lparr>auth_ctx := x\<rparr>) = keeps e e'"
  by (simp_all add: keeps_def)

lemma cert_ok_keeps: "keeps e e' \<Longrightarrow> cert_ok e' = cert_ok e"
  by (simp add: keeps_def cert_ok_def)

lemma check_cert_keeps:
  "keeps e (snd (check_cert_user_group_status e)) \<and> status (snd (check_cert_user_group_status e)) = status e"
  by (simp add: check_cert_user_group_status_def Let_def)

lemma check_cert_ok: "fst (check_cert_user_group_status e) = 0 \<Longrightarrow> cert_ok e"
  by (auto simp: check_cert_user_group_status_def Let_def cert_ok_def split: if_splits)

lemma check_cert_ret: "fst (check_cert_user_group_status e) \<in> {0, - 1}"
  by (simp add: check_cert_user_group_status_def Let_def)

lemma check_group_keeps: "keeps e (snd (check_group e)) \<and> status (snd (check_group e)) = status e"
proof -
  have *: "keeps e (snd (check_cert_user_group_status e')) \<and> status (snd (check_cert_user_group_status e')) = status e"
    if "keeps e e'" "status e' = status e" for e'
    using check_cert_keeps [of e'] keeps_trans [OF that(1)] that(2) by simp
  show ?thesis
    unfolding check_group_def Let_def
    by (auto simp: split_beta * split: option.splits)
qed

lemma check_group_cert_ok: "fst (check_group e) = 0 \<Longrightarrow> cert_ok e"
proof -
  have *: "\<not> fst (check_cert_user_group_status e') < 0 \<Longrightarrow> keeps e e' \<Longrightarrow> cert_ok e" for e'
    using check_cert_ret [of e'] check_cert_ok [of e'] cert_ok_keeps [of e e'] by auto
  assume "fst (check_group e) = 0"
  then show ?thesis
    unfolding check_group_def Let_def
    by (auto simp: split_beta dest: * split: option.splits if_splits)
qed

lemma check_group_ret: "fst (check_group e) \<in> {0, - 1}"
  by (auto simp: check_group_def Let_def split_beta)

lemma send_sec_auth_reply_effect:
  "client_db (snd (snd (send_sec_auth_reply env sec e b))) = client_db sec"
  "keeps e (fst (snd (send_sec_auth_reply env sec e b)))"
  "status (fst (snd (send_sec_auth_reply env sec e b))) = status e"
  by (simp_all add: send_sec_auth_reply_def Let_def split_beta)

lemma send_sec_auth_reply_msg_effect:
  "client_db (snd (snd (send_sec_auth_reply_msg env sec e))) = client_db sec"
  "keeps e (fst (snd (send_sec_auth_reply_msg env sec e)))"
  "status (fst (snd (send_sec_auth_reply_msg env sec e))) = status e"
  by (simp_all add: send_sec_auth_reply_msg_def Let_def split_beta)

definition res_status :: "int \<Rightarrow> 'c client_entry \<Rightarrow> 'c client_entry \<Rightarrow> bool" where
  "res_status result e e' \<longleftrightarrow> status e' = PS_AUTH_FAILED \<or>
     (result = ERR_AUTH_CONTINUE \<and> status e' = status e) \<or>
     (result = 0 \<and> status e \<noteq> PS_AUTH_FAILED \<and> status e' = PS_AUTH_COMPLETED \<and> cert_ok e')"

text \<open>A request on the entry \<open>e\<close> with result \<open>r\<close> stores a version of it and changes nothing else.\<close>

definition stores :: "sec_env \<Rightarrow> 'c sec_mod \<Rightarrow> 'c client_entry \<Rightarrow> int \<Rightarrow> int \<times> 'c sec_mod \<Rightarrow> bool" where
  "stores env sec e result r \<longleftrightarrow> (\<exists>sec1 e'. snd r = put_entry (hash_any env) sec1 e' \<and>
     client_db sec1 = client_db sec \<and> keeps e e' \<and> res_status result e e')"

lemma storesI:
  "client_db sec1 = client_db sec \<Longrightarrow> keeps e e' \<Longrightarrow> res_status result e e' \<Longrightarrow>
     stores env sec e result (ret, put_entry (hash_any env) sec1 e')"
  by (auto simp: stores_def)

lemma stores_fail:
  "client_db sec1 = client_db sec \<Longrightarrow> keeps e e' \<Longrightarrow> stores env sec e result (ret, auth_fail env sec1 e')"
  unfolding auth_fail_def by (rule storesI) (simp_all add: res_status_def)

lemma auth_res_continue_stores: "stores env sec e ERR_AUTH_CONTINUE (auth_res_continue env sec e b)"
  using send_sec_auth_reply_msg_effect [where env = env and e = e]
  unfolding auth_res_continue_def Let_def split_beta
  by (auto simp: res_status_def intro!: storesI stores_fail)

lemma auth_res_failed_stores: "stores env sec e result (auth_res_failed env sec e result)"
  using send_sec_auth_reply_effect [where env = env and e = "e\<lparr>status := PS_AUTH_FAILED\<rparr>" and b = False]
  unfolding auth_res_failed_def Let_def split_beta
  by (auto simp: res_status_def keeps_def intro!: storesI)

lemma auth_res_complete_stores:
  fixes sec :: "'c sec_mod"
  assumes "status e \<noteq> PS_AUTH_FAILED"
  shows "stores env sec e 0 (auth_res_complete env sec e)"
proof -
  define g where "g = check_group e"
  define e2 where "e2 = (case module (snd g) of
      Some m \<Rightarrow> (snd g)\<lparr>status := PS_AUTH_COMPLETED, acct_info := (acct_info (snd g))\<lparr>username :=
        take (MAX_USERNAME_SIZE * 2 - 1) (auth_user m (auth_ctx (snd g)) (username (acct_info (snd g))))\<rparr>\<rparr>
    | None \<Rightarrow> (snd g)\<lparr>status := PS_AUTH_COMPLETED\<rparr>)"
  let ?r = "send_sec_auth_reply env sec e2 True"
  have g: "keeps e (snd g)" using check_group_keeps [of e] by (simp add: g_def)
  then have e2: "keeps e e2" "status e2 = PS_AUTH_COMPLETED" by (simp_all add: e2_def split: option.split)
  have r: "client_db (snd (snd ?r)) = client_db sec" "keeps e (fst (snd ?r))" "status (fst (snd ?r)) = PS_AUTH_COMPLETED"
    using send_sec_auth_reply_effect [where env = env and sec = sec and e = e2 and b = True] e2
    by (auto intro: keeps_trans)
  have eq: "auth_res_complete env sec e =
     (if fst g < 0 then (fst g, auth_fail env sec (snd g))
      else if fst ?r < 0 then (fst ?r, auth_fail env (snd (snd ?r)) (fst (snd ?r)))
      else (0, put_entry (hash_any env) (snd (snd ?r)) (fst (snd ?r))))"
    unfolding auth_res_complete_def Let_def split_beta g_def [symmetric]
    by (cases "module (snd g)") (simp_all add: e2_def)
  have "cert_ok (fst (snd ?r))" if "\<not> fst g < 0"
    using that check_group_ret [of e] check_group_cert_ok [of e] r(2) by (auto simp: g_def cert_ok_keeps)
  then show ?thesis
    unfolding eq using g r assms by (auto simp: res_status_def intro!: storesI stores_fail)
qed

lemma auth_res_msg_effect:
  "keeps e (snd (snd (auth_res_msg e result)))" "status (snd (snd (auth_res_msg e result))) = status e"
  by (auto simp: auth_res_msg_def Let_def split_beta split: option.split)

lemma stores_keeps: "stores env sec e1 result r \<Longrightarrow> keeps e e1 \<Longrightarrow> status e1 = status e \<Longrightarrow> stores env sec e result r"
  by (auto simp: stores_def res_status_def intro: keeps_trans)

lemma handle_sec_auth_res_stores: "stores env sec e result (handle_sec_auth_res env sec e result)"
proof -
  let ?m = "auth_res_msg e result"
  have "stores env sec (snd (snd ?m)) result (handle_sec_auth_res env sec e result)"
    unfolding handle_sec_auth_res_def Let_def split_beta
    using auth_res_continue_stores auth_res_complete_stores auth_res_failed_stores
    by (auto intro: stores_fail)
  then show ?thesis using auth_res_msg_effect by (rule stores_keeps)
qed

section \<open>The life of a session\<close>

text \<open>
  The contract of the security module per session identifier, as a relation between the entry before
  and after a request. An authentication that failed, was banned or was misused stays failed; a
  session is opened and used only when its authentication completed; an entry disappears only when no
  worker uses it.
\<close>

definition authenticating :: "'c client_entry \<Rightarrow> bool" where
  "authenticating e \<longleftrightarrow> status e = PS_AUTH_INIT \<or> status e = PS_AUTH_CONT"

definition same_login :: "'c client_entry \<Rightarrow> 'c client_entry \<Rightarrow> bool" where
  "same_login e e' \<longleftrightarrow> status e = PS_AUTH_COMPLETED \<and> status e' = PS_AUTH_COMPLETED \<and> sid e' = sid e \<and>
     tls_auth_ok e' = tls_auth_ok e \<and> auth_type e' = auth_type e \<and>
     username (acct_info e') = username (acct_info e) \<and> groupname (acct_info e') = groupname (acct_info e)"

inductive evolve :: "'c client_entry option \<Rightarrow> 'c client_entry option \<Rightarrow> bool" where
  ev_same: "evolve x x"
| ev_born: "in_use e = 0 \<Longrightarrow> \<not> session_is_open e \<Longrightarrow> status e = PS_AUTH_COMPLETED \<longrightarrow> cert_ok e \<Longrightarrow>
     evolve None (Some e)"
| ev_auth: "authenticating e \<Longrightarrow> keeps e e' \<Longrightarrow> status e' = PS_AUTH_CONT \<or> status e' = PS_AUTH_COMPLETED \<and> cert_ok e' \<Longrightarrow>
     evolve (Some e) (Some e')"
| ev_fail: "sid e' = sid e \<Longrightarrow> in_use e' = in_use e \<Longrightarrow> status e' = PS_AUTH_FAILED \<Longrightarrow> evolve (Some e) (Some e')"
| ev_open: "same_login e e' \<Longrightarrow> session_is_open e' \<Longrightarrow> in_use e' = in_use e + 1 \<or> in_use e' = in_use e \<Longrightarrow>
     evolve (Some e) (Some e')"
| ev_use: "same_login e e' \<Longrightarrow> in_use e' = in_use e \<Longrightarrow> session_is_open e' = session_is_open e \<Longrightarrow>
     evolve (Some e) (Some e')"
| ev_close: "same_login e e' \<Longrightarrow> in_use e > 0 \<Longrightarrow> in_use e' = in_use e - 1 \<Longrightarrow> session_is_open e' = session_is_open e \<Longrightarrow>
     evolve (Some e) (Some e')"
| ev_gone: "in_use e = 0 \<or> status e = PS_AUTH_COMPLETED \<and> in_use e = 1 \<Longrightarrow> evolve (Some e) None"

inductive_cases evolve_SomeE: "evolve (Some e) y"
inductive_cases evolve_NoneE: "evolve None y"

definition refines :: "(bytes \<Rightarrow> u64) \<Rightarrow> 'c sec_mod \<Rightarrow> 'c sec_mod \<Rightarrow> bool" where
  "refines H sec sec' \<longleftrightarrow> sec_wf H sec' \<and> (\<forall>k. evolve (db_get H sec k) (db_get H sec' k))"

lemma refines_same: "sec_wf H sec \<Longrightarrow> client_db sec' = client_db sec \<Longrightarrow> refines H sec sec'"
  by (simp add: refines_def sec_wf_def ev_same)

lemma refines_upd:
  assumes "sec_wf H sec'" and "db_get H sec' = (db_get H sec)(k := y)" and "evolve (db_get H sec k) y"
  shows "refines H sec sec'"
  using assms by (simp add: refines_def ev_same)

lemma refines_put:
  assumes wf: "sec_wf H sec" and db: "client_db sec1 = client_db sec" and e: "db_get H sec (sid e') = Some e"
    and ev: "evolve (Some e) (Some e')"
  shows "refines H sec (put_entry H sec1 e')"
proof (rule refines_upd)
  have wf1: "sec_wf H sec1" using wf db by (simp add: sec_wf_def)
  show "sec_wf H (put_entry H sec1 e')"
    using wf1 db_get_length [OF wf e] by (rule put_entry_wf)
  show "db_get H (put_entry H sec1 e') = (db_get H sec)(sid e' \<mapsto> e')"
    using put_entry_get [OF wf1] e db by simp
  show "evolve (db_get H sec (sid e')) (Some e')" using e ev by simp
qed

lemma stores_refines:
  assumes wf: "sec_wf (hash_any env) sec" and e0: "db_get (hash_any env) sec (sid e) = Some e0"
    and st: "stores env sec e result r"
    and ev: "\<And>e'. keeps e e' \<Longrightarrow> res_status result e e' \<Longrightarrow> evolve (Some e0) (Some e')"
  shows "refines (hash_any env) sec (snd r)"
proof -
  obtain sec1 e' where r: "snd r = put_entry (hash_any env) sec1 e'" "client_db sec1 = client_db sec"
    "keeps e e'" "res_status result e e'" using st by (auto simp: stores_def)
  have "sid e' = sid e" using r(3) by (simp add: keeps_def)
  with e0 have "db_get (hash_any env) sec (sid e') = Some e0" by simp
  from refines_put [OF wf r(2) this ev [OF r(3,4)]] show ?thesis by (simp add: r(1))
qed

definition env_ok :: "sec_env \<Rightarrow> bool" where
  "env_ok env \<longleftrightarrow> (\<forall>i s. rnd_sid env i = Some s \<longrightarrow> length s = SID_SIZE)"

lemma handle_sec_auth_cont_refines:
  assumes wf: "sec_wf (hash_any env) sec"
  shows "refines (hash_any env) sec (snd (handle_sec_auth_cont env sec s pw))"
proof (cases "length s = SID_SIZE")
  case False
  then show ?thesis using wf by (simp add: handle_sec_auth_cont_def refines_same)
next
  case len: True
  note find = find_client_entry_get [OF wf len]
  show ?thesis
  proof (cases "db_get (hash_any env) sec s")
    case None
    then show ?thesis using wf len find by (simp add: handle_sec_auth_cont_def refines_same)
  next
    case (Some e)
    have s: "sid e = s" using db_get_sid [OF wf Some] .
    have fail: "refines (hash_any env) sec (snd (handle_sec_auth_res env sec e (- 1)))"
      by (rule stores_refines [OF wf _ handle_sec_auth_res_stores, of e e])
        (auto simp: s Some res_status_def keeps_def intro: ev_fail)
    show ?thesis
    proof (cases "authenticating e \<and> pw \<noteq> None \<and> module e \<noteq> None")
      case False
      then have "handle_sec_auth_cont env sec s pw = handle_sec_auth_res env sec e (- 1)"
        using len Some find
        by (auto simp: handle_sec_auth_cont_def authenticating_def split: option.split)
      with fail show ?thesis by simp
    next
      case True
      then obtain pass m where pm: "pw = Some pass" "module e = Some m" by auto
      define e1 where "e1 = e\<lparr>status := PS_AUTH_CONT, auth_ctx := snd (auth_pass m (auth_ctx e) pass)\<rparr>"
      define ret where "ret = fst (auth_pass m (auth_ctx e) pass)"
      have "handle_sec_auth_cont env sec s pw = handle_sec_auth_res env sec e1 ret"
        using True pm len Some find
        by (auto simp: handle_sec_auth_cont_def authenticating_def split_beta e1_def ret_def)
      moreover have "refines (hash_any env) sec (snd (handle_sec_auth_res env sec e1 ret))"
      proof (rule stores_refines [OF wf _ handle_sec_auth_res_stores])
        show "db_get (hash_any env) sec (sid e1) = Some e" by (simp add: e1_def s Some)
        fix e'
        assume k: "keeps e1 e'" and r: "res_status ret e1 e'"
        have "keeps e e'" using k by (simp add: e1_def keeps_def)
        with r True show "evolve (Some e) (Some e')"
          by (auto simp: res_status_def e1_def keeps_def intro: ev_fail ev_auth)
      qed
      ultimately show ?thesis by simp
    qed
  qed
qed

lemma set_module_keeps:
  "fst (set_module v e t) \<in> {0, - 1}" "in_use (snd (set_module v e t)) = in_use e"
  "session_is_open (snd (set_module v e t)) = session_is_open e" "sid (snd (set_module v e t)) = sid e"
  "status (snd (set_module v e t)) = status e"
proof -
  have "fst (set_module_loop ms e t) \<in> {0, - 1} \<and> in_use (snd (set_module_loop ms e t)) = in_use e \<and>
      session_is_open (snd (set_module_loop ms e t)) = session_is_open e \<and> sid (snd (set_module_loop ms e t)) = sid e \<and>
      status (snd (set_module_loop ms e t)) = status e"
    for ms :: "'a auth_method list"
    by (induction ms) auto
  then show "fst (set_module v e t) \<in> {0, - 1}" "in_use (snd (set_module v e t)) = in_use e"
    "session_is_open (snd (set_module v e t)) = session_is_open e" "sid (snd (set_module v e t)) = sid e"
    "status (snd (set_module v e t)) = status e"
    by (simp_all add: set_module_def)
qed

lemma handle_sec_auth_init_refines:
  fixes sec :: "'c sec_mod"
  assumes wf: "sec_wf (hash_any env) sec" and env: "env_ok env"
  shows "refines (hash_any env) sec (snd (handle_sec_auth_init env sec req pid))"
proof -
  define vhost where "vhost = find_vhost (vconfig sec) (ir_vhost req)"
  define new where "new = new_client_entry (hash_any env) (calc_safe_id env) (rnd_sid env) (alloc_ok env) (add_ok env)
    (now env) sec vhost (ir_ip req) pid"
  show ?thesis
  proof (cases new)
    case None
    then show ?thesis using wf
      by (simp add: handle_sec_auth_init_def Let_def new_def vhost_def refines_same)
  next
    case (Some p)
    obtain e0 sec0 where p: "p = (e0, sec0)" by (cases p)
    have rnd: "\<And>i s. rnd_sid env i = Some s \<Longrightarrow> length s = SID_SIZE" using env by (simp add: env_ok_def)
    note ne = new_client_entry_get [OF wf rnd Some [unfolded p new_def]]
    have res: "refines (hash_any env) sec (snd (handle_sec_auth_res env sec0 e result))"
      if "sid e = sid e0" "in_use e = 0" "\<not> session_is_open e" "status e \<noteq> PS_AUTH_COMPLETED" for e result
    proof -
      obtain sec1 e' where r: "snd (handle_sec_auth_res env sec0 e result) = put_entry (hash_any env) sec1 e'"
        "client_db sec1 = client_db sec0" "keeps e e'" "res_status result e e'"
        using handle_sec_auth_res_stores [of env sec0 e result] by (auto simp: stores_def)
      have wf1: "sec_wf (hash_any env) sec1" using ne(3) r(2) by (simp add: sec_wf_def)
      have sid: "sid e' = sid e0" using r(3) that by (simp add: keeps_def)
      have get: "db_get (hash_any env) (put_entry (hash_any env) sec1 e') = (db_get (hash_any env) sec)(sid e0 \<mapsto> e')"
        using put_entry_get [OF wf1, of e'] r(2) ne(2) sid by simp
      have "status e' = PS_AUTH_COMPLETED \<longrightarrow> cert_ok e'" using r(4) that(4) by (auto simp: res_status_def)
      then have "evolve None (Some e')" using r(3) that(2,3) by (intro ev_born) (auto simp: keeps_def)
      then show ?thesis
        unfolding r(1)
        by (intro refines_upd [OF put_entry_wf [OF wf1] get]) (auto simp: sid ne(1,4))
    qed
    define sm where "sm = set_module vhost e0 (ir_auth_type req)"
    have sm: "sid (snd sm) = sid e0" "in_use (snd sm) = 0" "\<not> session_is_open (snd sm)" "status (snd sm) = PS_AUTH_INACTIVE"
      using set_module_keeps [of vhost e0 "ir_auth_type req"] ne by (simp_all add: sm_def)
    have "\<exists>e result. handle_sec_auth_init env sec req pid = handle_sec_auth_res env sec0 e result \<and>
        sid e = sid e0 \<and> in_use e = 0 \<and> \<not> session_is_open e \<and> status e \<noteq> PS_AUTH_COMPLETED"
    proof (cases "fst sm < 0")
      case True
      then have "handle_sec_auth_init env sec req pid = handle_sec_auth_res env sec0 (snd sm) (fst sm)"
        using Some p by (simp add: handle_sec_auth_init_def Let_def new_def vhost_def sm_def split_beta)
      with sm show ?thesis by (intro exI conjI) auto
    next
      case False
      show ?thesis
        using Some p False sm
        unfolding handle_sec_auth_init_def Let_def vhost_def [symmetric] new_def [symmetric] split_beta
        by (auto simp: sm_def [symmetric] split: option.split intro!: exI)
    qed
    with res show ?thesis by auto
  qed
qed

text \<open>Only the entry of one identifier changes, to \<open>y\<close>.\<close>

definition upd :: "(bytes \<Rightarrow> u64) \<Rightarrow> 'c sec_mod \<Rightarrow> 'c sec_mod \<Rightarrow> bytes \<Rightarrow> 'c client_entry option \<Rightarrow> bool" where
  "upd H sec sec' k y \<longleftrightarrow> sec_wf H sec' \<and> db_get H sec' = (db_get H sec)(k := y)"

lemma upd_trans: "upd H sec sec1 k y1 \<Longrightarrow> upd H sec1 sec2 k y2 \<Longrightarrow> upd H sec sec2 k y2"
  by (simp add: upd_def)

lemma upd_db: "upd H sec sec1 k y \<Longrightarrow> client_db sec2 = client_db sec1 \<Longrightarrow> upd H sec sec2 k y"
  by (simp add: upd_def sec_wf_def)

lemma upd_wf: "upd H sec sec1 k y \<Longrightarrow> sec_wf H sec1"
  by (simp add: upd_def)

lemma upd_get: "upd H sec sec1 k y \<Longrightarrow> db_get H sec1 k = y"
  by (simp add: upd_def)

lemma upd_put:
  assumes "sec_wf H sec" and "db_get H sec k \<noteq> None" and "sid e = k"
  shows "upd H sec (put_entry H sec e) k (Some e)"
proof -
  obtain e0 where "db_get H sec k = Some e0" using assms(2) by auto
  then have "length (sid e) = SID_SIZE" using db_get_length [OF assms(1)] assms(3) by simp
  then show ?thesis using assms by (simp add: upd_def put_entry_get put_entry_wf)
qed

lemma upd_put_put:
  assumes "upd H sec sec1 k (Some e1)" and "client_db sec2 = client_db sec1" and "sid e = k"
  shows "upd H sec (put_entry H sec2 e) k (Some e)"
proof (rule upd_trans)
  show 1: "upd H sec sec2 k (Some e1)" by (rule upd_db [OF assms(1,2)])
  show "upd H sec2 (put_entry H sec2 e) k (Some e)"
    using upd_wf [OF 1] upd_get [OF 1] assms(3) by (intro upd_put) auto
qed

lemma upd_refines: "upd H sec sec' k y \<Longrightarrow> evolve (db_get H sec k) y \<Longrightarrow> refines H sec sec'"
  unfolding upd_def by (rule refines_upd) auto

lemma send_failed_db [simp]: "client_db (snd (send_failed_session_open_reply env sec)) = client_db sec"
  by (simp add: send_failed_session_open_reply_def Let_def split_beta)

text \<open>The entry under the requested identifier after a session was to be opened.\<close>

definition opened :: "'c client_entry \<Rightarrow> 'c client_entry \<Rightarrow> bool" where
  "opened e e' \<longleftrightarrow> same_login e e' \<and> session_is_open e' \<and> (in_use e' = in_use e + 1 \<or> in_use e' = in_use e)"

lemma session_start_effect:
  fixes sec :: "'c sec_mod"
  shows "client_db (snd (session_start env sec e)) = client_db sec \<or>
    (\<exists>sec3 x. client_db sec3 = client_db sec \<and>
       snd (session_start env sec e) = put_entry (hash_any env) sec3 (e\<lparr>exptime := x, in_use := in_use e + 1\<rparr>))"
proof -
  define seed where
    "seed = (if predictable_ips (ce_vhost e) then Some (name_hash env (username (acct_info e))) else rnd_seed env)"
  define m where "m sd = SessionOk \<lparr>sr_username = username (acct_info e), sr_groupname = groupname (acct_info e),
    sr_ip = remote_ip (acct_info e), sr_tls_auth_ok = tls_auth_ok e, sr_vhost = vh_name (ce_vhost e),
    sr_ipv4_seed = sd, sr_sid = sid e\<rparr>" for sd
  note unf = session_start_def Let_def split_beta seed_def [symmetric] m_def [symmetric]
  show ?thesis
  proof (cases "\<exists>sd. seed = Some sd \<and> alloc_ok env \<and> \<not> (case sup_config (ce_vhost e) of Some f \<Rightarrow> f (acct_info e) < 0 | None \<Rightarrow> False) \<and>
      \<not> fst (sec_send env (m sd) sec) < 0")
    case True
    then obtain sd where "seed = Some sd" "alloc_ok env" "\<not> fst (sec_send env (m sd) sec) < 0"
      "\<not> (case sup_config (ce_vhost e) of Some f \<Rightarrow> f (acct_info e) < 0 | None \<Rightarrow> False)" by blast
    then have "snd (session_start env sec e) = put_entry (hash_any env) (snd (sec_send env (m sd) sec))
        (e\<lparr>exptime := now_later env + cookie_timeout (ce_vhost e) + AUTH_SLACK_TIME, in_use := in_use e + 1\<rparr>)"
      unfolding unf by simp
    then show ?thesis by (intro disjI2 exI conjI) simp_all
  next
    case False
    then have "client_db (snd (session_start env sec e)) = client_db sec"
      unfolding unf by (cases seed) auto
    then show ?thesis by blast
  qed
qed

lemma session_open_effect:
  fixes sec :: "'c sec_mod"
  assumes wf: "sec_wf (hash_any env) sec" and len: "length (or_sid req) = SID_SIZE"
    and get: "db_get (hash_any env) sec (or_sid req) = Some e" and st: "status e = PS_AUTH_COMPLETED"
    and ex: "\<not> IS_CLIENT_ENTRY_EXPIRED e (now env)"
  shows "\<exists>e'. upd (hash_any env) sec (snd (handle_secm_session_open_cmd env sec req)) (or_sid req) (Some e') \<and>
    (opened e e' \<or> sid e' = sid e \<and> in_use e' = in_use e \<and> status e' = PS_AUTH_FAILED)"
proof -
  let ?H = "hash_any env"
  let ?e1 = "session_addrs req e"
  let ?r = "handle_secm_session_open_cmd env sec req"
  have sid: "sid e = or_sid req" using db_get_sid [OF wf get] .
  have e1: "sid ?e1 = sid e" "in_use ?e1 = in_use e" by (simp_all add: session_addrs_def)
  have put: "upd ?H sec (put_entry ?H sec x) (or_sid req) (Some x)" if "sid x = sid e" for x
    using that sid get by (intro upd_put [OF wf]) auto
  show ?thesis
  proof (cases "acct_open (or_sid req) ?e1 < 0")
    case True
    let ?e = "?e1\<lparr>status := PS_AUTH_FAILED\<rparr>"
    have "?r = send_failed_session_open_reply env (put_entry ?H sec ?e)"
      using True st ex get len
      by (simp add: handle_secm_session_open_cmd_def find_client_entry_get [OF wf len] auth_fail_def)
    then show ?thesis using e1
      by (intro exI [of _ ?e] conjI upd_db [OF put [of ?e]]) simp_all
  next
    case False
    let ?e2 = "?e1\<lparr>session_is_open := True\<rparr>"
    have r: "?r = session_start env (put_entry ?H sec ?e2) ?e2"
      using False st ex get len
      by (simp add: handle_secm_session_open_cmd_def find_client_entry_get [OF wf len] Let_def)
    have o: "opened e ?e2" "opened e (?e2\<lparr>exptime := x, in_use := in_use ?e2 + 1\<rparr>)" for x
      using st by (simp_all add: opened_def same_login_def session_addrs_def)
    have p2: "upd ?H sec (put_entry ?H sec ?e2) (or_sid req) (Some ?e2)" by (rule put) (simp add: e1)
    from session_start_effect [of env "put_entry ?H sec ?e2" ?e2] show ?thesis
    proof (elim disjE exE conjE)
      assume "client_db (snd (session_start env (put_entry ?H sec ?e2) ?e2)) = client_db (put_entry ?H sec ?e2)"
      then show ?thesis unfolding r using upd_db [OF p2] o(1) by blast
    next
      fix sec3 x
      assume "client_db sec3 = client_db (put_entry ?H sec ?e2)"
        and eq: "snd (session_start env (put_entry ?H sec ?e2) ?e2) =
          put_entry ?H sec3 (?e2\<lparr>exptime := x, in_use := in_use ?e2 + 1\<rparr>)"
      then have "upd ?H sec (snd ?r) (or_sid req) (Some (?e2\<lparr>exptime := x, in_use := in_use ?e2 + 1\<rparr>))"
        unfolding r eq using e1 sid by (intro upd_put_put [OF p2]) simp_all
      with o(2) show ?thesis by blast
    qed
  qed
qed

lemma handle_secm_session_open_refines:
  assumes wf: "sec_wf (hash_any env) sec"
  shows "refines (hash_any env) sec (snd (handle_secm_session_open_cmd env sec req))"
proof (cases "length (or_sid req) = SID_SIZE")
  case False
  then show ?thesis using wf by (simp add: handle_secm_session_open_cmd_def refines_same)
next
  case len: True
  note find = find_client_entry_get [OF wf len]
  show ?thesis
  proof (cases "db_get (hash_any env) sec (or_sid req)")
    case None
    then show ?thesis using wf len find by (simp add: handle_secm_session_open_cmd_def refines_same)
  next
    case (Some e)
    consider "status e \<noteq> PS_AUTH_COMPLETED" | "status e = PS_AUTH_COMPLETED" "IS_CLIENT_ENTRY_EXPIRED e (now env)"
      | "status e = PS_AUTH_COMPLETED" "\<not> IS_CLIENT_ENTRY_EXPIRED e (now env)" by blast
    then show ?thesis
    proof cases
      case 1
      then show ?thesis using wf len find Some by (simp add: handle_secm_session_open_cmd_def refines_same)
    next
      case 2
      let ?e = "e\<lparr>status := PS_AUTH_FAILED\<rparr>"
      have "upd (hash_any env) sec (snd (handle_secm_session_open_cmd env sec req)) (or_sid req) (Some ?e)"
        using 2 len find Some db_get_sid [OF wf Some]
        by (intro upd_db [OF upd_put [OF wf, of _ ?e]]) (simp_all add: handle_secm_session_open_cmd_def auth_fail_def)
      then show ?thesis by (rule upd_refines) (simp add: Some ev_fail)
    next
      case 3
      from session_open_effect [OF wf len Some 3] obtain e' where
        u: "upd (hash_any env) sec (snd (handle_secm_session_open_cmd env sec req)) (or_sid req) (Some e')"
        and e': "opened e e' \<or> sid e' = sid e \<and> in_use e' = in_use e \<and> status e' = PS_AUTH_FAILED" by blast
      have "evolve (Some e) (Some e')" using e' by (auto simp: opened_def intro: ev_open ev_fail)
      with upd_refines [OF u] Some show ?thesis by simp
    qed
  qed
qed

text \<open>What \<open>expire_client_entry\<close> makes of an entry: \<^term>\<open>None\<close> when it is deleted.\<close>

definition expire_entry :: "time_t \<Rightarrow> 'c client_entry \<Rightarrow> 'c client_entry option" where
  "expire_entry t e =
     (let e = (if in_use e > 0 then e\<lparr>in_use := in_use e - 1\<rparr> else e) in
      if in_use e \<noteq> 0 then Some e
      else if \<not> persistent_cookies (ce_vhost e) \<and>
         (discon_reason e = REASON_SERVER_DISCONNECT \<or> discon_reason e = REASON_SESSION_TIMEOUT \<or>
          session_is_open e \<and> discon_reason e = REASON_USER_DISCONNECT)
      then None
      else if discon_reason e = REASON_USER_DISCONNECT then
        Some (if persistent_cookies (ce_vhost e) \<and> t + AUTH_SLACK_TIME < exptime e then e
              else e\<lparr>exptime := t + AUTH_SLACK_TIME\<rparr>)
      else Some (e\<lparr>exptime := t + cookie_timeout (ce_vhost e) + AUTH_SLACK_TIME\<rparr>))"

lemma upd_del:
  assumes "upd H sec sec1 k y1" and "sid e = k"
  shows "upd H sec (del_client_entry H sec1 e) k None"
  using assms del_client_entry_get [OF upd_wf [OF assms(1)]] by (simp add: upd_def)

lemma expire_client_entry_upd:
  assumes wf: "sec_wf H sec" and e: "db_get H sec (sid e) \<noteq> None"
  shows "upd H sec (expire_client_entry H t sec e) (sid e) (expire_entry t e)"
proof -
  define e1 where "e1 = (if in_use e > 0 then e\<lparr>in_use := in_use e - 1\<rparr> else e)"
  have sid: "sid e1 = sid e" by (simp add: e1_def)
  have p1: "upd H sec (put_entry H sec e1) (sid e) (Some e1)" by (rule upd_put [OF wf e sid])
  have p2: "upd H sec (put_entry H (put_entry H sec e1) e2) (sid e) (Some e2)" if "sid e2 = sid e" for e2
    by (rule upd_put_put [OF p1 refl that])
  note d = upd_del [OF p1 sid]
  show ?thesis
    unfolding expire_client_entry_def expire_entry_def Let_def e1_def [symmetric]
    by (simp add: p1 p2 d sid)
qed

lemma expire_entry_evolve:
  assumes "status e = PS_AUTH_COMPLETED" and "same_login e e1" and "in_use e1 = in_use e" and "session_is_open e1 = session_is_open e"
  shows "evolve (Some e) (expire_entry t e1)"
proof -
  define e2 where "e2 = (if in_use e1 > 0 then e1\<lparr>in_use := in_use e1 - 1\<rparr> else e1)"
  have one: "in_use e1 - 1 = 0 \<Longrightarrow> in_use e1 = 1" by simp
  have gone: "evolve (Some e) None" if "in_use e2 = 0"
    using that assms one by (intro ev_gone) (auto simp: e2_def split: if_splits)
  have stay: "evolve (Some e) (Some (e2\<lparr>exptime := x\<rparr>))" for x
    using assms unfolding e2_def
    by (cases "in_use e1 > 0") (auto simp: same_login_def intro: ev_close ev_use)
  have stay': "evolve (Some e) (Some e2)"
    using assms unfolding e2_def
    by (cases "in_use e1 > 0") (auto simp: same_login_def intro: ev_close ev_use)
  show ?thesis
    unfolding expire_entry_def Let_def e2_def [symmetric] using gone stay stay' by simp
qed

text \<open>The effect of a session close on the entry of a completed login.\<close>

definition close_stats :: "close_req \<Rightarrow> 'c client_entry \<Rightarrow> stats" where
  "close_stats req e = (cur_stats e)\<lparr>uptime := raise_to (map_option uint (cr_uptime req)) (uptime (cur_stats e)),
     bytes_in := raise_to (cr_bytes_in req) (bytes_in (cur_stats e)),
     bytes_out := raise_to (cr_bytes_out req) (bytes_out (cur_stats e))\<rparr>"

lemma session_close_upd:
  fixes sec :: "'c sec_mod"
  assumes wf: "sec_wf (hash_any env) sec" and len: "length (cr_sid req) = SID_SIZE"
    and get: "db_get (hash_any env) sec (cr_sid req) = Some e" and st: "status e = PS_AUTH_COMPLETED"
  defines "rep \<equiv> CliStats (bytes_in (close_stats req e)) (bytes_out (close_stats req e)) (Some (discon_reason e))"
  shows "if send_msg env rep < 0
    then fst (handle_secm_session_close_cmd env sec req) = ERR_BAD_COMMAND \<and>
      upd (hash_any env) sec (snd (handle_secm_session_close_cmd env sec req)) (cr_sid req)
        (Some (e\<lparr>cur_stats := close_stats req e\<rparr>))
    else fst (handle_secm_session_close_cmd env sec req) = 0 \<and>
      upd (hash_any env) sec (snd (handle_secm_session_close_cmd env sec req)) (cr_sid req)
        (expire_entry (now env)
           (e\<lparr>saved_stats := stats_add_to (saved_stats e) (close_stats req e), cur_stats := zero_stats\<rparr>))"
proof -
  let ?H = "hash_any env"
  have sid: "sid e = cr_sid req" using db_get_sid [OF wf get] .
  define e1 where "e1 = e\<lparr>cur_stats := close_stats req e\<rparr>"
  define e2 where "e2 = e\<lparr>saved_stats := stats_add_to (saved_stats e) (close_stats req e), cur_stats := zero_stats\<rparr>"
  define s where "s = sec_send env rep (put_entry ?H sec e1)"
  have p1: "upd ?H sec (put_entry ?H sec e1) (cr_sid req) (Some e1)"
    using sid get by (intro upd_put [OF wf]) (auto simp: e1_def)
  have p2: "upd ?H sec (put_entry ?H (snd s) e2) (cr_sid req) (Some e2)"
    using sid by (intro upd_put_put [OF p1]) (simp_all add: s_def e2_def)
  have get2: "db_get ?H (put_entry ?H (snd s) e2) (sid e2) \<noteq> None"
    using upd_get [OF p2] sid by (simp add: e2_def)
  have p3: "upd ?H sec (expire_client_entry ?H (now env) (put_entry ?H (snd s) e2) e2) (cr_sid req) (expire_entry (now env) e2)"
    using upd_trans [OF p2] expire_client_entry_upd [OF upd_wf [OF p2] get2] sid by (simp add: e2_def)
  have eq: "handle_secm_session_close_cmd env sec req =
    (if fst s < 0 then (ERR_BAD_COMMAND, snd s)
     else (0, expire_client_entry ?H (now env) (put_entry ?H (snd s) e2) e2))"
    using st get len
    unfolding handle_secm_session_close_cmd_def Let_def split_beta find_client_entry_get [OF wf len]
      close_stats_def [symmetric]
    by (simp add: s_def rep_def e1_def e2_def)
  have f: "fst s = send_msg env rep" by (simp add: s_def sec_send_def)
  have p1': "upd ?H sec (snd s) (cr_sid req) (Some e1)" by (rule upd_db [OF p1]) (simp add: s_def)
  show ?thesis using eq f p1' p3 by (simp add: e1_def e2_def)
qed

lemma handle_secm_session_close_refines:
  assumes wf: "sec_wf (hash_any env) sec"
  shows "refines (hash_any env) sec (snd (handle_secm_session_close_cmd env sec req))"
proof (cases "length (cr_sid req) = SID_SIZE \<and> (\<exists>e. db_get (hash_any env) sec (cr_sid req) = Some e \<and> status e = PS_AUTH_COMPLETED)")
  case False
  have "client_db (snd (handle_secm_session_close_cmd env sec req)) = client_db sec"
  proof (cases "length (cr_sid req) = SID_SIZE")
    case len: True
    then show ?thesis using False find_client_entry_get [OF wf len]
      by (auto simp: handle_secm_session_close_cmd_def split: option.split)
  qed (simp add: handle_secm_session_close_cmd_def)
  then show ?thesis by (rule refines_same [OF wf])
next
  case True
  then obtain e where len: "length (cr_sid req) = SID_SIZE" and e: "db_get (hash_any env) sec (cr_sid req) = Some e"
    "status e = PS_AUTH_COMPLETED" by blast
  have ev: "evolve (Some e) (Some (e\<lparr>cur_stats := close_stats req e\<rparr>))"
    using e(2) by (intro ev_use) (simp_all add: same_login_def)
  have ev': "evolve (Some e) (expire_entry (now env)
      (e\<lparr>saved_stats := stats_add_to (saved_stats e) (close_stats req e), cur_stats := zero_stats\<rparr>))"
    using e(2) by (intro expire_entry_evolve) (simp_all add: same_login_def)
  show ?thesis
    using session_close_upd [OF wf len e] upd_refines [OF _ ev [folded e(1)]] upd_refines [OF _ ev' [folded e(1)]]
    by (auto split: if_splits)
qed

lemma handle_sec_auth_ban_ip_reply_refines:
  assumes wf: "sec_wf (hash_any env) sec"
  shows "refines (hash_any env) sec (handle_sec_auth_ban_ip_reply env sec s ok)"
proof (cases "length s = SID_SIZE \<and> \<not> ok \<and> db_get (hash_any env) sec s \<noteq> None")
  case False
  have "handle_sec_auth_ban_ip_reply env sec s ok = sec"
  proof (cases "length s = SID_SIZE")
    case True
    then show ?thesis using False find_client_entry_get [OF wf True]
      by (auto simp: handle_sec_auth_ban_ip_reply_def split: option.split)
  qed (simp add: handle_sec_auth_ban_ip_reply_def)
  then show ?thesis using wf by (simp add: refines_same)
next
  case True
  then obtain e where len: "length s = SID_SIZE" and ok: "\<not> ok" and e: "db_get (hash_any env) sec s = Some e" by auto
  have "handle_sec_auth_ban_ip_reply env sec s ok = put_entry (hash_any env) sec (e\<lparr>status := PS_AUTH_FAILED\<rparr>)"
    using len ok e find_client_entry_get [OF wf len] by (simp add: handle_sec_auth_ban_ip_reply_def)
  moreover have "refines (hash_any env) sec (put_entry (hash_any env) sec (e\<lparr>status := PS_AUTH_FAILED\<rparr>))"
    using db_get_sid [OF wf e] e by (intro refines_put [OF wf refl]) (auto intro: ev_fail)
  ultimately show ?thesis by simp
qed

text \<open>The entry after a statistics message for a completed login.\<close>

lemma stats_cmd_upd:
  fixes sec :: "'c sec_mod"
  assumes wf: "sec_wf (hash_any env) sec" and len: "length (st_sid req) = SID_SIZE"
    and get: "db_get (hash_any env) sec (st_sid req) = Some e" and st: "status e = PS_AUTH_COMPLETED"
  shows "\<exists>e'. upd (hash_any env) sec (snd (handle_sec_auth_stats_cmd env sec req pid)) (st_sid req) (Some e') \<and>
    fst (handle_sec_auth_stats_cmd env sec req pid) = 0 \<and>
    same_login e e' \<and> in_use e' = in_use e \<and> session_is_open e' = session_is_open e \<and> saved_stats e' = saved_stats e \<and>
    bytes_in (cur_stats e') = max (bytes_in (cur_stats e)) (st_bytes_in req) \<and>
    bytes_out (cur_stats e') = max (bytes_out (cur_stats e)) (st_bytes_out req) \<and>
    uptime (cur_stats e') = max (uptime (cur_stats e)) (uint (st_uptime req))"
proof -
  have sid: "sid e = st_sid req" using db_get_sid [OF wf get] .
  have put: "upd (hash_any env) sec (put_entry (hash_any env) sec x) (st_sid req) (Some x)" if "sid x = sid e" for x
    using that sid get by (intro upd_put [OF wf]) auto
  have m: "raise_to (Some a) b = max b a" for a b :: "'x::linorder"
    by (auto simp: raise_to_def max_def)
  define e1 where "e1 = e\<lparr>cur_stats := (cur_stats e)\<lparr>bytes_in := raise_to (Some (st_bytes_in req)) (bytes_in (cur_stats e)),
                      bytes_out := raise_to (Some (st_bytes_out req)) (bytes_out (cur_stats e)),
                      uptime := raise_to (Some (uint (st_uptime req))) (uptime (cur_stats e))\<rparr>,
      discon_reason := (case st_discon_reason req of Some r \<Rightarrow> if r \<noteq> 0 then r else discon_reason e | None \<Rightarrow> discon_reason e),
      acct_info := (acct_info e)\<lparr>acct_id := pid\<rparr>\<rparr>"
  define e2 where "e2 = e1\<lparr>acct_info := (acct_info e1)
      \<lparr>remote_ip := opt_copy MAX_IP_STR (st_remote_ip req) (remote_ip (acct_info e1)),
       ai_ipv4 := opt_copy MAX_IP_STR (st_ipv4 req) (ai_ipv4 (acct_info e1)),
       ai_ipv6 := opt_copy MAX_IP_STR (st_ipv6 req) (ai_ipv6 (acct_info e1))\<rparr>\<rparr>"
  have r: "handle_sec_auth_stats_cmd env sec req pid =
    (if (case acct (ce_vhost e1) of Some a \<Rightarrow> \<not> session_stats a | None \<Rightarrow> True) then (0, put_entry (hash_any env) sec e1)
     else (0, (put_entry (hash_any env) sec e2)\<lparr>sent := sent (put_entry (hash_any env) sec e2) @
       [AcctStats (auth_type e2) (acct_info e2) (stats_add_to (cur_stats e1) (saved_stats e1))]\<rparr>))"
    using len get st unfolding handle_sec_auth_stats_cmd_def Let_def find_client_entry_get [OF wf len]
    by (simp add: e1_def e2_def)
  have e2': "same_login e e1" "same_login e e2" "cur_stats e2 = cur_stats e1" "in_use e1 = in_use e" "in_use e2 = in_use e"
    "session_is_open e1 = session_is_open e" "session_is_open e2 = session_is_open e"
    "saved_stats e1 = saved_stats e" "saved_stats e2 = saved_stats e" "sid e1 = sid e" "sid e2 = sid e"
    "bytes_in (cur_stats e1) = max (bytes_in (cur_stats e)) (st_bytes_in req)"
    "bytes_out (cur_stats e1) = max (bytes_out (cur_stats e)) (st_bytes_out req)"
    "uptime (cur_stats e1) = max (uptime (cur_stats e)) (uint (st_uptime req))"
    using st by (simp_all add: same_login_def e1_def e2_def m)
  show ?thesis
  proof (cases "case acct (ce_vhost e1) of Some a \<Rightarrow> \<not> session_stats a | None \<Rightarrow> True")
    case True
    then show ?thesis using r e2' put [of e1] by (intro exI [of _ e1]) simp
  next
    case False
    then show ?thesis using r e2' upd_db [OF put [of e2]] by (intro exI [of _ e2]) simp
  qed
qed

lemma handle_sec_auth_stats_refines:
  assumes wf: "sec_wf (hash_any env) sec"
  shows "refines (hash_any env) sec (snd (handle_sec_auth_stats_cmd env sec req pid))"
proof (cases "length (st_sid req) = SID_SIZE \<and> (\<exists>e. db_get (hash_any env) sec (st_sid req) = Some e \<and> status e = PS_AUTH_COMPLETED)")
  case False
  have "client_db (snd (handle_sec_auth_stats_cmd env sec req pid)) = client_db sec"
  proof (cases "length (st_sid req) = SID_SIZE")
    case len: True
    then show ?thesis using False find_client_entry_get [OF wf len]
      by (auto simp: handle_sec_auth_stats_cmd_def split: option.split)
  qed (simp add: handle_sec_auth_stats_cmd_def)
  then show ?thesis by (rule refines_same [OF wf])
next
  case True
  then obtain e where len: "length (st_sid req) = SID_SIZE" and e: "db_get (hash_any env) sec (st_sid req) = Some e"
    "status e = PS_AUTH_COMPLETED" by blast
  obtain e' where u: "upd (hash_any env) sec (snd (handle_sec_auth_stats_cmd env sec req pid)) (st_sid req) (Some e')"
    and e': "same_login e e'" "in_use e' = in_use e" "session_is_open e' = session_is_open e"
    using stats_cmd_upd [OF wf len e] by blast
  have "evolve (Some e) (Some e')" using e' by (rule ev_use)
  with upd_refines [OF u] e(1) show ?thesis by simp
qed

lemma cleanup_refines_lifecycle:
  assumes "sec_wf H sec"
  shows "refines H sec (cleanup_client_entries t sec)"
  using assms
  by (auto simp: refines_def cleanup_get IS_CLIENT_ENTRY_EXPIRED_def split: option.split intro: ev_same ev_gone)

section \<open>Runs of the security module\<close>

inductive sec_step :: "(bytes \<Rightarrow> u64) \<Rightarrow> 'c sec_mod \<Rightarrow> 'c sec_mod \<Rightarrow> bool" for H where
  st_init: "hash_any env = H \<Longrightarrow> env_ok env \<Longrightarrow> sec_step H sec (snd (handle_sec_auth_init env sec req pid))"
| st_cont: "hash_any env = H \<Longrightarrow> sec_step H sec (snd (handle_sec_auth_cont env sec s pw))"
| st_open: "hash_any env = H \<Longrightarrow> sec_step H sec (snd (handle_secm_session_open_cmd env sec oreq))"
| st_close: "hash_any env = H \<Longrightarrow> sec_step H sec (snd (handle_secm_session_close_cmd env sec creq))"
| st_ban: "hash_any env = H \<Longrightarrow> sec_step H sec (handle_sec_auth_ban_ip_reply env sec s ok)"
| st_stats: "hash_any env = H \<Longrightarrow> sec_step H sec (snd (handle_sec_auth_stats_cmd env sec sreq pid))"
| st_cleanup: "sec_step H sec (cleanup_client_entries t sec)"

lemma sec_step_refines: "sec_step H sec sec' \<Longrightarrow> sec_wf H sec \<Longrightarrow> refines H sec sec'"
  by (induction rule: sec_step.induct)
    (auto intro: handle_sec_auth_init_refines handle_sec_auth_cont_refines handle_secm_session_open_refines
      handle_secm_session_close_refines handle_sec_auth_ban_ip_reply_refines handle_sec_auth_stats_refines
      cleanup_refines_lifecycle)

lemma sec_steps_wf: "(sec_step H)\<^sup>*\<^sup>* sec sec' \<Longrightarrow> sec_wf H sec \<Longrightarrow> sec_wf H sec'"
  by (induction rule: rtranclp_induct) (auto dest: sec_step_refines simp: refines_def)

lemma put_entry_sent [simp]: "sent (put_entry H sec e) = sent sec"
  by (simp add: put_entry_def)

lemma auth_fail_sent [simp]: "sent (auth_fail env sec e) = sent sec"
  by (simp add: auth_fail_def)

lemma send_failed_sent:
  "sent (snd (send_failed_session_open_reply env sec)) \<in> {sent sec, sent sec @ [SessionFailed]}"
  by (auto simp: send_failed_session_open_reply_def sec_send_def)

lemma session_start_sent:
  "sent (snd (session_start env sec e)) \<in> {sent sec, sent sec @ [SessionFailed]} \<or>
   (\<exists>seed. sent (snd (session_start env sec e)) = sent sec @ [SessionOk \<lparr>sr_username = username (acct_info e),
      sr_groupname = groupname (acct_info e), sr_ip = remote_ip (acct_info e), sr_tls_auth_ok = tls_auth_ok e,
      sr_vhost = vh_name (ce_vhost e), sr_ipv4_seed = seed, sr_sid = sid e\<rparr>])"
  using send_failed_sent [of env sec]
  unfolding session_start_def Let_def
  by (auto simp: sec_send_def split: option.split)

text \<open>The answers to a session request, and when it is granted.\<close>

definition granted :: "sec_env \<Rightarrow> open_req \<Rightarrow> 'c client_entry \<Rightarrow> bool" where
  "granted env req e \<longleftrightarrow> status e = PS_AUTH_COMPLETED \<and> \<not> IS_CLIENT_ENTRY_EXPIRED e (now env) \<and>
     \<not> acct_open (or_sid req) (session_addrs req e) < 0"

lemma open_granted:
  assumes "sec_wf (hash_any env) sec" and "length (or_sid req) = SID_SIZE" and "db_get (hash_any env) sec (or_sid req) = Some e"
    and "granted env req e"
  shows "handle_secm_session_open_cmd env sec req =
    session_start env (put_entry (hash_any env) sec ((session_addrs req e)\<lparr>session_is_open := True\<rparr>))
      ((session_addrs req e)\<lparr>session_is_open := True\<rparr>)"
  using assms find_client_entry_get [OF assms(1,2)] by (simp add: handle_secm_session_open_cmd_def granted_def Let_def)

lemma session_open_sent:
  assumes wf: "sec_wf (hash_any env) sec"
  shows "sent (snd (handle_secm_session_open_cmd env sec req)) \<in> {sent sec, sent sec @ [SessionFailed]} \<or>
    (\<exists>e seed. length (or_sid req) = SID_SIZE \<and> db_get (hash_any env) sec (or_sid req) = Some e \<and> granted env req e \<and>
       status e = PS_AUTH_COMPLETED \<and> \<not> IS_CLIENT_ENTRY_EXPIRED e (now env) \<and>
       sent (snd (handle_secm_session_open_cmd env sec req)) = sent sec @ [SessionOk \<lparr>sr_username = username (acct_info e),
         sr_groupname = groupname (acct_info e), sr_ip = remote_ip (acct_info e), sr_tls_auth_ok = tls_auth_ok e,
         sr_vhost = vh_name (ce_vhost e), sr_ipv4_seed = seed, sr_sid = or_sid req\<rparr>])"
proof (cases "length (or_sid req) = SID_SIZE")
  case False
  then show ?thesis using send_failed_sent [of env sec] by (auto simp: handle_secm_session_open_cmd_def)
next
  case len: True
  note find = find_client_entry_get [OF wf len]
  show ?thesis
  proof (cases "\<exists>e. db_get (hash_any env) sec (or_sid req) = Some e \<and> granted env req e")
    case False
    have sf: "sent (snd (send_failed_session_open_reply env s)) \<in> {sent sec, sent sec @ [SessionFailed]}"
      if "sent s = sent sec" for s using send_failed_sent [of env s] that by simp
    have "sent (snd (handle_secm_session_open_cmd env sec req)) \<in> {sent sec, sent sec @ [SessionFailed]}"
      using len find False
      by (cases "db_get (hash_any env) sec (or_sid req)")
        (auto simp: handle_secm_session_open_cmd_def granted_def Let_def simp del: insert_iff intro!: sf)
    then show ?thesis by blast
  next
    case True
    then obtain e where e: "db_get (hash_any env) sec (or_sid req) = Some e" "granted env req e" by blast
    let ?e = "(session_addrs req e)\<lparr>session_is_open := True\<rparr>"
    from session_start_sent [of env "put_entry (hash_any env) sec ?e" ?e] open_granted [OF wf len e] e len
      db_get_sid [OF wf e(1)]
    show ?thesis by (auto simp: session_addrs_def granted_def)
  qed
qed

section \<open>Properties\<close>


definition demo_vhost :: "unit vhost" where
  "demo_vhost = \<lparr>vh_name = None, auth_methods = [], acct = None, sup_config = None, cookie_timeout = 300,
     persistent_cookies = False, predictable_ips = True, vh_max_ban_score = 80, ban_points_wrong_password = 10,
     cert_user_oid = Some ''uid'', cert_group_oid = None\<rparr>"

definition demo_entry :: "ps_auth \<Rightarrow> u32 \<Rightarrow> unit client_entry" where
  "demo_entry st n = \<lparr>sid = replicate 32 1, auth_ctx = None, session_is_open = n > 0, in_use = n, tls_auth_ok = True,
     msg_str = None, passwd_counter = 0, saved_stats = zero_stats, cur_stats = zero_stats, status = st,
     created = 100, exptime = 500, auth_type = 8, discon_reason = 2, acct_info = zero_acct\<lparr>username := ''bob''\<rparr>,
     req_group_name = [], cert_group_names = [], cert_user_name = ''bob'', module = None, ce_vhost = demo_vhost\<rparr>"

definition demo_sec :: "ps_auth \<Rightarrow> u32 \<Rightarrow> unit sec_mod" where
  "demo_sec st n = \<lparr>client_db = [(0, demo_entry st n)], vconfig = [demo_vhost], auth_failures = 0,
     max_auth_time = 0, avg_auth_time = 0, total_authentications = 0, sent = []\<rparr>"

definition demo_env :: sec_env where
  "demo_env = \<lparr>hash_any = (\<lambda>_. 0), send_msg = (\<lambda>_. 0), now = 200, now_later = 201, calc_safe_id = (\<lambda>_. []),
     rnd_sid = (\<lambda>_. None), rnd_seed = None, name_hash = (\<lambda>_. 7), alloc_ok = True, add_ok = True\<rparr>"

lemma demo_sec_wf: "sec_wf (\<lambda>_. 0) (demo_sec st n)"
  by (simp add: sec_wf_def demo_sec_def demo_entry_def)

lemma demo_sec_get: "kt_get (\<lambda>_. 0) sid (client_db (demo_sec st n)) (replicate 32 1) = Some (demo_entry st n)"
  by (simp add: demo_sec_def kt_get_def demo_entry_def)


text \<open>C10. A session is granted only to an authenticated client: when the security module answers a
  session request with OK, the identifier of the request belongs to an entry whose authentication is
  complete and which has not expired, and the answer names exactly that user and group.\<close>

theorem session_open_authenticated:
  assumes "sec_wf (hash_any env) sec"
    and "sent (snd (handle_secm_session_open_cmd env sec req)) = sent sec @ ms" and "SessionOk rep \<in> set ms"
  shows "\<exists>e. kt_get (hash_any env) sid (client_db sec) (or_sid req) = Some e \<and> status e = PS_AUTH_COMPLETED \<and>
    \<not> IS_CLIENT_ENTRY_EXPIRED e (now env) \<and> sr_sid rep = or_sid req \<and> sr_tls_auth_ok rep = tls_auth_ok e \<and>
    sr_username rep = username (acct_info e) \<and> sr_groupname rep = groupname (acct_info e)"
  using session_open_sent [OF assms(1), of req] assms(2,3) by auto

theorem session_open_authenticated_witness:
  "\<exists>e. kt_get (hash_any demo_env) sid (client_db (demo_sec PS_AUTH_COMPLETED 0)) (replicate 32 1) = Some e \<and>
     status e = PS_AUTH_COMPLETED \<and> \<not> IS_CLIENT_ENTRY_EXPIRED e 200 \<and> ''bob'' = username (acct_info e)"
proof -
  let ?req = "\<lparr>or_sid = replicate 32 1, or_ipv4 = None, or_ipv6 = None\<rparr>"
  let ?rep = "\<lparr>sr_username = ''bob'', sr_groupname = [], sr_ip = [], sr_tls_auth_ok = True, sr_vhost = None,
    sr_ipv4_seed = 7, sr_sid = replicate 32 1\<rparr>"
  have "sent (snd (handle_secm_session_open_cmd demo_env (demo_sec PS_AUTH_COMPLETED 0) ?req)) =
      sent (demo_sec PS_AUTH_COMPLETED 0) @ [SessionOk ?rep]"
    by code_simp
  from session_open_authenticated [OF _ this, of ?rep] show ?thesis
    using demo_sec_wf by (auto simp: demo_env_def)
qed

text \<open>A failed authentication never recovers: once the authentication of a session failed (a wrong
  password, a ban, a protocol error), no request makes that session authenticated again; it stays
  failed until its entry is removed.\<close>

theorem failed_stays_failed:
  assumes "sec_wf H sec" and "sec_step H sec sec'"
    and "kt_get H sid (client_db sec) k = Some e" and "status e = PS_AUTH_FAILED"
  shows "case kt_get H sid (client_db sec') k of None \<Rightarrow> True | Some e' \<Rightarrow> status e' = PS_AUTH_FAILED"
proof -
  have "evolve (Some e) (db_get H sec' k)"
    using sec_step_refines [OF assms(2,1)] assms(3) by (auto simp: refines_def dest: spec [of _ k])
  then show ?thesis
    using assms(4) by (cases rule: evolve_SomeE) (auto simp: authenticating_def same_login_def)
qed

theorem failed_stays_failed_witness:
  "case kt_get (\<lambda>_. 0) sid (client_db (snd (handle_sec_auth_cont demo_env (demo_sec PS_AUTH_FAILED 0)
      (replicate 32 1) (Some ''secret'')))) (replicate 32 1) of
     None \<Rightarrow> True | Some e' \<Rightarrow> status e' = PS_AUTH_FAILED"
  by (rule failed_stays_failed [OF demo_sec_wf st_cont demo_sec_get]) (simp_all add: demo_env_def demo_entry_def)

text \<open>C11. Logging in with a method that demands a client certificate takes the certificate: in every
  state the security module reaches from an empty database, a session with a completed
  authentication of such a method belongs to a client that presented a valid certificate.\<close>

theorem certificate_required:
  assumes "(sec_step H)\<^sup>*\<^sup>* sec0 sec" and "client_db sec0 = []"
    and "kt_get H sid (client_db sec) k = Some e" and "status e = PS_AUTH_COMPLETED"
    and "auth_type e AND AUTH_TYPE_CERTIFICATE \<noteq> 0"
  shows "tls_auth_ok e"
proof -
  have "sec_wf H sec \<and> (\<forall>k e. db_get H sec k = Some e \<longrightarrow> status e = PS_AUTH_COMPLETED \<longrightarrow> cert_ok e)"
    using assms(1)
  proof (induction rule: rtranclp_induct)
    case base
    then show ?case using assms(2) by (simp add: sec_wf_def)
  next
    case (step sec1 sec2)
    have r: "refines H sec1 sec2" using sec_step_refines [OF step.hyps(2)] step.IH by blast
    have "cert_ok e'" if "db_get H sec2 k = Some e'" "status e' = PS_AUTH_COMPLETED" for k e'
    proof -
      have "evolve (db_get H sec1 k) (Some e')" using r that(1) by (auto simp: refines_def dest: spec [of _ k])
      then show ?thesis using that(2) step.IH
        by cases (auto simp: same_login_def cert_ok_def)
    qed
    with r show ?case by (simp add: refines_def)
  qed
  then show ?thesis using assms(3-5) by (auto simp: cert_ok_def)
qed

definition demo_init_req :: auth_init_req where
  "demo_init_req = \<lparr>ir_tls_auth_ok = True, ir_user_name = None, ir_group_name = None, ir_cert_user_name = Some ''bob'',
     ir_cert_group_names = [], ir_ip = ''10.0.0.1'', ir_auth_type = 8, ir_our_ip = None, ir_user_agent = None, ir_vhost = None\<rparr>"

definition demo_empty :: "unit sec_mod" where
  "demo_empty = (demo_sec PS_AUTH_INIT 0)\<lparr>client_db := [],
     vconfig := [demo_vhost\<lparr>auth_methods := [\<lparr>enabled = True, am_type = 8, amod = None\<rparr>]\<rparr>]\<rparr>"

definition demo_login_env :: sec_env where
  "demo_login_env = demo_env\<lparr>rnd_sid := (\<lambda>_. Some (replicate 32 3))\<rparr>"

theorem certificate_required_witness:
  "\<exists>e. kt_get (\<lambda>_. 0) sid (client_db (snd (handle_sec_auth_init demo_login_env demo_empty demo_init_req 9))) (replicate 32 3) = Some e \<and>
     username (acct_info e) = ''bob'' \<and> status e = PS_AUTH_COMPLETED \<and> tls_auth_ok e"
proof -
  let ?sec = "snd (handle_sec_auth_init demo_login_env demo_empty demo_init_req 9)"
  have ok: "case kt_get (\<lambda>_. 0) sid (client_db ?sec) (replicate 32 3) of None \<Rightarrow> False
      | Some e \<Rightarrow> username (acct_info e) = ''bob'' \<and> status e = PS_AUTH_COMPLETED \<and> auth_type e = 8"
    by code_simp
  then obtain e where e: "kt_get (\<lambda>_. 0) sid (client_db ?sec) (replicate 32 3) = Some e"
    "username (acct_info e) = ''bob''" "status e = PS_AUTH_COMPLETED" "auth_type e = 8"
    by (auto split: option.splits)
  have "sec_step (\<lambda>_. 0) demo_empty ?sec"
    by (rule st_init) (simp_all add: demo_login_env_def demo_env_def env_ok_def)
  then have "tls_auth_ok e"
    by (rule certificate_required [OF r_into_rtranclp _ e(1,3)]) (simp_all add: e(4) demo_empty_def)
  with e show ?thesis by blast
qed

text \<open>Closing a session adds its traffic to the totals of the cookie and releases one use: when the
  reply was sent, the entry holds the old totals plus the larger of the recorded and the reported
  counters, the current counters are zero and \<open>in_use\<close> went down by one, or the entry was deleted, which
  happens only when no other worker uses it.\<close>

theorem session_close_accounts:
  assumes "sec_wf (hash_any env) sec" and "length (cr_sid req) = SID_SIZE"
    and "kt_get (hash_any env) sid (client_db sec) (cr_sid req) = Some e" and "status e = PS_AUTH_COMPLETED"
    and "fst (handle_secm_session_close_cmd env sec req) = 0"
  shows "case kt_get (hash_any env) sid (client_db (snd (handle_secm_session_close_cmd env sec req))) (cr_sid req) of
      None \<Rightarrow> in_use e \<le> 1
    | Some e' \<Rightarrow> saved_stats e' = stats_add_to (saved_stats e) (close_stats req e) \<and> cur_stats e' = zero_stats \<and>
        in_use e' = (if in_use e = 0 then 0 else in_use e - 1)"
proof -
  let ?e = "e\<lparr>saved_stats := stats_add_to (saved_stats e) (close_stats req e), cur_stats := zero_stats\<rparr>"
  have u: "upd (hash_any env) sec (snd (handle_secm_session_close_cmd env sec req)) (cr_sid req) (expire_entry (now env) ?e)"
    using session_close_upd [OF assms(1-4)] assms(5) by (auto split: if_splits)
  have one: "in_use e - 1 = 0 \<Longrightarrow> in_use e \<le> 1" by simp
  show ?thesis
    unfolding upd_get [OF u] expire_entry_def Let_def
    by (auto simp: word_neq_0_conv [symmetric] dest: one)
qed

theorem session_close_accounts_witness:
  "case kt_get (hash_any demo_env) sid (client_db (snd (handle_secm_session_close_cmd demo_env (demo_sec PS_AUTH_COMPLETED 2)
      \<lparr>cr_sid = replicate 32 1, cr_uptime = Some 60, cr_bytes_in = Some 1000, cr_bytes_out = None\<rparr>))) (replicate 32 1) of
     None \<Rightarrow> False | Some e' \<Rightarrow> bytes_in (saved_stats e') = 1000 \<and> in_use e' = 1"
proof -
  let ?req = "\<lparr>cr_sid = replicate 32 1, cr_uptime = Some 60, cr_bytes_in = Some 1000, cr_bytes_out = None\<rparr>"
  let ?r = "handle_secm_session_close_cmd demo_env (demo_sec PS_AUTH_COMPLETED 2) ?req"
  have "fst ?r = 0" by code_simp
  with session_close_accounts [of demo_env "demo_sec PS_AUTH_COMPLETED 2" ?req "demo_entry PS_AUTH_COMPLETED 2"]
  have "case kt_get (hash_any demo_env) sid (client_db (snd ?r)) (replicate 32 1) of
      None \<Rightarrow> in_use (demo_entry PS_AUTH_COMPLETED 2) \<le> 1
    | Some e' \<Rightarrow> saved_stats e' = stats_add_to zero_stats (close_stats ?req (demo_entry PS_AUTH_COMPLETED 2)) \<and>
        in_use e' = 1"
    using demo_sec_wf demo_sec_get by (auto simp: demo_env_def demo_entry_def split: option.splits)
  then show ?thesis
    by (auto simp: demo_entry_def close_stats_def stats_add_to_def zero_stats_def raise_to_def word_le_nat_alt
        split: option.splits)
qed

text \<open>C31. A session that fails while a worker uses it is never released: if an entry has the status
  failed (for instance because its cookie was sent again in an authentication request, or the answer
  to a ban report came late) and a use count above zero, then after any number of further requests,
  session closes and cleanups at any time included, the entry is still there with the same count.\<close>

theorem failed_in_use_never_freed:
  assumes "(sec_step H)\<^sup>*\<^sup>* sec sec'" and "sec_wf H sec"
    and "kt_get H sid (client_db sec) k = Some e" and "status e = PS_AUTH_FAILED" and "in_use e \<noteq> 0"
  shows "\<exists>e'. kt_get H sid (client_db sec') k = Some e' \<and> status e' = PS_AUTH_FAILED \<and> in_use e' = in_use e"
  using assms(1)
proof (induction rule: rtranclp_induct)
  case base
  then show ?case using assms by auto
next
  case (step sec1 sec2)
  then obtain e1 where e1: "db_get H sec1 k = Some e1" "status e1 = PS_AUTH_FAILED" "in_use e1 = in_use e" by auto
  have "refines H sec1 sec2"
    using sec_step_refines [OF step.hyps(2)] sec_steps_wf [OF step.hyps(1) assms(2)] by blast
  then have "evolve (Some e1) (db_get H sec2 k)" using e1 by (auto simp: refines_def dest: spec [of _ k])
  then show ?case using e1 assms(5)
    by (cases rule: evolve_SomeE) (auto simp: authenticating_def same_login_def)
qed

theorem failed_in_use_never_freed_witness:
  "\<exists>e'. kt_get (\<lambda>_. 0) sid (client_db (cleanup_client_entries 1000000 (snd (handle_secm_session_close_cmd demo_env
       (snd (handle_sec_auth_cont demo_env (demo_sec PS_AUTH_COMPLETED 1) (replicate 32 1) (Some ''x'')))
       \<lparr>cr_sid = replicate 32 1, cr_uptime = None, cr_bytes_in = None, cr_bytes_out = None\<rparr>)))) (replicate 32 1) = Some e' \<and>
     in_use e' = 1"
proof -
  let ?s0 = "demo_sec PS_AUTH_COMPLETED 1"
  let ?s1 = "snd (handle_sec_auth_cont demo_env ?s0 (replicate 32 1) (Some ''x''))"
  let ?s2 = "snd (handle_secm_session_close_cmd demo_env ?s1
    \<lparr>cr_sid = replicate 32 1, cr_uptime = None, cr_bytes_in = None, cr_bytes_out = None\<rparr>)"
  have h: "hash_any demo_env = (\<lambda>_. 0)" by (simp add: demo_env_def)
  have "case kt_get (\<lambda>_. 0) sid (client_db ?s1) (replicate 32 1) of None \<Rightarrow> False
      | Some e \<Rightarrow> status e = PS_AUTH_FAILED \<and> in_use e = 1"
    by code_simp
  then obtain e where e: "kt_get (\<lambda>_. 0) sid (client_db ?s1) (replicate 32 1) = Some e" "status e = PS_AUTH_FAILED" "in_use e = 1"
    by (auto split: option.splits)
  have wf: "sec_wf (\<lambda>_. 0) ?s1"
    using sec_step_refines [OF st_cont [OF h] demo_sec_wf] by (simp add: refines_def)
  have "(sec_step (\<lambda>_. 0))\<^sup>*\<^sup>* ?s1 (cleanup_client_entries 1000000 ?s2)"
    by (rule rtranclp.rtrancl_into_rtrancl, rule r_into_rtranclp, rule st_close [OF h], rule st_cleanup)
  from failed_in_use_never_freed [OF this wf e(1,2)] e(3) show ?thesis by auto
qed

text \<open>C32. The user name of the certificate is compared before the authentication module has its say: when
  the client names no user, the name of the certificate is taken, the comparison succeeds, and then
  \<^verbatim>\<open>auth_user\<close> of the module replaces the name. The login completes under whatever name the module
  gives (for GSSAPI, the principal of the ticket), also when it differs from that of the certificate.\<close>

theorem module_name_overrides_certificate:
  assumes "sec_wf (hash_any env) sec" and "kt_get (hash_any env) sid (client_db sec) (sid e) \<noteq> None"
    and "\<And>m. send_msg env m = 0" and "status e \<noteq> PS_AUTH_FAILED" and "tls_auth_ok e"
    and "auth_type e AND AUTH_TYPE_CERTIFICATE \<noteq> 0"
    and "username (acct_info e) = []" and "cert_user_name e \<noteq> []"
    and "cert_user_oid (ce_vhost e) \<noteq> None" and "cert_group_oid (ce_vhost e) = None"
    and "module e = Some m" and "auth_group m = None" and "fst (auth_msg m (auth_ctx e)) = 0"
  shows "\<exists>e'. kt_get (hash_any env) sid (client_db (snd (handle_sec_auth_res env sec e 0))) (sid e) = Some e' \<and>
    status e' = PS_AUTH_COMPLETED \<and>
    username (acct_info e') = take 127 (auth_user m (auth_ctx e) (strlcpy 128 (cert_user_name e)))"
proof -
  obtain msg cnt where msg: "auth_msg m (auth_ctx e) = (0, msg, cnt)" using assms(13) by (metis prod.collapse)
  let ?e1 = "e\<lparr>msg_str := msg, passwd_counter := cnt\<rparr>"
  let ?e2 = "?e1\<lparr>acct_info := (acct_info e)\<lparr>username := strlcpy 128 (cert_user_name e)\<rparr>\<rparr>"
  have "auth_res_msg e 0 = (0, \<not> passwd_counter e < cnt, ?e1)"
    using assms(11) msg by (simp add: auth_res_msg_def)
  then have res: "handle_sec_auth_res env sec e 0 = auth_res_complete env sec ?e1"
    using assms(4) by (simp add: handle_sec_auth_res_def)
  have "check_group ?e1 = (0, ?e2)"
    using assms(5-12) by (simp add: check_group_def check_cert_user_group_status_def)
  then have "\<exists>sec1 e'. auth_res_complete env sec ?e1 = (0, put_entry (hash_any env) sec1 e') \<and> client_db sec1 = client_db sec \<and>
      sid e' = sid e \<and> status e' = PS_AUTH_COMPLETED \<and>
      username (acct_info e') = take 127 (auth_user m (auth_ctx e) (strlcpy 128 (cert_user_name e)))"
    using assms(3,11) by (simp add: auth_res_complete_def send_sec_auth_reply_def sec_send_def) (auto intro!: exI)
  then obtain sec1 e' where c: "auth_res_complete env sec ?e1 = (0, put_entry (hash_any env) sec1 e')"
    "client_db sec1 = client_db sec" "sid e' = sid e" "status e' = PS_AUTH_COMPLETED"
    "username (acct_info e') = take 127 (auth_user m (auth_ctx e) (strlcpy 128 (cert_user_name e)))" by blast
  have "sec_wf (hash_any env) sec1" using assms(1) c(2) by (simp add: sec_wf_def)
  then have "db_get (hash_any env) (put_entry (hash_any env) sec1 e') (sid e) = Some e'"
    using put_entry_get [of "hash_any env" sec1 e'] assms(2) c(2,3) by simp
  with c res show ?thesis by auto
qed

definition demo_ticket_mod :: "unit auth_mod" where
  "demo_ticket_mod = \<lparr>allows_retries = False, auth_init = (\<lambda>_. (0, None)), auth_msg = (\<lambda>_. (0, None, 0)),
     auth_pass = (\<lambda>_ _. (0, None)), auth_group = None, auth_user = (\<lambda>_ _. ''mallory'')\<rparr>"

theorem module_name_overrides_certificate_witness:
  "\<exists>e'. kt_get (hash_any demo_env) sid (client_db (snd (handle_sec_auth_res demo_env (demo_sec PS_AUTH_INIT 0)
       ((demo_entry PS_AUTH_INIT 0)\<lparr>acct_info := zero_acct, module := Some demo_ticket_mod\<rparr>) 0))) (replicate 32 1) = Some e' \<and>
     status e' = PS_AUTH_COMPLETED \<and> cert_user_name (demo_entry PS_AUTH_INIT 0) = ''bob'' \<and>
     username (acct_info e') = ''mallory''"
proof -
  let ?e = "(demo_entry PS_AUTH_INIT 0)\<lparr>acct_info := zero_acct, module := Some demo_ticket_mod\<rparr>"
  have "\<exists>e'. kt_get (hash_any demo_env) sid (client_db (snd (handle_sec_auth_res demo_env (demo_sec PS_AUTH_INIT 0) ?e 0))) (sid ?e) = Some e' \<and>
      status e' = PS_AUTH_COMPLETED \<and>
      username (acct_info e') = take 127 (auth_user demo_ticket_mod (auth_ctx ?e) (strlcpy 128 (cert_user_name ?e)))"
    using demo_sec_wf demo_sec_get
    by (intro module_name_overrides_certificate)
      (simp_all add: demo_env_def demo_entry_def demo_vhost_def zero_acct_def demo_ticket_mod_def)
  then show ?thesis by (auto simp: demo_entry_def demo_ticket_mod_def)
qed

end
