(* ===== verification/MainTypes.thy ===== *)
theory MainTypes
  imports SecModDb IpUtil ConfigPorts Htable MainBan
begin

text \<open>
  The state of the main process, \<^verbatim>\<open>struct main_server_st\<close> and \<^verbatim>\<open>struct proc_st\<close> of
  \<^verbatim>\<open>src/src/main.h\<close>, with the configuration it reads (\<^verbatim>\<open>struct cfg_st\<close>, \<^verbatim>\<open>struct vpn_st\<close> of
  \<^verbatim>\<open>vpn.h\<close>, the message \<^verbatim>\<open>group_cfg_st\<close> of \<^verbatim>\<open>ipc.proto\<close>) and the address leases of
  \<^verbatim>\<open>ip-lease.h\<close>.

  The objects \<^verbatim>\<open>proc_st\<close> are shared: the process list and four hash tables hold pointers to them.
  They live in a heap, a map from pointers (numbers) to objects, and the lists and tables hold the
  pointers. An optional protobuf field is an \<open>option\<close>, which stands for its \<^verbatim>\<open>has_\<close> flag or its \<^verbatim>\<open>NULL\<close>;
  an array with its size is a list, an optional one where the code tests the pointer. What the
  process does to the outside is the sequence of its outputs.
\<close>

section \<open>Leases\<close>

text \<open>\<open>in_db\<close> tells whether the field \<^verbatim>\<open>db\<close> is set, \<open>destr\<close> whether the destructor is installed that
  removes the lease from the table when it is freed.\<close>

record lease =
  sig :: sockaddr
  rip :: sockaddr
  rip_len :: nat
  lip :: sockaddr
  lip_len :: nat
  lprefix :: u32
  in_db :: bool
  destr :: bool

section \<open>Configuration\<close>

record group_cfg =
  gc_interim_update_secs :: "u32 option"
  gc_session_timeout_secs :: "u32 option"
  gc_no_udp :: "bool option"
  gc_deny_roaming :: "bool option"
  gc_routes :: "string list option"
  gc_iroutes :: "string list"
  gc_dns :: "string list option"
  gc_nbns :: "string list option"
  gc_ipv4_net :: "string option"
  gc_ipv4_netmask :: "string option"
  gc_ipv6_net :: "string option"
  gc_ipv6_prefix :: "u32 option"
  gc_cgroup :: "string option"
  gc_xml_config_file :: "string option"
  gc_rx_per_sec :: "u32 option"
  gc_tx_per_sec :: "u32 option"
  gc_net_priority :: "u32 option"
  gc_explicit_ipv4 :: "string option"
  gc_explicit_ipv6 :: "string option"
  gc_no_routes :: "string list option"
  gc_ipv6_subnet_prefix :: "u32 option"
  gc_dpd :: "u32 option"
  gc_mobile_dpd :: "u32 option"
  gc_keepalive :: "u32 option"
  gc_max_same_clients :: "u32 option"
  gc_tunnel_all_dns :: "u32 option"
  gc_restrict_user_to_routes :: "bool option"
  gc_mtu :: "u32 option"
  gc_idle_timeout :: "u32 option"
  gc_mobile_idle_timeout :: "u32 option"
  gc_fw_ports :: "fw_port list"
  gc_split_dns :: "string list option"

record vpn_net =
  net_ipv4_netmask :: "string option"
  net_ipv4_network :: "string option"
  net_ipv4 :: "string option"
  net_ipv6_network :: "string option"
  net_ipv6_prefix :: u32
  net_ipv6 :: "string option"
  net_mtu :: u32
  net_ipv6_subnet_prefix :: u32
  net_routes :: "string list option"
  net_no_routes :: "string list option"
  net_dns :: "string list option"
  net_nbns :: "string list option"

record main_cfg =
  cf_listen_proxy_proto :: bool
  cf_stats_report_time :: u32
  cf_split_dns :: "string list option"
  cf_append_routes :: bool
  cf_restrict_user_to_routes :: bool
  cf_deny_roaming :: bool
  cf_session_timeout :: time_t
  cf_idle_timeout :: u32
  cf_mobile_idle_timeout :: u32
  cf_keepalive :: u32
  cf_dpd :: u32
  cf_mobile_dpd :: u32
  cf_max_same_clients :: u32
  cf_tunnel_all_dns :: u32
  cf_rx_per_sec :: u64
  cf_tx_per_sec :: u64
  cf_net_priority :: u32
  cf_route_add_cmd :: "string option"
  cf_route_del_cmd :: "string option"
  cf_connect_script :: "string option"
  cf_host_update_script :: "string option"
  cf_disconnect_script :: "string option"
  cf_cgroup :: "string option"
  cf_xml_config_file :: "string option"
  cf_known_iroutes :: "string list"
  cf_fw_ports :: "fw_port list"
  cf_network :: vpn_net
  cf_max_clients :: u32
  cf_dtls_psk :: bool
  cf_usage_count :: int

record main_vhost =
  mv_name :: "string option"
  mv_config :: main_cfg
  mv_stats_reset_time :: u32
  mv_udp_port :: u32
  mv_unix_conn_file :: bool

section \<open>Client processes\<close>

text \<open>The DTLS session identifier is as long as \<^verbatim>\<open>dtls_session_id_size\<close> says. \<open>p_vhost\<close> is the position
  of the virtual host in the list, and \<open>p_counted\<close> tells that \<^verbatim>\<open>config_usage_count\<close> points to its
  usage count.\<close>

record proc =
  p_fd :: int
  p_pid :: int
  p_pid_killed :: bool
  p_conn_time :: time_t
  p_tun_name :: string
  p_tun_fd :: int
  p_ipv4 :: "lease option"
  p_ipv6 :: "lease option"
  p_remote_addr :: sockaddr
  p_remote_addr_len :: nat
  p_dtls_remote_addr :: sockaddr
  p_dtls_remote_addr_len :: nat
  p_our_addr :: sockaddr
  p_our_addr_len :: nat
  p_sid :: bytes
  p_active_sid :: bool
  p_host_updated :: bool
  p_dtls_session_id :: bytes
  p_username :: string
  p_groupname :: string
  p_hostname :: string
  p_user_agent :: string
  p_tls_ciphersuite :: string
  p_dtls_ciphersuite :: string
  p_cstp_compr :: string
  p_dtls_compr :: string
  p_mtu :: u32
  p_ipv4_seed :: bytes
  p_status :: ps_auth
  p_bytes_in :: u64
  p_bytes_out :: u64
  p_discon_reason :: u32
  p_udp_fd_receive_time :: time_t
  p_applied_iroutes :: bool
  p_config :: "group_cfg option"
  p_counted :: bool
  p_vhost :: "nat option"

section \<open>The server\<close>

record main_stats =
  st_session_timeouts :: u64
  st_session_idle_timeouts :: u64
  st_session_errors :: u64
  st_sessions_closed :: u64
  st_kbytes_in :: u64
  st_kbytes_out :: u64
  st_min_mtu :: u32
  st_max_mtu :: u32
  st_active_clients :: u32
  st_secmod_client_entries :: u32
  st_tlsdb_entries :: u32
  st_last_reset :: time_t
  st_avg_auth_time :: u32
  st_max_auth_time :: u32
  st_avg_session_mins :: u32
  st_max_session_mins :: u32
  st_auth_failures :: u64
  st_total_auth_failures :: u64
  st_total_sessions_closed :: u64

type_synonym proc_ptr = nat

datatype script_type = SCRIPT_CONNECT | SCRIPT_HOST_UPDATE | SCRIPT_DISCONNECT

record cookie_reply =
  ck_session_id :: bytes
  ck_sid :: bytes
  ck_vname :: string
  ck_user_name :: string
  ck_group_name :: string
  ck_ipv4 :: "string option"
  ck_ipv4_local :: "string option"
  ck_ipv6 :: "string option"
  ck_ipv6_local :: "string option"
  ck_config :: "group_cfg option"

text \<open>What the process does to the outside: messages to a worker, signals, commands and scripts that
  are run.\<close>

datatype main_out =
  Cookie_Ok proc_ptr int cookie_reply
| Cookie_Failed proc_ptr
| Ban_Reply proc_ptr bool
| Secm_Ban_Reply "bytes option"
| Kill int
| Run_Script script_type proc_ptr string "string option"
| Route_Cmd string
| Close_Fd int
| Cgroup_Write string int
| Udp_Fd proc_ptr bytes bool

record main_server =
  s_vconfig :: "main_vhost list"
  s_ip_leases :: "lease htable"
  s_heap :: "proc_ptr \<rightharpoonup> proc"
  s_proc_list :: "proc_ptr list"
  s_script_list :: "(int \<times> proc_ptr) list"
  s_db_ip :: "proc_ptr htable"
  s_db_dtls_ip :: "proc_ptr htable"
  s_db_dtls_id :: "proc_ptr htable"
  s_db_sid :: "proc_ptr htable"
  s_proc_total :: u32
  s_ban :: ban_server
  s_stats :: main_stats
  s_out :: "main_out list"

definition emit :: "main_out \<Rightarrow> main_server \<Rightarrow> main_server" where
  "emit x s = s\<lparr>s_out := s_out s @ [x]\<rparr>"

text \<open>A store through the pointer of a process.\<close>

definition put_proc :: "proc_ptr \<Rightarrow> proc \<Rightarrow> main_server \<Rightarrow> main_server" where
  "put_proc p pr s = s\<lparr>s_heap := (s_heap s)(p \<mapsto> pr)\<rparr>"

lemma emit_simps [simp]:
  "s_heap (emit x s) = s_heap s" "s_vconfig (emit x s) = s_vconfig s" "s_ip_leases (emit x s) = s_ip_leases s"
  "s_proc_list (emit x s) = s_proc_list s" "s_script_list (emit x s) = s_script_list s"
  "s_db_ip (emit x s) = s_db_ip s" "s_db_dtls_ip (emit x s) = s_db_dtls_ip s"
  "s_db_dtls_id (emit x s) = s_db_dtls_id s" "s_db_sid (emit x s) = s_db_sid s" "s_stats (emit x s) = s_stats s"
  "s_out (emit x s) = s_out s @ [x]" "s_proc_total (emit x s) = s_proc_total s"
  "s_ban (emit x s) = s_ban s"
  by (simp_all add: emit_def)

lemma put_proc_simps [simp]:
  "s_heap (put_proc p pr s) = (s_heap s)(p \<mapsto> pr)" "s_vconfig (put_proc p pr s) = s_vconfig s"
  "s_ip_leases (put_proc p pr s) = s_ip_leases s" "s_proc_list (put_proc p pr s) = s_proc_list s"
  "s_script_list (put_proc p pr s) = s_script_list s" "s_db_ip (put_proc p pr s) = s_db_ip s"
  "s_db_dtls_ip (put_proc p pr s) = s_db_dtls_ip s" "s_db_dtls_id (put_proc p pr s) = s_db_dtls_id s"
  "s_db_sid (put_proc p pr s) = s_db_sid s" "s_stats (put_proc p pr s) = s_stats s"
  "s_out (put_proc p pr s) = s_out s" "s_proc_total (put_proc p pr s) = s_proc_total s"
  "s_ban (put_proc p pr s) = s_ban s"
  by (simp_all add: put_proc_def)

section \<open>Virtual hosts\<close>

text \<open>\<^verbatim>\<open>GETCONFIG\<close>: the configuration of the default virtual host, the last one of the list.
  \<open>main_find_vhost\<close> gives the position of a virtual host.\<close>

definition getconfig :: "main_server \<Rightarrow> main_cfg" where
  "getconfig s = mv_config (last (s_vconfig s))"

fun main_find_vhost_loop :: "nat \<Rightarrow> main_vhost list \<Rightarrow> string \<Rightarrow> nat option" where
  "main_find_vhost_loop i [] name = None"
| "main_find_vhost_loop i (v # vs) name =
     (case mv_name v of
        Some n \<Rightarrow> if c_strcaseeq n name then Some i else main_find_vhost_loop (i + 1) vs name
      | None \<Rightarrow> main_find_vhost_loop (i + 1) vs name)"

definition main_find_vhost :: "main_vhost list \<Rightarrow> string option \<Rightarrow> nat" where
  "main_find_vhost vs name =
     (case name of
        None \<Rightarrow> length vs - 1
      | Some n \<Rightarrow> (case main_find_vhost_loop 0 vs n of Some i \<Rightarrow> i | None \<Rightarrow> length vs - 1))"

lemma main_find_vhost_loop_bound: "main_find_vhost_loop i vs n = Some j \<Longrightarrow> i \<le> j \<and> j < i + length vs"
  by (induction i vs n rule: main_find_vhost_loop.induct) (fastforce split: option.splits if_splits)+

lemma main_find_vhost_bound: "vs \<noteq> [] \<Longrightarrow> main_find_vhost vs name < length vs"
  by (auto simp: main_find_vhost_def split: option.splits dest: main_find_vhost_loop_bound)

section \<open>Example objects\<close>

definition demo_gc :: group_cfg where
  "demo_gc = \<lparr>gc_interim_update_secs = None, gc_session_timeout_secs = None, gc_no_udp = None, gc_deny_roaming = None,
     gc_routes = None, gc_iroutes = [], gc_dns = None, gc_nbns = None, gc_ipv4_net = Some ''10.0.0.0'',
     gc_ipv4_netmask = Some ''255.255.255.0'', gc_ipv6_net = Some ''fd00::'', gc_ipv6_prefix = Some 112,
     gc_cgroup = None, gc_xml_config_file = None, gc_rx_per_sec = None, gc_tx_per_sec = None,
     gc_net_priority = None, gc_explicit_ipv4 = None, gc_explicit_ipv6 = None, gc_no_routes = None,
     gc_ipv6_subnet_prefix = Some 128, gc_dpd = None, gc_mobile_dpd = None, gc_keepalive = None,
     gc_max_same_clients = None, gc_tunnel_all_dns = None, gc_restrict_user_to_routes = None, gc_mtu = None,
     gc_idle_timeout = None, gc_mobile_idle_timeout = None, gc_fw_ports = [], gc_split_dns = None\<rparr>"

definition demo_net :: vpn_net where
  "demo_net = \<lparr>net_ipv4_netmask = None, net_ipv4_network = None, net_ipv4 = None, net_ipv6_network = None,
     net_ipv6_prefix = 0, net_ipv6 = None, net_mtu = 1400, net_ipv6_subnet_prefix = 0, net_routes = None,
     net_no_routes = None, net_dns = None, net_nbns = None\<rparr>"

definition demo_cfg :: main_cfg where
  "demo_cfg = \<lparr>cf_listen_proxy_proto = False, cf_stats_report_time = 0, cf_split_dns = None, cf_append_routes = False,
     cf_restrict_user_to_routes = False, cf_deny_roaming = False, cf_session_timeout = 0, cf_idle_timeout = 0,
     cf_mobile_idle_timeout = 0, cf_keepalive = 300, cf_dpd = 90, cf_mobile_dpd = 1800, cf_max_same_clients = 0,
     cf_tunnel_all_dns = 0, cf_rx_per_sec = 0, cf_tx_per_sec = 0, cf_net_priority = 0,
     cf_route_add_cmd = Some ''ip route add %{RI} dev %D'', cf_route_del_cmd = Some ''ip route del %R dev %D'',
     cf_connect_script = None, cf_host_update_script = None, cf_disconnect_script = None, cf_cgroup = None,
     cf_xml_config_file = None, cf_known_iroutes = [], cf_fw_ports = [], cf_network = demo_net, cf_max_clients = 16, cf_dtls_psk = True, cf_usage_count = 0\<rparr>"

definition demo_vhost :: main_vhost where
  "demo_vhost = \<lparr>mv_name = None, mv_config = demo_cfg, mv_stats_reset_time = 0, mv_udp_port = 443, mv_unix_conn_file = False\<rparr>"

definition demo_proc :: proc where
  "demo_proc = \<lparr>p_fd = 5, p_pid = 100, p_pid_killed = False, p_conn_time = 0, p_tun_name = '''', p_tun_fd = - 1,
     p_ipv4 = None, p_ipv6 = None, p_remote_addr = zero_ss, p_remote_addr_len = 16, p_dtls_remote_addr = zero_ss,
     p_dtls_remote_addr_len = 0, p_our_addr = zero_ss, p_our_addr_len = 0, p_sid = replicate 32 0, p_active_sid = False,
     p_host_updated = False, p_dtls_session_id = [], p_username = '''', p_groupname = '''', p_hostname = '''',
     p_user_agent = '''', p_tls_ciphersuite = '''', p_dtls_ciphersuite = '''', p_cstp_compr = '''', p_dtls_compr = '''',
     p_mtu = 0, p_ipv4_seed = [0, 0, 0, 0], p_status = PS_AUTH_INACTIVE, p_bytes_in = 0, p_bytes_out = 0,
     p_discon_reason = 0, p_udp_fd_receive_time = 0, p_applied_iroutes = False, p_config = None, p_counted = False, p_vhost = None\<rparr>"

definition zero_main_stats :: main_stats where
  "zero_main_stats = \<lparr>st_session_timeouts = 0, st_session_idle_timeouts = 0, st_session_errors = 0, st_sessions_closed = 0,
     st_kbytes_in = 0, st_kbytes_out = 0, st_min_mtu = 0, st_max_mtu = 0, st_active_clients = 0,
     st_secmod_client_entries = 0, st_tlsdb_entries = 0, st_last_reset = 0, st_avg_auth_time = 0, st_max_auth_time = 0,
     st_avg_session_mins = 0, st_max_session_mins = 0, st_auth_failures = 0, st_total_auth_failures = 0,
     st_total_sessions_closed = 0\<rparr>"

definition demo_ban :: ban_server where
  "demo_ban = \<lparr>ban_db = Some [], ban_config = \<lparr>min_reauth_time = 300, max_ban_score = 80, ban_reset_time = 1200,
     ban_points_connect = 1\<rparr>\<rparr>"

definition demo_main :: main_server where
  "demo_main = \<lparr>s_vconfig = [demo_vhost], s_ip_leases = [], s_heap = Map.empty, s_proc_list = [], s_script_list = [], s_db_ip = [],
     s_db_dtls_ip = [], s_db_dtls_id = [], s_db_sid = [], s_proc_total = 0, s_ban = demo_ban, s_stats = zero_main_stats, s_out = []\<rparr>"

end
