(* ===== verification/IpLease.thy ===== *)
theory IpLease
  imports MainTypes
begin

text \<open>
  The leases of addresses, \<^verbatim>\<open>src/src/ip-lease.c\<close>: a table of the leases that were handed out, the
  choice of an IPv4 address and of an IPv6 subnet for a client, their release and their transfer to
  another process of the same session.

  The environment is a record: the hash of the table, SHA-1, the random bytes of each attempt, the
  answers to the pings (\<^verbatim>\<open>icmp-ping.c\<close>, network I/O), the outcome of the allocations, the parser of
  IPv6 addresses, and what the uninitialised stack variables hold. The device that is reset when
  leases are stolen is not modelled.
\<close>

section \<open>Environment\<close>

record lease_env =
  le_hash :: "bytes \<Rightarrow> u64"
  le_sha1 :: "bytes \<Rightarrow> bytes"
  le_rnd4 :: "nat \<Rightarrow> bytes" \<comment> \<open>the random bytes drawn when \<^verbatim>\<open>max_loops\<close> has the given value\<close>
  le_rnd6 :: "nat \<Rightarrow> bytes"
  le_ping4 :: "nat \<Rightarrow> sockaddr \<Rightarrow> int"
  le_ping6 :: "nat \<Rightarrow> sockaddr \<Rightarrow> int"
  le_talloc4 :: bool
  le_talloc6 :: bool
  le_add4 :: bool
  le_add6 :: bool
  le_pton6 :: "string \<Rightarrow> bytes option"
  le_stack_net :: sockaddr
  le_stack_tmp :: sockaddr

abbreviation (input) MAX_IP_TRIES :: nat where "MAX_IP_TRIES \<equiv> 16"
abbreviation (input) FIXED_IPS :: nat where "FIXED_IPS \<equiv> 5"

section \<open>The table\<close>

definition lease_rehash :: "(bytes \<Rightarrow> u64) \<Rightarrow> lease \<Rightarrow> u64" where
  "lease_rehash H e = H (SA_IN_P_GENERIC (sig e) (rip_len e))"

definition ip_lease_cmp :: "lease \<Rightarrow> sockaddr \<Rightarrow> nat \<Rightarrow> bool" where
  "ip_lease_cmp c1 c2_sig c2_len \<longleftrightarrow> rip_len c1 = c2_len \<and> ip_cmp (sig c1) c2_sig = 0"

definition ip_lease_init :: "lease htable" where
  "ip_lease_init = []"

definition ip_lease_deinit :: "lease htable \<Rightarrow> lease htable" where
  "ip_lease_deinit db = []"

definition ip_lease_exists :: "(bytes \<Rightarrow> u64) \<Rightarrow> lease htable \<Rightarrow> sockaddr \<Rightarrow> nat \<Rightarrow> bool" where
  "ip_lease_exists H db ip len =
     (htable_get db (H (SA_IN_P_GENERIC ip len)) (\<lambda>c. ip_lease_cmp c ip len) \<noteq> None)"

definition steal_ip_leases :: "proc \<Rightarrow> proc \<Rightarrow> proc \<times> proc" where
  "steal_ip_leases pr thief =
     (pr\<lparr>p_ipv4 := None, p_ipv6 := None\<rparr>, thief\<lparr>p_ipv4 := p_ipv4 pr, p_ipv6 := p_ipv6 pr\<rparr>)"

definition ip_from_seed :: "lease_env \<Rightarrow> bytes \<Rightarrow> nat \<Rightarrow> bytes" where
  "ip_from_seed env seed n = take n (le_sha1 env seed)"

definition is_ipv6_ok :: "lease_env \<Rightarrow> lease htable \<Rightarrow> sockaddr \<Rightarrow> sockaddr \<Rightarrow> bool" where
  "is_ipv6_ok env db net subnet \<longleftrightarrow>
     memcmp (SA_IN6_U8_P subnet) (SA_IN6_U8_P net) \<noteq> 0 \<and>
     \<not> ip_lease_exists (le_hash env) db subnet SIZEOF_SIN6"

definition is_ipv4_ok :: "lease_env \<Rightarrow> lease htable \<Rightarrow> sockaddr \<Rightarrow> sockaddr \<Rightarrow> bytes \<Rightarrow> bool" where
  "is_ipv4_ok env db ip net msk =
     (let broadcast = blit 4 (map2 (\<lambda>n m. n OR NOT m) (SA_IN_U8_P net) msk) net in
      \<not> (ip_lease_exists (le_hash env) db ip SIZEOF_SIN \<or> ip_cmp ip net = 0 \<or> ip_cmp ip broadcast = 0))"

section \<open>IPv4\<close>

definition zero_lease :: lease where
  "zero_lease = \<lparr>sig = zero_ss, rip = zero_ss, rip_len = 0, lip = zero_ss, lip_len = 0, lprefix = 0,
     in_db = False, destr = False\<rparr>"

text \<open>A host in the network: the bits of \<open>raw\<close> that the mask leaves free.\<close>

definition in_network :: "bytes \<Rightarrow> bytes \<Rightarrow> bytes \<Rightarrow> bytes" where
  "in_network raw msk net = map2 (OR) (map2 (\<lambda>r m. r AND NOT m) raw msk) net"

text \<open>The network address + 1, as the local address of the lease.\<close>

definition set_lip4 :: "sockaddr \<Rightarrow> lease \<Rightarrow> lease" where
  "set_lip4 network l =
     (let a = blit 0 (take SIZEOF_SIN network) (lip l)
      in l\<lparr>lip := a[7 := a ! 7 OR 1], lip_len := SIZEOF_SIN\<rparr>)"

definition set_rip4 :: "sockaddr \<Rightarrow> lease \<Rightarrow> lease" where
  "set_rip4 a l = l\<lparr>rip := blit 0 (take SIZEOF_SIN a) (rip l), rip_len := SIZEOF_SIN,
     sig := blit 0 (take SIZEOF_SIN a) (sig l)\<rparr>"

text \<open>The candidate of an attempt: first the seed, then five hashes of the previous candidate, then
  random addresses.\<close>

definition ipv4_raw :: "lease_env \<Rightarrow> bytes \<Rightarrow> nat \<Rightarrow> sockaddr \<Rightarrow> bytes" where
  "ipv4_raw env seed max_loops rnd =
     (if max_loops = MAX_IP_TRIES then seed
      else if max_loops < MAX_IP_TRIES - FIXED_IPS then le_rnd4 env max_loops
      else ip_from_seed env (SA_IN_U8_P rnd) 4)"

fun ipv4_loop ::
    "lease_env \<Rightarrow> lease htable \<Rightarrow> bytes \<Rightarrow> sockaddr \<Rightarrow> bytes \<Rightarrow> nat \<Rightarrow> sockaddr \<Rightarrow> lease \<Rightarrow> int \<times> lease option" where
  "ipv4_loop env db msk network seed 0 rnd l = (ERR_NO_IP, None)"
| "ipv4_loop env db msk network seed (Suc k) rnd l =
     (let rnd = blit 4 (in_network (ipv4_raw env seed (Suc k) rnd) msk (SA_IN_U8_P network)) rnd in
      if \<not> is_ipv4_ok env db rnd network msk then ipv4_loop env db msk network seed k rnd l
      else
        (let l = set_lip4 network (set_rip4 rnd l) in
         if memcmp (SA_IN_U8_P (lip l)) (SA_IN_U8_P (rip l)) = 0 then ipv4_loop env db msk network seed k rnd l
         else if le_ping4 env (Suc k) (rip l) = 0 then (0, Some l)
         else ipv4_loop env db msk network seed k rnd l))"

definition explicit_ipv4_lease ::
    "lease_env \<Rightarrow> lease htable \<Rightarrow> bytes \<Rightarrow> sockaddr \<Rightarrow> string \<Rightarrow> int \<times> lease option" where
  "explicit_ipv4_lease env db msk network ip =
     (case inet_pton4 ip of
        None \<Rightarrow> (- 1, None)
      | Some a \<Rightarrow>
          if \<not> le_talloc4 env then (ERR_MEM, None)
          else
            (let tmp = set_port [0, 0] (set_family AF_INET (blit 4 a (le_stack_tmp env)));
                 l = set_rip4 tmp zero_lease
             in if \<not> is_ipv4_ok env db (rip l) network msk then (ERR_NO_IP, None)
                else
                  (let l = set_lip4 network l in
                   if ip_cmp (lip l) (rip l) = 0 then (ERR_NO_IP, None) else (0, Some l))))"

definition get_ipv4_lease ::
    "lease_env \<Rightarrow> group_cfg \<Rightarrow> vpn_net \<Rightarrow> bytes \<Rightarrow> lease htable \<Rightarrow> int \<times> lease option" where
  "get_ipv4_lease env gc net seed db =
     (let (c_network, c_netmask) =
            (if gc_ipv4_net gc \<noteq> None \<and> gc_ipv4_netmask gc \<noteq> None then (gc_ipv4_net gc, gc_ipv4_netmask gc)
             else (net_ipv4 net, net_ipv4_netmask net))
      in case (c_network, c_netmask) of
           (Some nw, Some nm) \<Rightarrow>
             (case inet_pton4 nw of
                None \<Rightarrow> (- 1, None)
              | Some naddr \<Rightarrow>
                  (case inet_pton4 nm of
                     None \<Rightarrow> (- 1, None)
                   | Some msk \<Rightarrow>
                       (let network = set_port [0, 0] (set_family AF_INET
                              (blit 4 (map2 (AND) naddr msk) (le_stack_net env)))
                        in case gc_explicit_ipv4 gc of
                             Some ip \<Rightarrow> explicit_ipv4_lease env db msk network ip
                           | None \<Rightarrow>
                               if \<not> le_talloc4 env then (ERR_MEM, None)
                               else ipv4_loop env db msk network seed MAX_IP_TRIES
                                      (set_family AF_INET zero_ss) (zero_lease\<lparr>in_db := True\<rparr>))))
         | _ \<Rightarrow> (0, None))"

section \<open>IPv6\<close>

text \<open>The candidate of an attempt: a hash of the seed, then five hashes of the zeroed variable, then
  random bytes, which the code writes through \<^verbatim>\<open>SA_IN_U8_P\<close>, at the place of an IPv4 address.\<close>

definition ipv6_rnd :: "lease_env \<Rightarrow> bytes \<Rightarrow> nat \<Rightarrow> sockaddr" where
  "ipv6_rnd env seed max_loops =
     (let rnd = set_family AF_INET6 zero_ss in
      if max_loops = MAX_IP_TRIES then blit 8 (ip_from_seed env seed 16) rnd
      else if max_loops < MAX_IP_TRIES - FIXED_IPS then blit 4 (le_rnd6 env max_loops) rnd
      else blit 8 (ip_from_seed env (SA_IN6_U8_P rnd) 16) rnd)"

definition set_sig6 :: "bytes \<Rightarrow> bytes \<Rightarrow> sockaddr \<Rightarrow> sockaddr" where
  "set_sig6 addr subnet_mask sg = blit 8 (map2 (AND) addr subnet_mask) sg"

fun ipv6_loop ::
    "lease_env \<Rightarrow> lease htable \<Rightarrow> bytes \<Rightarrow> bytes \<Rightarrow> sockaddr \<Rightarrow> bytes \<Rightarrow> nat \<Rightarrow> lease \<Rightarrow> int \<times> lease option" where
  "ipv6_loop env db msk subnet_mask network seed 0 l = (ERR_NO_IP, None)"
| "ipv6_loop env db msk subnet_mask network seed (Suc k) l =
     (let rnd = ipv6_rnd env seed (Suc k);
          rnd = blit 8 (in_network (SA_IN6_U8_P rnd) msk (SA_IN6_U8_P network)) rnd;
          l = l\<lparr>sig := set_sig6 (SA_IN6_U8_P rnd) subnet_mask (set_port [0, 0] (set_family AF_INET6 (sig l)))\<rparr>
      in if \<not> is_ipv6_ok env db network (sig l)
         then ipv6_loop env db msk subnet_mask network seed k l
         else
           (let l = l\<lparr>rip_len := SIZEOF_SIN6, rip := blit 0 (take SIZEOF_SIN6 rnd) (rip l)\<rparr> in
            if lprefix l \<noteq> 128 \<or> le_ping6 env (Suc k) (rip l) = 0 then (0, Some l)
            else ipv6_loop env db msk subnet_mask network seed k l))"

definition explicit_ipv6_lease ::
    "lease_env \<Rightarrow> lease htable \<Rightarrow> bytes \<Rightarrow> sockaddr \<Rightarrow> string \<Rightarrow> int \<times> lease option" where
  "explicit_ipv6_lease env db subnet_mask network ip =
     (case le_pton6 env ip of
        None \<Rightarrow> (- 1, None)
      | Some a \<Rightarrow>
          if \<not> le_talloc6 env then (ERR_MEM, None)
          else
            (let tmp = set_family AF_INET6 (blit 8 a zero_ss);
                 l = zero_lease\<lparr>rip := blit 0 (take SIZEOF_SIN6 tmp) zero_ss, rip_len := SIZEOF_SIN6\<rparr>;
                 l = l\<lparr>sig := set_sig6 (SA_IN6_U8_P (rip l)) subnet_mask (sig l)\<rparr>
             in if \<not> is_ipv6_ok env db network (sig l) then (ERR_NO_IP, None) else (0, Some l)))"

definition finish_ipv6 :: "sockaddr \<Rightarrow> u32 \<Rightarrow> lease \<Rightarrow> lease" where
  "finish_ipv6 network subnet_prefix l =
     (let a = blit 0 (take SIZEOF_SIN6 network) (lip l)
      in l\<lparr>lip := a[23 := a ! 23 OR 1], lip_len := SIZEOF_SIN6, lprefix := subnet_prefix\<rparr>)"

definition get_ipv6_lease ::
    "lease_env \<Rightarrow> group_cfg \<Rightarrow> vpn_net \<Rightarrow> bytes \<Rightarrow> lease htable \<Rightarrow> int \<times> lease option" where
  "get_ipv6_lease env gc net seed db =
     (let (c_network, prefix, subnet_prefix) =
            (if gc_ipv6_net gc \<noteq> None \<and> (case gc_ipv6_subnet_prefix gc of None \<Rightarrow> 0 | Some x \<Rightarrow> x) \<noteq> 0
             then (gc_ipv6_net gc, case gc_ipv6_prefix gc of None \<Rightarrow> 0 | Some x \<Rightarrow> x,
                   case gc_ipv6_subnet_prefix gc of None \<Rightarrow> 0 | Some x \<Rightarrow> x)
             else (net_ipv6 net, net_ipv6_prefix net, net_ipv6_subnet_prefix net))
      in if c_network = None \<or> prefix = 0 \<or> subnet_prefix = 0 then (0, None)
         else
           (case (ipv6_prefix_to_mask prefix, ipv6_prefix_to_mask subnet_prefix, le_pton6 env (the c_network)) of
              (Some msk, Some subnet_mask, Some naddr) \<Rightarrow>
                (let network = set_port [0, 0] (set_family AF_INET6
                       (blit 8 (map2 (AND) naddr msk) (le_stack_net env)));
                     (ret, l) =
                       (case gc_explicit_ipv6 gc of
                          Some ip \<Rightarrow> explicit_ipv6_lease env db subnet_mask network ip
                        | None \<Rightarrow>
                            if \<not> le_talloc6 env then (ERR_MEM, None)
                            else ipv6_loop env db msk subnet_mask network seed MAX_IP_TRIES
                                   (zero_lease\<lparr>in_db := True\<rparr>))
                 in (ret, map_option (finish_ipv6 network subnet_prefix) l))
            | _ \<Rightarrow> (- 1, None)))"

section \<open>Getting and releasing leases\<close>

text \<open>What \<^verbatim>\<open>talloc_free\<close> does to the table: the destructor removes the object.\<close>

definition unref_ip_lease :: "(bytes \<Rightarrow> u64) \<Rightarrow> lease htable \<Rightarrow> lease \<Rightarrow> lease htable" where
  "unref_ip_lease H db l =
     (if in_db l then htable_del db (lease_rehash H l) (\<lambda>e. e = l) else db)"

definition free_lease :: "(bytes \<Rightarrow> u64) \<Rightarrow> lease option \<Rightarrow> lease htable \<Rightarrow> lease htable" where
  "free_lease H lo db = (case lo of None \<Rightarrow> db
     | Some l \<Rightarrow> if destr l then unref_ip_lease H db l else db)"

text \<open>The registration of a lease that was found: its return value, the lease and the table.\<close>

definition register_lease ::
    "(bytes \<Rightarrow> u64) \<Rightarrow> bool \<Rightarrow> lease option \<Rightarrow> lease htable \<Rightarrow> bool \<times> lease option \<times> lease htable" where
  "register_lease H add_ok lo db =
     (case lo of
        None \<Rightarrow> (True, None, db)
      | Some l \<Rightarrow>
          if \<not> in_db l then (True, Some l, db)
          else if \<not> add_ok then (False, Some l, db)
          else (let l = l\<lparr>destr := True\<rparr> in (True, Some l, htable_add db (lease_rehash H l) l)))"

text \<open>The two leases of a process, by family.\<close>

datatype family = Inet | Inet6

fun slot :: "family \<Rightarrow> proc \<Rightarrow> lease option" where
  "slot Inet pr = p_ipv4 pr"
| "slot Inet6 pr = p_ipv6 pr"

fun set_slot :: "family \<Rightarrow> lease option \<Rightarrow> proc \<Rightarrow> proc" where
  "set_slot Inet lo pr = pr\<lparr>p_ipv4 := lo\<rparr>"
| "set_slot Inet6 lo pr = pr\<lparr>p_ipv6 := lo\<rparr>"

fun slot_len :: "family \<Rightarrow> nat" where
  "slot_len Inet = SIZEOF_SIN"
| "slot_len Inet6 = SIZEOF_SIN6"

text \<open>One half of \<open>get_ip_leases\<close>: search and registration for one family, unless the process has a lease of
  it.\<close>

definition lease_phase ::
    "lease_env \<Rightarrow> family \<Rightarrow> group_cfg \<Rightarrow> vpn_net \<Rightarrow> lease htable \<Rightarrow> proc \<Rightarrow> int \<times> lease htable \<times> proc" where
  "lease_phase env f gc net db pr =
     (if slot f pr \<noteq> None then (0, db, pr)
      else
        (case (case f of Inet \<Rightarrow> get_ipv4_lease env gc net (p_ipv4_seed pr) db
                       | Inet6 \<Rightarrow> get_ipv6_lease env gc net (p_ipv4_seed pr) db) of
           (ret, lo) \<Rightarrow>
             if ret < 0 then (ret, db, set_slot f lo pr)
             else (case register_lease (le_hash env) (case f of Inet \<Rightarrow> le_add4 env | Inet6 \<Rightarrow> le_add6 env) lo db of
                     (ok, lo, db) \<Rightarrow> (if ok then 0 else - 1, db, set_slot f lo pr))))"

definition get_ip_leases ::
    "lease_env \<Rightarrow> group_cfg \<Rightarrow> vpn_net \<Rightarrow> lease htable \<Rightarrow> proc \<Rightarrow> int \<times> lease htable \<times> proc" where
  "get_ip_leases env gc net db pr =
     (case lease_phase env Inet gc net db pr of
        (r, db, pr) \<Rightarrow>
          if r < 0 then (r, db, pr)
          else (case lease_phase env Inet6 gc net db pr of
                  (r, db, pr) \<Rightarrow>
                    if r < 0 then (r, db, pr)
                    else if p_ipv4 pr = None \<and> p_ipv6 pr = None then (- 1, db, pr) else (0, db, pr)))"

definition remove_ip_leases :: "(bytes \<Rightarrow> u64) \<Rightarrow> lease htable \<Rightarrow> proc \<Rightarrow> lease htable \<times> proc" where
  "remove_ip_leases H db pr =
     (free_lease H (p_ipv6 pr) (free_lease H (p_ipv4 pr) db), pr\<lparr>p_ipv4 := None, p_ipv6 := None\<rparr>)"

definition remove_ip_lease :: "(bytes \<Rightarrow> u64) \<Rightarrow> lease htable \<Rightarrow> lease \<Rightarrow> lease htable" where
  "remove_ip_lease H db l = free_lease H (Some l) db"

section \<open>Addresses in their sockets\<close>

named_theorems ss_simps \<open>reading a socket address after writing it\<close>

lemma length_ss [ss_simps]:
  "length zero_ss = 128"
  "length a = 128 \<Longrightarrow> length (set_family f a) = 128"
  "length a = 128 \<Longrightarrow> length (set_port [x, y] a) = 128"
  by (simp_all add: zero_ss_def set_family_def set_port_def length_blit)

lemma sa_family_set [ss_simps]: "length a = 128 \<Longrightarrow> f < 65536 \<Longrightarrow> sa_family (set_family f a) = f"
  by (simp add: sa_family_def set_family_def nth_blit unat_of_nat)

lemma sa_family_other [ss_simps]:
  "length a = 128 \<Longrightarrow> sa_family (set_port [x, y] a) = sa_family a"
  "length a = 128 \<Longrightarrow> length b = 4 \<Longrightarrow> sa_family (blit 4 b a) = sa_family a"
  "length a = 128 \<Longrightarrow> length c = 16 \<Longrightarrow> sa_family (blit 4 c a) = sa_family a"
  "length a = 128 \<Longrightarrow> length c = 16 \<Longrightarrow> sa_family (blit 8 c a) = sa_family a"
  by (simp_all add: sa_family_def set_port_def nth_blit)

lemma sa_in_other [ss_simps]:
  "length a = 128 \<Longrightarrow> SA_IN_U8_P (set_port [x, y] a) = SA_IN_U8_P a"
  "length a = 128 \<Longrightarrow> SA_IN_U8_P (set_family f a) = SA_IN_U8_P a"
  "length a = 128 \<Longrightarrow> SA_IN6_U8_P (set_port [x, y] a) = SA_IN6_U8_P a"
  "length a = 128 \<Longrightarrow> SA_IN6_U8_P (set_family f a) = SA_IN6_U8_P a"
  by (simp_all add: SA_IN_U8_P_def SA_IN6_U8_P_def set_port_def set_family_def bslice_blit_above)

lemma sa_in_blit [ss_simps]:
  "length a = 128 \<Longrightarrow> length b = 4 \<Longrightarrow> SA_IN_U8_P (blit 4 b a) = b"
  "length a = 128 \<Longrightarrow> length c = 16 \<Longrightarrow> SA_IN6_U8_P (blit 8 c a) = c"
  by (simp_all add: SA_IN_U8_P_def SA_IN6_U8_P_def bslice_blit_same)

lemma length_sa_in [ss_simps]:
  "length a = 128 \<Longrightarrow> length (SA_IN_U8_P a) = 4" "length a = 128 \<Longrightarrow> length (SA_IN6_U8_P a) = 16"
  by (simp_all add: SA_IN_U8_P_def SA_IN6_U8_P_def length_bslice)

lemma copy_ss [ss_simps]:
  assumes "length a = 128" and "length b = 128"
  shows "sa_family (blit 0 (take 16 a) b) = sa_family a" "SA_IN_U8_P (blit 0 (take 16 a) b) = SA_IN_U8_P a"
    "sa_family (blit 0 (take 28 a) b) = sa_family a" "SA_IN6_U8_P (blit 0 (take 28 a) b) = SA_IN6_U8_P a"
    "length (blit 0 (take 16 a) b) = 128" "length (blit 0 (take 28 a) b) = 128"
  using assms
  by (simp_all add: sa_family_def nth_blit SA_IN_U8_P_def SA_IN6_U8_P_def length_blit)
    (simp_all add: bslice_def blit_def drop_take)

lemmas length_blit_ss [ss_simps] =
  length_blit [where off = 4 and xs = a and ys = b for a :: sockaddr and b]
  length_blit [where off = 8 and xs = a and ys = b for a :: sockaddr and b]

lemma ip_cmp4: "length a = 128 \<Longrightarrow> length b = 128 \<Longrightarrow> sa_family a = AF_INET \<Longrightarrow> ip_cmp a b = 0 \<longleftrightarrow> SA_IN_U8_P a = SA_IN_U8_P b"
  by (simp add: ip_cmp_def memcmp_eq_0_iff ss_simps)

lemma ip_cmp6: "length a = 128 \<Longrightarrow> length b = 128 \<Longrightarrow> sa_family a \<noteq> AF_INET \<Longrightarrow> ip_cmp a b = 0 \<longleftrightarrow> SA_IN6_U8_P a = SA_IN6_U8_P b"
  by (simp add: ip_cmp_def memcmp_eq_0_iff ss_simps)

lemma length_in_network [ss_simps]:
  "length raw = n \<Longrightarrow> length m = n \<Longrightarrow> length net = n \<Longrightarrow> length (in_network raw m net) = n"
  by (simp add: in_network_def)

section \<open>The table as a map from signatures\<close>

definition lease_key :: "lease \<Rightarrow> bytes" where
  "lease_key l = SA_IN_P_GENERIC (sig l) (rip_len l)"

text \<open>A lease of a family: its signature is an address of that family.\<close>

definition lease4 :: "lease \<Rightarrow> bool" where
  "lease4 l \<longleftrightarrow> length (sig l) = 128 \<and> rip_len l = SIZEOF_SIN \<and> sa_family (sig l) = AF_INET"

definition lease6 :: "lease \<Rightarrow> bool" where
  "lease6 l \<longleftrightarrow> length (sig l) = 128 \<and> rip_len l = SIZEOF_SIN6 \<and> sa_family (sig l) = AF_INET6"

definition lease_db_ok :: "(bytes \<Rightarrow> u64) \<Rightarrow> lease htable \<Rightarrow> bool" where
  "lease_db_ok H db \<longleftrightarrow> kt_inv H lease_key db \<and>
     (\<forall>(h, l) \<in> set db. (lease4 l \<or> lease6 l) \<and> in_db l \<and> destr l)"

lemma lease_key_length: "lease4 l \<Longrightarrow> length (lease_key l) = 4" "lease6 l \<Longrightarrow> length (lease_key l) = 16"
  by (simp_all add: lease4_def lease6_def lease_key_def SA_IN_P_GENERIC_def ss_simps)

lemma ip_lease_cmp_key:
  assumes "lease4 l \<or> lease6 l" and "length ip = 128" and "len = SIZEOF_SIN \<or> len = SIZEOF_SIN6"
  shows "ip_lease_cmp l ip len \<longleftrightarrow> lease_key l = SA_IN_P_GENERIC ip len"
proof (cases "rip_len l = len")
  case True
  then show ?thesis
    using assms by (auto simp: ip_lease_cmp_def lease4_def lease6_def lease_key_def SA_IN_P_GENERIC_def
        ip_cmp4 ip_cmp6)
next
  case False
  then have "length (lease_key l) \<noteq> length (SA_IN_P_GENERIC ip len)"
    using assms by (auto simp: lease4_def lease6_def lease_key_def SA_IN_P_GENERIC_def ss_simps)
  then show ?thesis using False by (auto simp: ip_lease_cmp_def)
qed

lemma htable_get_eqI: "(\<And>h e. (h, e) \<in> set t \<Longrightarrow> P e = Q e) \<Longrightarrow> htable_get t k P = htable_get t k Q"
  by (induction t k P rule: htable_get.induct) auto

lemma ip_lease_exists_iff:
  assumes "lease_db_ok H db" and "length ip = 128" and "len = SIZEOF_SIN \<or> len = SIZEOF_SIN6"
  shows "ip_lease_exists H db ip len \<longleftrightarrow> kt_get H lease_key db (SA_IN_P_GENERIC ip len) \<noteq> None"
proof -
  have "htable_get db k (\<lambda>c. ip_lease_cmp c ip len) = htable_get db k (\<lambda>c. lease_key c = SA_IN_P_GENERIC ip len)" for k
    using assms(1) by (intro htable_get_eqI ip_lease_cmp_key assms(2,3)) (auto simp: lease_db_ok_def)
  then show ?thesis by (simp add: ip_lease_exists_def kt_get_def)
qed

lemma lease_rehash_key: "lease_rehash H l = H (lease_key l)"
  by (simp add: lease_rehash_def lease_key_def)

lemma lease_db_ok_add:
  assumes "lease_db_ok H db" and "kt_get H lease_key db (lease_key l) = None"
    and "lease4 l \<or> lease6 l" and "in_db l" and "destr l"
  shows "lease_db_ok H (htable_add db (lease_rehash H l) l)"
  using assms kt_inv_add [of H lease_key db l]
  by (auto simp: lease_db_ok_def kt_add_def lease_rehash_key htable_add_def)

lemma unref_kt:
  assumes "lease_db_ok H db" and "kt_get H lease_key db (lease_key l) = Some l"
  shows "htable_del db (lease_rehash H l) (\<lambda>e. e = l) = kt_del H lease_key db (lease_key l)"
proof -
  have "kt_inv H lease_key db" using assms(1) by (simp add: lease_db_ok_def)
  then show ?thesis
    using assms(2)
    by (induction rule: kt_induct) (auto simp: lease_rehash_key kt_del_def split: if_splits)
qed

lemma lease_db_ok_del:
  assumes "lease_db_ok H db"
  shows "lease_db_ok H (kt_del H lease_key db k)"
proof -
  have "set (kt_del H lease_key db k) \<subseteq> set db"
    unfolding kt_del_def by (rule htable_del_subset)
  with assms show ?thesis
    unfolding lease_db_ok_def by (auto intro: kt_inv_del)
qed

section \<open>The choice of an IPv4 address\<close>

text \<open>What the code expects of its environment: random bytes, digests, addresses and stack variables
  have their sizes.\<close>

definition lease_env_ok :: "lease_env \<Rightarrow> bool" where
  "lease_env_ok env \<longleftrightarrow> (\<forall>n. length (le_rnd4 env n) = 4) \<and> (\<forall>n. length (le_rnd6 env n) = 16) \<and>
     (\<forall>b. length (le_sha1 env b) = 20) \<and> (\<forall>s a. le_pton6 env s = Some a \<longrightarrow> length a = 16) \<and>
     length (le_stack_net env) = 128 \<and> length (le_stack_tmp env) = 128"

definition net_ok :: "nat \<Rightarrow> sockaddr \<Rightarrow> bool" where
  "net_ok f a \<longleftrightarrow> length a = 128 \<and> sa_family a = f"

lemma is_ipv4_ok_iff:
  assumes "lease_db_ok (le_hash env) db" and "net_ok AF_INET ip" and "net_ok AF_INET net" and "length m = 4"
  shows "is_ipv4_ok env db ip net m \<longleftrightarrow>
    kt_get (le_hash env) lease_key db (SA_IN_U8_P ip) = None \<and> SA_IN_U8_P ip \<noteq> SA_IN_U8_P net \<and>
    SA_IN_U8_P ip \<noteq> map2 (\<lambda>n m. n OR NOT m) (SA_IN_U8_P net) m"
  using assms
  by (auto simp: is_ipv4_ok_def Let_def net_ok_def ip_lease_exists_iff ip_cmp4 ss_simps SA_IN_P_GENERIC_def)

lemma in_network_mask:
  assumes "length raw = n" and "length m = n" and "length net = n" and "map2 (AND) net m = net"
  shows "map2 (AND) (in_network raw m net) m = net"
proof (rule nth_equalityI)
  fix i assume i: "i < length (map2 (AND) (in_network raw m net) m)"
  have "map2 (AND) net m ! i = (net ! i) AND (m ! i)"
    using i assms(1-3) by (simp add: in_network_def)
  then have "(net ! i) AND (m ! i) = net ! i" by (simp add: assms(4))
  moreover have "((r AND NOT m) OR x) AND m = x" if "x AND m = x" for r m x :: u8
  proof (rule bit_eqI)
    fix n
    show "bit (((r AND NOT m) OR x) AND m) n = bit x n"
      using arg_cong [OF that, of "\<lambda>x. bit x n"] by (auto simp: bit_simps)
  qed
  ultimately show "map2 (AND) (in_network raw m net) m ! i = net ! i"
    using i assms by (simp add: in_network_def)
qed (use assms in \<open>simp add: in_network_def\<close>)

lemma set_rip4_simps [simp]:
  "rip_len (set_rip4 a l) = SIZEOF_SIN" "in_db (set_rip4 a l) = in_db l" "destr (set_rip4 a l) = destr l"
  "lip (set_rip4 a l) = lip l" "rip (set_rip4 a l) = blit 0 (take 16 a) (rip l)"
  "sig (set_rip4 a l) = blit 0 (take 16 a) (sig l)"
  by (simp_all add: set_rip4_def)

lemma set_lip4_simps [simp]:
  "rip_len (set_lip4 a l) = rip_len l" "in_db (set_lip4 a l) = in_db l" "destr (set_lip4 a l) = destr l"
  "rip (set_lip4 a l) = rip l" "sig (set_lip4 a l) = sig l"
  by (simp_all add: set_lip4_def Let_def)

definition blank_lease :: "lease \<Rightarrow> bool" where
  "blank_lease l \<longleftrightarrow> length (sig l) = 128 \<and> length (rip l) = 128 \<and> length (lip l) = 128"

lemma blank_set [simp]:
  "blank_lease l \<Longrightarrow> length a = 128 \<Longrightarrow> blank_lease (set_rip4 a l)"
  "blank_lease l \<Longrightarrow> length a = 128 \<Longrightarrow> blank_lease (set_lip4 a l)"
  "blank_lease zero_lease" "blank_lease (zero_lease\<lparr>in_db := b\<rparr>)"
  by (simp_all add: blank_lease_def set_lip4_def Let_def ss_simps zero_lease_def)

text \<open>The local address: the network address with its last bit set.\<close>

definition local4 :: "bytes \<Rightarrow> bytes" where
  "local4 net = net[3 := net ! 3 OR 1]"

lemma lip_set_lip4:
  "blank_lease l \<Longrightarrow> length net = 128 \<Longrightarrow> SA_IN_U8_P (lip (set_lip4 net l)) = local4 (SA_IN_U8_P net)"
  by (auto simp: set_lip4_def Let_def blank_lease_def SA_IN_U8_P_def local4_def bslice_def blit_def
      drop_update_swap drop_take nth_append list_update_append nth_list_update intro!: nth_equalityI)

text \<open>A lease that may be handed out: an address of the network that is none of its special
  addresses, that no registered lease has, and that did not answer the ping.\<close>

definition good4 :: "lease_env \<Rightarrow> lease htable \<Rightarrow> bytes \<Rightarrow> bytes \<Rightarrow> lease \<Rightarrow> bool" where
  "good4 env db net m l \<longleftrightarrow>
     lease4 l \<and> blank_lease l \<and> SA_IN_U8_P (rip l) = SA_IN_U8_P (sig l) \<and>
     map2 (AND) (SA_IN_U8_P (rip l)) m = net \<and> SA_IN_U8_P (rip l) \<noteq> net \<and>
     SA_IN_U8_P (rip l) \<noteq> map2 (\<lambda>n m. n OR NOT m) net m \<and>
     SA_IN_U8_P (rip l) \<noteq> local4 net \<and> SA_IN_U8_P (lip l) = local4 net \<and>
     kt_get (le_hash env) lease_key db (lease_key l) = None \<and> (\<exists>k. le_ping4 env k (rip l) = 0)"

lemma length_ipv4_raw:
  "lease_env_ok env \<Longrightarrow> length seed = 4 \<Longrightarrow> length (ipv4_raw env seed k rnd) = 4"
  by (simp add: ipv4_raw_def lease_env_ok_def ip_from_seed_def)

lemma ipv4_loop_good:
  assumes "lease_env_ok env" and "lease_db_ok (le_hash env) db" and "length m = 4"
    and "net_ok AF_INET network" and "map2 (AND) (SA_IN_U8_P network) m = SA_IN_U8_P network" and "length seed = 4"
  shows "net_ok AF_INET rnd \<Longrightarrow> blank_lease l \<Longrightarrow>
    ipv4_loop env db m network seed n rnd l = (ERR_NO_IP, None) \<or>
    (\<exists>l'. ipv4_loop env db m network seed n rnd l = (0, Some l') \<and> in_db l' = in_db l \<and> destr l' = destr l \<and>
       good4 env db (SA_IN_U8_P network) m l')"
proof (induction n arbitrary: rnd l)
  case (Suc k)
  define rnd' where "rnd' = blit 4 (in_network (ipv4_raw env seed (Suc k) rnd) m (SA_IN_U8_P network)) rnd"
  define l' where "l' = set_lip4 network (set_rip4 rnd' l)"
  have len: "length network = 128" "length rnd = 128" "length (SA_IN_U8_P network) = 4"
    "length (ipv4_raw env seed (Suc k) rnd) = 4"
    using assms Suc.prems by (simp_all add: net_ok_def ss_simps length_ipv4_raw)
  have addr: "SA_IN_U8_P rnd' = in_network (ipv4_raw env seed (Suc k) rnd) m (SA_IN_U8_P network)"
    using len assms(3) by (simp add: rnd'_def ss_simps)
  have rnd': "net_ok AF_INET rnd'"
    using len assms(3) Suc.prems(1) by (simp add: rnd'_def net_ok_def ss_simps)
  have l': "blank_lease l'" using Suc.prems(2) rnd' len by (simp add: l'_def net_ok_def)
  have step: "ipv4_loop env db m network seed (Suc k) rnd l =
      (if \<not> is_ipv4_ok env db rnd' network m then ipv4_loop env db m network seed k rnd' l
       else if memcmp (SA_IN_U8_P (lip l')) (SA_IN_U8_P (rip l')) = 0 then ipv4_loop env db m network seed k rnd' l'
       else if le_ping4 env (Suc k) (rip l') = 0 then (0, Some l') else ipv4_loop env db m network seed k rnd' l')"
    by (simp add: Let_def rnd'_def l'_def)
  show ?case
  proof (cases "is_ipv4_ok env db rnd' network m \<and> memcmp (SA_IN_U8_P (lip l')) (SA_IN_U8_P (rip l')) \<noteq> 0 \<and>
      le_ping4 env (Suc k) (rip l') = 0")
    case True
    have r: "SA_IN_U8_P (rip l') = SA_IN_U8_P rnd'" "SA_IN_U8_P (sig l') = SA_IN_U8_P rnd'"
      "sa_family (sig l') = AF_INET" "length (sig l') = 128"
      using rnd' Suc.prems(2) by (simp_all add: l'_def net_ok_def blank_lease_def ss_simps)
    have lp: "SA_IN_U8_P (lip l') = local4 (SA_IN_U8_P network)"
      using rnd' Suc.prems(2) len by (simp add: l'_def net_ok_def lip_set_lip4)
    have "lease4 l'" using r by (simp add: lease4_def l'_def)
    moreover have "lease_key l' = SA_IN_U8_P rnd'"
      using r by (simp add: lease_key_def SA_IN_P_GENERIC_def l'_def)
    moreover have "SA_IN_U8_P (lip l') \<noteq> SA_IN_U8_P (rip l')"
      using True by (metis memcmp_eq_0_iff)
    moreover have "map2 (AND) (SA_IN_U8_P rnd') m = SA_IN_U8_P network"
      unfolding addr using len assms(3,5) by (intro in_network_mask) simp_all
    ultimately have "good4 env db (SA_IN_U8_P network) m l'"
      using True is_ipv4_ok_iff [OF assms(2) rnd' assms(4,3)] r lp l'
      unfolding good4_def by auto
    then show ?thesis using True unfolding step by (auto simp: l'_def)
  next
    case False
    have "ipv4_loop env db m network seed (Suc k) rnd l = ipv4_loop env db m network seed k rnd' l \<or>
        ipv4_loop env db m network seed (Suc k) rnd l = ipv4_loop env db m network seed k rnd' l'"
      using False unfolding step by auto
    moreover have "in_db l' = in_db l" "destr l' = destr l" by (simp_all add: l'_def)
    ultimately show ?thesis
      using Suc.IH [OF rnd' Suc.prems(2)] Suc.IH [OF rnd' l'] by (elim disjE) simp_all
  qed
qed simp

text \<open>The network of a configuration, as the code stores it.\<close>

abbreviation network4 :: "lease_env \<Rightarrow> bytes \<Rightarrow> bytes \<Rightarrow> sockaddr" where
  "network4 env naddr m \<equiv> set_port [0, 0] (set_family AF_INET (blit 4 (map2 (AND) naddr m) (le_stack_net env)))"

lemma map2_and_idem: "length a = length m \<Longrightarrow> map2 (AND) (map2 (AND) a m) m = map2 (AND) a (m :: bytes)"
  by (auto intro!: nth_equalityI simp: and.assoc)

lemma network4_ok:
  assumes "lease_env_ok env" and "length naddr = 4" and "length m = 4"
  shows "net_ok AF_INET (network4 env naddr m)" and "SA_IN_U8_P (network4 env naddr m) = map2 (AND) naddr m"
  using assms by (simp_all add: lease_env_ok_def net_ok_def ss_simps)

lemma ipv4_search:
  assumes "lease_env_ok env" and "lease_db_ok (le_hash env) db" and "length naddr = 4" and "length m = 4"
    and "length seed = 4"
    and "ipv4_loop env db m (network4 env naddr m) seed n (set_family AF_INET zero_ss) (zero_lease\<lparr>in_db := True\<rparr>) = r"
  shows "r = (ERR_NO_IP, None) \<or>
    (\<exists>l. r = (0, Some l) \<and> in_db l \<and> \<not> destr l \<and> good4 env db (map2 (AND) naddr m) m l)"
proof -
  note nw = network4_ok [OF assms(1,3,4)]
  have idem: "map2 (AND) (SA_IN_U8_P (network4 env naddr m)) m = SA_IN_U8_P (network4 env naddr m)"
    unfolding nw(2) using assms(3,4) by (intro map2_and_idem) simp
  let ?l = "zero_lease\<lparr>in_db := True\<rparr>"
  have "net_ok AF_INET (set_family AF_INET zero_ss)" by (simp add: net_ok_def ss_simps)
  then have "r = (ERR_NO_IP, None) \<or> (\<exists>l. r = (0, Some l) \<and> in_db l = in_db ?l \<and> destr l = destr ?l \<and>
      good4 env db (map2 (AND) naddr m) m l)"
    using ipv4_loop_good [OF assms(1,2,4) nw(1) idem assms(5) _ blank_set(4), where n = n]
    unfolding nw(2) assms(6) [symmetric] by blast
  moreover have "in_db ?l" "\<not> destr ?l" by (simp_all add: zero_lease_def)
  ultimately show ?thesis by auto
qed

lemma explicit4_cases:
  assumes "explicit_ipv4_lease env db m network ip = (ret, lo)"
  shows "ret < 0 \<and> lo = None \<or> ret = 0 \<and> (\<exists>l. lo = Some l \<and> \<not> in_db l \<and> \<not> destr l \<and> rip_len l = SIZEOF_SIN)"
  using assms
  by (auto simp: explicit_ipv4_lease_def Let_def zero_lease_def split: option.splits if_splits)

text \<open>What the search for an IPv4 lease may give.\<close>

definition found4 :: "lease_env \<Rightarrow> lease htable \<Rightarrow> int \<Rightarrow> lease option \<Rightarrow> bool" where
  "found4 env db ret lo \<longleftrightarrow> ret < 0 \<and> lo = None \<or>
     ret = 0 \<and> (case lo of None \<Rightarrow> True | Some l \<Rightarrow> \<not> destr l \<and> rip_len l = SIZEOF_SIN \<and>
       (in_db l \<longrightarrow> lease4 l \<and> kt_get (le_hash env) lease_key db (lease_key l) = None \<and>
         SA_IN_U8_P (rip l) = SA_IN_U8_P (sig l)))"

lemma get_ipv4_lease_found:
  assumes "lease_env_ok env" and "lease_db_ok (le_hash env) db" and "length seed = 4"
    and "get_ipv4_lease env gc net seed db = (ret, lo)"
  shows "found4 env db ret lo"
proof -
  have "found4 env db ret lo" if "inet_pton4 nw = Some naddr" "inet_pton4 nm = Some m"
    "(case gc_explicit_ipv4 gc of
       Some ip \<Rightarrow> explicit_ipv4_lease env db m (network4 env naddr m) ip
     | None \<Rightarrow> if \<not> le_talloc4 env then (ERR_MEM, None)
         else ipv4_loop env db m (network4 env naddr m) seed MAX_IP_TRIES
                (set_family AF_INET zero_ss) (zero_lease\<lparr>in_db := True\<rparr>)) = (ret, lo)" for nw nm naddr m
  proof (cases "gc_explicit_ipv4 gc")
    case None
    have len: "length naddr = 4" "length m = 4" using that(1,2) inet_pton4_length by blast+
    show ?thesis
    proof (cases "le_talloc4 env")
      case True
      then show ?thesis
        using ipv4_search [OF assms(1,2) len assms(3) refl, of 16] that(3) None
        by (auto simp: found4_def good4_def lease4_def)
    next
      case False
      then show ?thesis using that(3) None by (simp add: found4_def)
    qed
  next
    case (Some ip)
    then show ?thesis
      using explicit4_cases [of env db m "network4 env naddr m" ip ret lo] that(3) by (auto simp: found4_def)
  qed
  then show ?thesis
    using assms(4)
    by (auto simp: get_ipv4_lease_def found4_def Let_def split: option.splits prod.splits if_splits)
qed


section \<open>The choice of an IPv6 subnet\<close>

lemma is_ipv6_ok_iff:
  assumes "lease_db_ok (le_hash env) db" and "length net = 128" and "length subnet = 128"
  shows "is_ipv6_ok env db net subnet \<longleftrightarrow>
    SA_IN6_U8_P subnet \<noteq> SA_IN6_U8_P net \<and> kt_get (le_hash env) lease_key db (SA_IN6_U8_P subnet) = None"
  using assms
  by (auto simp: is_ipv6_ok_def ip_lease_exists_iff memcmp_eq_0_iff ss_simps SA_IN_P_GENERIC_def)

lemma ipv6_rnd_ok:
  assumes "lease_env_ok env"
  shows "length (ipv6_rnd env seed k) = 128" and "sa_family (ipv6_rnd env seed k) = AF_INET6"
    and "length (SA_IN6_U8_P (ipv6_rnd env seed k)) = 16"
  using assms by (simp_all add: ipv6_rnd_def Let_def lease_env_ok_def ip_from_seed_def ss_simps)

text \<open>A subnet that may be handed out.\<close>

definition good6 :: "lease_env \<Rightarrow> lease htable \<Rightarrow> bytes \<Rightarrow> bytes \<Rightarrow> bytes \<Rightarrow> lease \<Rightarrow> bool" where
  "good6 env db net m subnet_mask l \<longleftrightarrow>
     lease6 l \<and> SA_IN6_U8_P (sig l) = map2 (AND) (SA_IN6_U8_P (rip l)) subnet_mask \<and>
     map2 (AND) (SA_IN6_U8_P (rip l)) m = net \<and> SA_IN6_U8_P (sig l) \<noteq> net \<and>
     kt_get (le_hash env) lease_key db (lease_key l) = None"

lemma ipv6_loop_good:
  assumes "lease_env_ok env" and "lease_db_ok (le_hash env) db" and "length m = 16" and "length subnet_mask = 16"
    and "net_ok AF_INET6 network" and "map2 (AND) (SA_IN6_U8_P network) m = SA_IN6_U8_P network"
  shows "blank_lease l \<Longrightarrow> lprefix l = 0 \<Longrightarrow>
    ipv6_loop env db m subnet_mask network seed n l = (ERR_NO_IP, None) \<or>
    (\<exists>l'. ipv6_loop env db m subnet_mask network seed n l = (0, Some l') \<and> in_db l' = in_db l \<and> destr l' = destr l \<and>
       good6 env db (SA_IN6_U8_P network) m subnet_mask l')"
proof (induction n arbitrary: l)
  case (Suc k)
  define rnd where "rnd = blit 8 (in_network (SA_IN6_U8_P (ipv6_rnd env seed (Suc k))) m (SA_IN6_U8_P network))
    (ipv6_rnd env seed (Suc k))"
  define l1 where "l1 = l\<lparr>sig := set_sig6 (SA_IN6_U8_P rnd) subnet_mask (set_port [0, 0] (set_family AF_INET6 (sig l)))\<rparr>"
  define l' where "l' = l1\<lparr>rip_len := SIZEOF_SIN6, rip := blit 0 (take SIZEOF_SIN6 rnd) (rip l1)\<rparr>"
  have nlen: "length network = 128" "length (SA_IN6_U8_P network) = 16"
    using assms(5) by (simp_all add: net_ok_def ss_simps)
  note r6 = ipv6_rnd_ok [OF assms(1), of seed "Suc k"]
  have addr: "SA_IN6_U8_P rnd = in_network (SA_IN6_U8_P (ipv6_rnd env seed (Suc k))) m (SA_IN6_U8_P network)"
    and rnd: "length rnd = 128" and fam: "sa_family rnd = AF_INET6"
    using r6 nlen assms(3) by (simp_all add: rnd_def ss_simps)
  have s1: "length (sig l1) = 128" "sa_family (sig l1) = AF_INET6"
    "SA_IN6_U8_P (sig l1) = map2 (AND) (SA_IN6_U8_P rnd) subnet_mask"
    using Suc.prems(1) rnd assms(4) by (simp_all add: l1_def set_sig6_def blank_lease_def ss_simps)
  have step: "ipv6_loop env db m subnet_mask network seed (Suc k) l =
      (if is_ipv6_ok env db network (sig l1) then (0, Some l') else ipv6_loop env db m subnet_mask network seed k l1)"
    using Suc.prems(2) by (simp add: Let_def rnd_def l1_def l'_def)
  show ?case
  proof (cases "is_ipv6_ok env db network (sig l1)")
    case True
    have l': "sig l' = sig l1" "rip_len l' = SIZEOF_SIN6" "SA_IN6_U8_P (rip l') = SA_IN6_U8_P rnd"
      using rnd Suc.prems(1) by (simp_all add: l'_def l1_def blank_lease_def ss_simps)
    then have "lease6 l'" "lease_key l' = SA_IN6_U8_P (sig l1)"
      using s1 by (simp_all add: lease6_def lease_key_def SA_IN_P_GENERIC_def)
    moreover have "map2 (AND) (SA_IN6_U8_P rnd) m = SA_IN6_U8_P network"
      unfolding addr using r6 nlen assms(3,6) by (intro in_network_mask) simp_all
    ultimately have "good6 env db (SA_IN6_U8_P network) m subnet_mask l'"
      using True is_ipv6_ok_iff [OF assms(2) nlen(1) s1(1)] l' s1(3) by (simp add: good6_def)
    moreover have "in_db l' = in_db l" "destr l' = destr l" by (simp_all add: l'_def l1_def)
    ultimately show ?thesis using True step by auto
  next
    case False
    have "blank_lease l1" "lprefix l1 = 0"
      using Suc.prems s1(1) by (simp_all add: blank_lease_def l1_def)
    then show ?thesis using Suc.IH [of l1] False step by (simp add: l1_def)
  qed
qed simp

definition found6 :: "lease_env \<Rightarrow> lease htable \<Rightarrow> int \<Rightarrow> lease option \<Rightarrow> bool" where
  "found6 env db ret lo \<longleftrightarrow> ret < 0 \<and> lo = None \<or>
     ret = 0 \<and> (case lo of None \<Rightarrow> True | Some l \<Rightarrow> \<not> destr l \<and> rip_len l = SIZEOF_SIN6 \<and>
       (in_db l \<longrightarrow> lease6 l \<and> kt_get (le_hash env) lease_key db (lease_key l) = None))"

abbreviation network6 :: "lease_env \<Rightarrow> bytes \<Rightarrow> bytes \<Rightarrow> sockaddr" where
  "network6 env naddr m \<equiv> set_port [0, 0] (set_family AF_INET6 (blit 8 (map2 (AND) naddr m) (le_stack_net env)))"

lemma network6_ok:
  assumes "lease_env_ok env" and "length naddr = 16" and "length m = 16"
  shows "net_ok AF_INET6 (network6 env naddr m)" and "SA_IN6_U8_P (network6 env naddr m) = map2 (AND) naddr m"
  using assms by (simp_all add: lease_env_ok_def net_ok_def ss_simps)

lemma length_ipv6_mask: "ipv6_prefix_to_mask p = Some m \<Longrightarrow> length m = 16"
  by (auto simp: ipv6_prefix_to_mask_def split: if_splits)

lemma ipv6_search:
  assumes "lease_env_ok env" and "lease_db_ok (le_hash env) db" and "length naddr = 16" and "length m = 16"
    and "length sm = 16"
    and "ipv6_loop env db m sm (network6 env naddr m) seed n (zero_lease\<lparr>in_db := True\<rparr>) = r"
  shows "r = (ERR_NO_IP, None) \<or>
    (\<exists>l. r = (0, Some l) \<and> in_db l \<and> \<not> destr l \<and> good6 env db (map2 (AND) naddr m) m sm l)"
proof -
  note nw = network6_ok [OF assms(1,3,4)]
  have idem: "map2 (AND) (SA_IN6_U8_P (network6 env naddr m)) m = SA_IN6_U8_P (network6 env naddr m)"
    unfolding nw(2) using assms(3,4) by (intro map2_and_idem) simp
  let ?l = "zero_lease\<lparr>in_db := True\<rparr>"
  have fl: "in_db ?l" "\<not> destr ?l" "lprefix ?l = 0" by (simp_all add: zero_lease_def)
  have "r = (ERR_NO_IP, None) \<or> (\<exists>l. r = (0, Some l) \<and> in_db l = in_db ?l \<and> destr l = destr ?l \<and>
      good6 env db (map2 (AND) naddr m) m sm l)"
    using ipv6_loop_good [OF assms(1,2,4,5) nw(1) idem blank_set(4) fl(3), where n = n]
    unfolding nw(2) assms(6) [symmetric] by blast
  with fl show ?thesis by auto
qed

lemma finish_ipv6_simps [simp]:
  "sig (finish_ipv6 nw p l) = sig l" "rip (finish_ipv6 nw p l) = rip l" "rip_len (finish_ipv6 nw p l) = rip_len l"
  "in_db (finish_ipv6 nw p l) = in_db l" "destr (finish_ipv6 nw p l) = destr l"
  "lease_key (finish_ipv6 nw p l) = lease_key l" "lease6 (finish_ipv6 nw p l) = lease6 l"
  by (simp_all add: finish_ipv6_def Let_def lease_key_def lease6_def)

lemma explicit6_cases:
  assumes "explicit_ipv6_lease env db sm network ip = (ret, lo)"
  shows "ret < 0 \<and> lo = None \<or> ret = 0 \<and> (\<exists>l. lo = Some l \<and> \<not> in_db l \<and> \<not> destr l \<and> rip_len l = SIZEOF_SIN6)"
  using assms
  by (auto simp: explicit_ipv6_lease_def Let_def zero_lease_def split: option.splits if_splits)

lemma get_ipv6_lease_found:
  assumes "lease_env_ok env" and "lease_db_ok (le_hash env) db"
    and "get_ipv6_lease env gc net seed db = (ret, lo)"
  shows "found6 env db ret lo"
proof -
  have fin: "found6 env db ret (map_option (finish_ipv6 nw p) lo1)" if "found6 env db ret lo1" for nw p ret lo1
    using that by (cases lo1) (auto simp: found6_def)
  have "found6 env db ret lo1" if "ipv6_prefix_to_mask p = Some m" "ipv6_prefix_to_mask sp = Some sm"
    "le_pton6 env nw = Some naddr"
    "(case gc_explicit_ipv6 gc of
       Some ip \<Rightarrow> explicit_ipv6_lease env db sm (network6 env naddr m) ip
     | None \<Rightarrow> if \<not> le_talloc6 env then (ERR_MEM, None)
         else ipv6_loop env db m sm (network6 env naddr m) seed MAX_IP_TRIES (zero_lease\<lparr>in_db := True\<rparr>)) = (ret, lo1)"
    for p m sp sm nw naddr ret lo1
  proof (cases "gc_explicit_ipv6 gc")
    case None
    have len: "length naddr = 16" "length m = 16" "length sm = 16"
      using that(1-3) assms(1) length_ipv6_mask by (auto simp: lease_env_ok_def)
    show ?thesis
    proof (cases "le_talloc6 env")
      case True
      then show ?thesis
        using ipv6_search [OF assms(1,2) len refl, of seed 16] that(4) None
        by (auto simp: found6_def good6_def lease6_def)
    next
      case False
      then show ?thesis using that(4) None by (simp add: found6_def)
    qed
  next
    case (Some ip)
    then show ?thesis
      using explicit6_cases [of env db sm "network6 env naddr m" ip ret lo1] that(4) by (auto simp: found6_def)
  qed
  note this [THEN fin]
  then show ?thesis
    using assms(3)
    by (auto simp: get_ipv6_lease_def found6_def [of env db "- 1" None] found6_def [of env db 0 None] Let_def
        split: option.splits prod.splits if_splits)
qed

section \<open>Leases and their owners\<close>

lemma slot_set_slot [simp]: "slot f (set_slot g lo pr) = (if f = g then lo else slot f pr)"
  by (cases f; cases g) simp_all

lemma set_slot_same [simp]: "set_slot f (slot f pr) pr = pr"
  by (cases f) simp_all

text \<open>The invariant of the table and the processes: the table holds well-formed leases under distinct
  signatures; a registered lease of a process is in the table, no two processes hold the same
  registered lease, and every lease of the table belongs to a process.\<close>

definition lease_inv :: "(bytes \<Rightarrow> u64) \<Rightarrow> lease htable \<Rightarrow> (proc_ptr \<rightharpoonup> proc) \<Rightarrow> bool" where
  "lease_inv H db heap \<longleftrightarrow> lease_db_ok H db \<and>
     (\<forall>p pr f l. heap p = Some pr \<longrightarrow> slot f pr = Some l \<longrightarrow> rip_len l = slot_len f \<and>
        (destr l \<longrightarrow> in_db l \<and> kt_get H lease_key db (lease_key l) = Some l)) \<and>
     (\<forall>p q pr qr f g l. heap p = Some pr \<longrightarrow> heap q = Some qr \<longrightarrow> slot f pr = Some l \<longrightarrow> slot g qr = Some l \<longrightarrow>
        destr l \<longrightarrow> p = q) \<and>
     (\<forall>k l. kt_get H lease_key db k = Some l \<longrightarrow> (\<exists>p pr f. heap p = Some pr \<and> slot f pr = Some l))"

lemma lease_invD:
  assumes "lease_inv H db heap"
  shows "lease_db_ok H db"
    and "heap p = Some pr \<Longrightarrow> slot f pr = Some l \<Longrightarrow> rip_len l = slot_len f"
    and "heap p = Some pr \<Longrightarrow> slot f pr = Some l \<Longrightarrow> destr l \<Longrightarrow> in_db l"
    and "heap p = Some pr \<Longrightarrow> slot f pr = Some l \<Longrightarrow> destr l \<Longrightarrow> kt_get H lease_key db (lease_key l) = Some l"
    and "heap p = Some pr \<Longrightarrow> heap q = Some qr \<Longrightarrow> slot f pr = Some l \<Longrightarrow> slot g qr = Some l \<Longrightarrow> destr l \<Longrightarrow> p = q"
    and "kt_get H lease_key db k = Some l \<Longrightarrow> \<exists>p pr f. heap p = Some pr \<and> slot f pr = Some l"
  using assms unfolding lease_inv_def by blast+

lemma lease_db_kt: "lease_db_ok H db \<Longrightarrow> kt_inv H lease_key db"
  by (simp add: lease_db_ok_def)

lemma kt_get_flags:
  "lease_db_ok H db \<Longrightarrow> kt_get H lease_key db k = Some l \<Longrightarrow> in_db l \<and> destr l \<and> lease_key l = k"
  using kt_get_mem [of H lease_key db k l] kt_get_key [of H lease_key db k l]
  by (auto simp: lease_db_ok_def)

lemma lease_inv_insert:
  assumes inv: "lease_inv H db heap" and p: "heap p = Some pr" "slot f pr = None"
    and l: "rip_len l = slot_len f" "lease4 l \<or> lease6 l" "in_db l" "destr l"
    and new: "kt_get H lease_key db (lease_key l) = None"
  shows "lease_inv H (htable_add db (lease_rehash H l) l) (heap(p \<mapsto> set_slot f (Some l) pr))"
proof -
  note D = lease_invD [OF inv]
  let ?db = "htable_add db (lease_rehash H l) l" and ?heap = "heap(p \<mapsto> set_slot f (Some l) pr)"
  have get: "kt_get H lease_key ?db = (kt_get H lease_key db)(lease_key l \<mapsto> l)"
    using kt_get_add [OF lease_db_kt [OF D(1)] new] by (simp add: kt_add_def lease_rehash_key)
  have old: "q = p \<and> g = f \<and> l' = l \<or> (\<exists>qr'. heap q = Some qr' \<and> slot g qr' = Some l' \<and> (q = p \<longrightarrow> g \<noteq> f))"
    if "?heap q = Some qr" "slot g qr = Some l'" for q qr g l'
    using that p by (auto split: if_splits)
  have neq: "lease_key l' \<noteq> lease_key l" if "heap q = Some qr" "slot g qr = Some l'" "destr l'" for q qr g l'
    using D(4) [OF that] new by auto
  show ?thesis
    unfolding lease_inv_def
  proof (intro conjI allI impI, goal_cases)
    case 1
    show ?case using lease_db_ok_add [OF D(1) new l(2-4)] .
  next
    case (2 q qr g l')
    then show ?case using old [OF 2] l(1) D(2) by auto
  next
    case (3 q qr g l')
    then show ?case using old [OF 3(1,2)] l(3) D(3) by auto
  next
    case (4 q qr g l')
    then show ?case using old [OF 4(1,2)] D(4) neq by (auto simp: get)
  next
    case (5 q q' qr qr' g g' l')
    show ?case
      using old [OF 5(1,3)] old [OF 5(2,4)] D(5) neq 5(5) by blast
  next
    case (6 k l')
    show ?case
    proof (cases "k = lease_key l")
      case True
      then have "l' = l" using 6 by (simp add: get)
      then show ?thesis by (intro exI [of _ p] exI [of _ "set_slot f (Some l) pr"] exI [of _ f]) simp
    next
      case False
      then have "kt_get H lease_key db k = Some l'" using 6 by (simp add: get)
      then obtain q qr g where q: "heap q = Some qr" "slot g qr = Some l'" using D(6) by blast
      show ?thesis
      proof (cases "q = p")
        case True
        then have "g \<noteq> f" "qr = pr" using q p by auto
        then show ?thesis
          using q by (intro exI [of _ p] exI [of _ "set_slot f (Some l) pr"] exI [of _ g]) simp
      next
        case False
        then show ?thesis using q by (intro exI [of _ q] exI [of _ qr] exI [of _ g]) simp
      qed
    qed
  qed
qed

text \<open>A lease that is not registered does not touch the table.\<close>

lemma lease_inv_private:
  assumes inv: "lease_inv H db heap" and p: "heap p = Some pr" "slot f pr = None"
    and l: "rip_len l = slot_len f" "\<not> destr l"
  shows "lease_inv H db (heap(p \<mapsto> set_slot f (Some l) pr))"
proof -
  note D = lease_invD [OF inv]
  let ?heap = "heap(p \<mapsto> set_slot f (Some l) pr)"
  have old: "q = p \<and> l' = l \<and> g = f \<or> (\<exists>qr'. heap q = Some qr' \<and> slot g qr' = Some l')"
    if "?heap q = Some qr" "slot g qr = Some l'" for q qr g l'
    using that p by (auto split: if_splits)
  show ?thesis
    unfolding lease_inv_def
  proof (intro conjI allI impI, goal_cases)
    case (2 q qr g l')
    then show ?case using old [OF 2] l(1) D(2) by auto
  next
    case (3 q qr g l')
    then show ?case using old [OF 3(1,2)] l(2) D(3) by auto
  next
    case (4 q qr g l')
    then show ?case using old [OF 4(1,2)] l(2) D(4) by auto
  next
    case (5 q q' qr qr' g g' l')
    show ?case using old [OF 5(1,3)] old [OF 5(2,4)] D(5) 5(5) l(2) by blast
  next
    case (6 k l')
    then obtain q qr g where q: "heap q = Some qr" "slot g qr = Some l'" using D(6) by blast
    show ?case
    proof (cases "q = p")
      case True
      then show ?thesis
        using q p by (intro exI [of _ p] exI [of _ "set_slot f (Some l) pr"] exI [of _ g]) auto
    next
      case False
      then show ?thesis using q by (intro exI [of _ q] exI [of _ qr] exI [of _ g]) simp
    qed
  qed (rule D(1))
qed

lemma lease_inv_free:
  assumes inv: "lease_inv H db heap" and p: "heap p = Some pr"
  shows "lease_inv H (free_lease H (slot f pr) db) (heap(p \<mapsto> set_slot f None pr))"
proof (cases "slot f pr")
  case None
  then have "set_slot f None pr = pr" by (metis set_slot_same)
  then show ?thesis using None inv p by (simp add: free_lease_def fun_upd_idem)
next
  case (Some l)
  note D = lease_invD [OF inv]
  let ?db = "free_lease H (Some l) db" and ?heap = "heap(p \<mapsto> set_slot f None pr)"
  have get: "kt_get H lease_key ?db = (if destr l then (kt_get H lease_key db)(lease_key l := None) else kt_get H lease_key db)"
    and ok: "lease_db_ok H ?db"
    using D(1) D(3,4) [OF p Some] unref_kt [OF D(1)] kt_get_del [OF lease_db_kt [OF D(1)]] lease_db_ok_del [OF D(1)]
    by (auto simp: free_lease_def unref_ip_lease_def)
  have old: "\<exists>qr'. heap q = Some qr' \<and> slot g qr' = Some l' \<and> (q = p \<longrightarrow> g \<noteq> f)"
    if "?heap q = Some qr" "slot g qr = Some l'" for q qr g l'
    using that p by (auto split: if_splits)
  have neq: "lease_key l' \<noteq> lease_key l"
    if q: "heap q = Some qr" "slot g qr = Some l'" "q = p \<longrightarrow> g \<noteq> f" "destr l'" "destr l" for q qr g l'
  proof
    assume "lease_key l' = lease_key l"
    with D(4) [OF q(1,2,4)] D(4) [OF p Some q(5)] have "l' = l" by (metis option.inject)
    then have "q = p" using D(5) [OF q(1) p q(2) _ q(4)] Some by blast
    then have "g \<noteq> f" using q(3) by simp
    moreover have "slot_len g = slot_len f" using D(2) [OF q(1,2)] D(2) [OF p Some] \<open>l' = l\<close> by simp
    ultimately show False by (cases f; cases g) simp_all
  qed
  show ?thesis
    unfolding lease_inv_def Some
  proof (intro conjI allI impI, goal_cases)
    case (2 q qr g l')
    then show ?case using old [OF 2] D(2) by blast
  next
    case (3 q qr g l')
    then show ?case using old [OF 3(1,2)] D(3) by blast
  next
    case (4 q qr g l')
    then show ?case using old [OF 4(1,2)] D(4) neq by (fastforce simp: get)
  next
    case (5 q q' qr qr' g g' l')
    show ?case using old [OF 5(1,3)] old [OF 5(2,4)] D(5) 5(5) by blast
  next
    case (6 k l')
    have k: "kt_get H lease_key db k = Some l'" "destr l \<longrightarrow> k \<noteq> lease_key l"
      using 6 by (auto simp: get split: if_splits)
    have fl: "destr l'" "lease_key l' = k" using kt_get_flags [OF D(1) k(1)] by simp_all
    obtain q qr g where q: "heap q = Some qr" "slot g qr = Some l'" using D(6) k(1) by blast
    have "l' \<noteq> l" using k(2) fl by auto
    show ?case
    proof (cases "q = p")
      case True
      then have "g \<noteq> f" "qr = pr" using q p Some \<open>l' \<noteq> l\<close> by auto
      then show ?thesis
        using q by (intro exI [of _ p] exI [of _ "set_slot f None pr"] exI [of _ g]) simp
    next
      case False
      then show ?thesis using q by (intro exI [of _ q] exI [of _ qr] exI [of _ g]) simp
    qed
  qed (rule ok)
qed

definition found :: "lease_env \<Rightarrow> family \<Rightarrow> lease htable \<Rightarrow> int \<Rightarrow> lease option \<Rightarrow> bool" where
  "found env f db ret lo = (case f of Inet \<Rightarrow> found4 env db ret lo | Inet6 \<Rightarrow> found6 env db ret lo)"

lemma foundD:
  assumes "found env f db ret lo"
  shows "ret < 0 \<Longrightarrow> lo = None" and "\<not> ret < 0 \<Longrightarrow> lo = Some l \<Longrightarrow> \<not> destr l \<and> rip_len l = slot_len f"
    and "\<not> ret < 0 \<Longrightarrow> lo = Some l \<Longrightarrow> in_db l \<Longrightarrow>
      (lease4 l \<or> lease6 l) \<and> kt_get (le_hash env) lease_key db (lease_key l) = None"
  using assms by (cases f; auto simp: found_def found4_def found6_def)+

lemma set_slot_None: "slot f pr = None \<Longrightarrow> set_slot f None pr = pr"
  by (metis set_slot_same)

lemma register_inv:
  assumes "lease_inv (le_hash env) db heap" and "heap p = Some pr" and "slot f pr = None"
    and "found env f db ret lo" and "\<not> ret < 0"
    and "register_lease (le_hash env) add_ok lo db = (ok, lo', db')"
  shows "lease_inv (le_hash env) db' (heap(p \<mapsto> set_slot f lo' pr))"
proof (cases lo)
  case None
  then have "lo' = None" "db' = db" using assms(6) by (simp_all add: register_lease_def)
  then show ?thesis using assms(1,2) set_slot_None [OF assms(3)] by (simp add: fun_upd_idem)
next
  case (Some l)
  note F = foundD(2,3) [OF assms(4,5) Some]
  show ?thesis
  proof (cases "in_db l \<and> add_ok")
    case True
    let ?l = "l\<lparr>destr := True\<rparr>"
    have k: "lease_key ?l = lease_key l" "lease4 ?l = lease4 l" "lease6 ?l = lease6 l"
      by (simp_all add: lease_key_def lease4_def lease6_def)
    have "lease_inv (le_hash env) (htable_add db (lease_rehash (le_hash env) ?l) ?l) (heap(p \<mapsto> set_slot f (Some ?l) pr))"
      using F True k by (intro lease_inv_insert assms(1-3)) simp_all
    moreover have "lo' = Some ?l" "db' = htable_add db (lease_rehash (le_hash env) ?l) ?l"
      using assms(6) Some True by (auto simp: register_lease_def Let_def)
    ultimately show ?thesis by simp
  next
    case False
    then have "lo' = Some l" "db' = db"
      using assms(6) Some by (auto simp: register_lease_def Let_def split: if_splits)
    then show ?thesis using F(1) lease_inv_private [OF assms(1-3)] by simp
  qed
qed

lemma set_slot_ex: "\<exists>lo. pr = set_slot f lo pr"
  by (metis set_slot_same)

lemma lease_phase_inv:
  assumes "lease_env_ok env" and "lease_inv (le_hash env) db heap" and "heap p = Some pr"
    and "length (p_ipv4_seed pr) = 4" and "lease_phase env f gc net db pr = (ret, db', pr')"
  shows "lease_inv (le_hash env) db' (heap(p \<mapsto> pr')) \<and> (\<exists>lo. pr' = set_slot f lo pr)"
proof (cases "slot f pr")
  case (Some l)
  then show ?thesis
    using assms(2,3,5) set_slot_ex [of pr f] by (auto simp: lease_phase_def fun_upd_idem)
next
  case None
  obtain r lo where r: "(case f of Inet \<Rightarrow> get_ipv4_lease env gc net (p_ipv4_seed pr) db
      | Inet6 \<Rightarrow> get_ipv6_lease env gc net (p_ipv4_seed pr) db) = (r, lo)" by fastforce
  have "found env f db r lo"
    using r get_ipv4_lease_found [OF assms(1) lease_invD(1) [OF assms(2)] assms(4)]
      get_ipv6_lease_found [OF assms(1) lease_invD(1) [OF assms(2)]]
    by (cases f) (auto simp: found_def)
  note F = this
  show ?thesis
  proof (cases "r < 0")
    case True
    then have "pr' = pr" "db' = db"
      using assms(5) None r foundD(1) [OF F] by (auto simp: lease_phase_def set_slot_None)
    then show ?thesis
      using assms(2,3) set_slot_ex [of pr f] by (auto simp: fun_upd_idem)
  next
    case False
    obtain ok lo' db1 where g: "register_lease (le_hash env) (case f of Inet \<Rightarrow> le_add4 env | Inet6 \<Rightarrow> le_add6 env) lo db
        = (ok, lo', db1)" by (metis prod_cases3)
    then have "pr' = set_slot f lo' pr" "db' = db1"
      using assms(5) None r False by (auto simp: lease_phase_def)
    then show ?thesis using register_inv [OF assms(2,3) None F False g] by auto
  qed
qed

lemma get_ip_leases_inv:
  assumes "lease_env_ok env" and "lease_inv (le_hash env) db heap" and "heap p = Some pr"
    and "length (p_ipv4_seed pr) = 4" and "get_ip_leases env gc net db pr = (ret, db', pr')"
  shows "lease_inv (le_hash env) db' (heap(p \<mapsto> pr')) \<and> (\<exists>a b. pr' = pr\<lparr>p_ipv4 := a, p_ipv6 := b\<rparr>)"
proof -
  obtain r1 db1 pr1 where ph1: "lease_phase env Inet gc net db pr = (r1, db1, pr1)" by (metis prod_cases3)
  have i1: "lease_inv (le_hash env) db1 (heap(p \<mapsto> pr1))" and "\<exists>a. pr1 = pr\<lparr>p_ipv4 := a\<rparr>"
    using lease_phase_inv [OF assms(1-4) ph1] by auto
  then obtain a where pr1: "pr1 = pr\<lparr>p_ipv4 := a\<rparr>" by blast
  show ?thesis
  proof (cases "r1 < 0")
    case True
    then have "db' = db1" "pr' = pr1" using assms(5) ph1 by (simp_all add: get_ip_leases_def)
    moreover have "pr1 = pr\<lparr>p_ipv4 := a, p_ipv6 := p_ipv6 pr\<rparr>" using pr1 by simp
    ultimately show ?thesis using i1 by blast
  next
    case False
    obtain r2 db2 pr2 where ph2: "lease_phase env Inet6 gc net db1 pr1 = (r2, db2, pr2)" by (metis prod_cases3)
    have "lease_inv (le_hash env) db2 (heap(p \<mapsto> pr2))" and "\<exists>b. pr2 = pr1\<lparr>p_ipv6 := b\<rparr>"
      using lease_phase_inv [OF assms(1) i1 _ _ ph2, of p] assms(4) pr1 by auto
    moreover have "db' = db2" "pr' = pr2"
      using assms(5) ph1 ph2 False by (auto simp: get_ip_leases_def split: if_splits)
    ultimately show ?thesis using pr1 by auto
  qed
qed

lemma remove_ip_leases_inv:
  assumes "lease_inv H db heap" and "heap p = Some pr" and "remove_ip_leases H db pr = (db', pr')"
  shows "lease_inv H db' (heap(p \<mapsto> pr'))"
proof -
  have "lease_inv H (free_lease H (p_ipv4 pr) db) (heap(p \<mapsto> pr\<lparr>p_ipv4 := None\<rparr>))"
    using lease_inv_free [OF assms(1,2), of Inet] by simp
  then have "lease_inv H (free_lease H (slot Inet6 (pr\<lparr>p_ipv4 := None\<rparr>)) (free_lease H (p_ipv4 pr) db))
      ((heap(p \<mapsto> pr\<lparr>p_ipv4 := None\<rparr>))(p \<mapsto> set_slot Inet6 None (pr\<lparr>p_ipv4 := None\<rparr>)))"
    by (rule lease_inv_free) simp
  then show ?thesis using assms(3) by (auto simp: remove_ip_leases_def)
qed

text \<open>The invariant depends on the processes only through the leases they hold.\<close>

definition owns :: "(proc_ptr \<rightharpoonup> proc) \<Rightarrow> proc_ptr \<Rightarrow> family \<Rightarrow> lease \<Rightarrow> bool" where
  "owns heap p f l \<longleftrightarrow> (\<exists>pr. heap p = Some pr \<and> slot f pr = Some l)"

lemma lease_inv_owns:
  "lease_inv H db heap \<longleftrightarrow> lease_db_ok H db \<and>
     (\<forall>p f l. owns heap p f l \<longrightarrow> rip_len l = slot_len f \<and>
        (destr l \<longrightarrow> in_db l \<and> kt_get H lease_key db (lease_key l) = Some l)) \<and>
     (\<forall>p q f g l. owns heap p f l \<longrightarrow> owns heap q g l \<longrightarrow> destr l \<longrightarrow> p = q) \<and>
     (\<forall>k l. kt_get H lease_key db k = Some l \<longrightarrow> (\<exists>p f. owns heap p f l))"
  unfolding lease_inv_def owns_def by blast

lemma lease_inv_cong:
  assumes "\<And>p f l. owns heap p f l \<longleftrightarrow> owns heap' p f l"
  shows "lease_inv H db heap \<longleftrightarrow> lease_inv H db heap'"
  by (simp add: lease_inv_owns assms)

lemma owns_upd:
  "owns (heap(p \<mapsto> pr)) q f l \<longleftrightarrow> (if q = p then slot f pr = Some l else owns heap q f l)"
  "owns (heap(p := None)) q f l \<longleftrightarrow> q \<noteq> p \<and> owns heap q f l"
  by (simp_all add: owns_def)

lemma owns_Some: "heap p = Some pr \<Longrightarrow> owns heap p f l \<longleftrightarrow> slot f pr = Some l"
  by (simp add: owns_def)

lemma slot_cong: "p_ipv4 pr' = p_ipv4 pr \<Longrightarrow> p_ipv6 pr' = p_ipv6 pr \<Longrightarrow> slot f pr' = slot f pr"
  by (cases f) simp_all

lemma lease_inv_frame:
  assumes "lease_inv H db heap" and "heap p = Some pr" and "p_ipv4 pr' = p_ipv4 pr" and "p_ipv6 pr' = p_ipv6 pr"
  shows "lease_inv H db (heap(p \<mapsto> pr'))"
proof -
  have "owns (heap(p \<mapsto> pr')) q f l \<longleftrightarrow> owns heap q f l" for q f l
    using owns_Some [of heap p, OF assms(2)] slot_cong [OF assms(3,4)] by (simp add: owns_upd)
  with assms(1) show ?thesis using lease_inv_cong by metis
qed

definition idle :: "proc \<Rightarrow> bool" where
  "idle pr \<longleftrightarrow> p_ipv4 pr = None \<and> p_ipv6 pr = None"

lemma slot_idle: "idle pr \<Longrightarrow> slot f pr = None"
  by (cases f) (simp_all add: idle_def)

lemma lease_inv_new:
  assumes "lease_inv H db heap" and "heap p = None" and "idle pr"
  shows "lease_inv H db (heap(p \<mapsto> pr))"
proof -
  have "owns (heap(p \<mapsto> pr)) q f l \<longleftrightarrow> owns heap q f l" for q f l
    using slot_idle [OF assms(3), of f] assms(2) by (simp add: owns_upd) (simp add: owns_def)
  with assms(1) show ?thesis using lease_inv_cong by metis
qed

lemma lease_inv_gone:
  assumes "lease_inv H db heap" and "heap p = Some pr" and "idle pr"
  shows "lease_inv H db (heap(p := None))"
proof -
  have "owns (heap(p := None)) q f l \<longleftrightarrow> owns heap q f l" for q f l
    using slot_idle [OF assms(3), of f] assms(2) by (auto simp add: owns_upd owns_def)
  with assms(1) show ?thesis using lease_inv_cong by metis
qed

lemma steal_ip_leases_inv:
  assumes "lease_inv H db heap" and "heap p = Some pr" and "heap q = Some thief" and "p \<noteq> q" and "idle thief"
    and "steal_ip_leases pr thief = (pr', thief')"
  shows "lease_inv H db (heap(p \<mapsto> pr', q \<mapsto> thief'))"
proof -
  let ?heap = "heap(p \<mapsto> pr', q \<mapsto> thief')"
  define sw where "sw x = (if x = q then p else if x = p then q else x)" for x
  have sl: "slot f pr' = None" "slot f thief' = slot f pr" for f
    using assms(6) by (cases f; auto simp: steal_ip_leases_def)+
  have eq: "owns ?heap x f l \<longleftrightarrow> owns heap (sw x) f l" for x f l
    using assms(4) sl slot_idle [OF assms(5), of f] owns_Some [of heap p, OF assms(2)] owns_Some [of heap q, OF assms(3)]
    by (simp add: owns_upd sw_def)
  have inj: "sw x = sw y \<longleftrightarrow> x = y" and surj: "sw (sw x) = x" for x y
    by (auto simp: sw_def)
  note I = assms(1) [unfolded lease_inv_owns]
  show ?thesis
    unfolding lease_inv_owns eq
  proof (intro conjI allI impI, goal_cases)
    case (6 k l)
    then obtain x f where "owns heap x f l" using I by blast
    then have "owns heap (sw (sw x)) f l" by (simp only: surj)
    then show ?case by blast
  qed (use I inj in blast)+
qed

section \<open>Which addresses are tried\<close>

lemma ipv4_loop_step:
  fixes env db m network seed k rnd l
  defines "rnd' \<equiv> blit 4 (in_network (ipv4_raw env seed (Suc k) rnd) m (SA_IN_U8_P network)) rnd"
  defines "l' \<equiv> set_lip4 network (set_rip4 rnd' l)"
  assumes "is_ipv4_ok env db rnd' network m" and "memcmp (SA_IN_U8_P (lip l')) (SA_IN_U8_P (rip l')) \<noteq> 0"
    and "le_ping4 env (Suc k) (rip l') = 0"
  shows "ipv4_loop env db m network seed (Suc k) rnd l = (0, Some l')"
  using assms(3-5) by (simp add: Let_def rnd'_def l'_def)

text \<open>Addresses are predictable: when the address that the seed of the client gives in its network
  is usable (not a special address of the network, not leased, silent), the client gets it. A user
  who returns with the seed of an earlier session gets the address of that session back.\<close>

theorem ipv4_predictable:
  assumes "lease_env_ok env" and "lease_db_ok (le_hash env) db" and "length seed = 4" and "le_talloc4 env"
    and "gc_ipv4_net gc = Some nw" and "gc_ipv4_netmask gc = Some nm" and "gc_explicit_ipv4 gc = None"
    and "inet_pton4 nw = Some naddr" and "inet_pton4 nm = Some m"
    and "a = in_network seed m (map2 (AND) naddr m)"
    and "kt_get (le_hash env) lease_key db a = None" and "a \<noteq> map2 (AND) naddr m"
    and "a \<noteq> map2 (\<lambda>n m. n OR NOT m) (map2 (AND) naddr m) m" and "a \<noteq> local4 (map2 (AND) naddr m)"
    and "\<And>ip. SA_IN_U8_P ip = a \<Longrightarrow> le_ping4 env MAX_IP_TRIES ip = 0"
  shows "\<exists>l. get_ipv4_lease env gc net seed db = (0, Some l) \<and> SA_IN_U8_P (rip l) = a"
proof -
  have len: "length naddr = 4" "length m = 4" using assms(8,9) inet_pton4_length by blast+
  let ?nw = "network4 env naddr m" and ?l = "zero_lease\<lparr>in_db := True\<rparr>"
  note nw = network4_ok [OF assms(1) len]
  let ?rnd = "blit 4 (in_network (ipv4_raw env seed (Suc 15) (set_family AF_INET zero_ss)) m (SA_IN_U8_P ?nw))
    (set_family AF_INET zero_ss)"
  have raw: "ipv4_raw env seed (Suc 15) (set_family AF_INET zero_ss) = seed" by (simp add: ipv4_raw_def)
  have rnd: "SA_IN_U8_P ?rnd = a" "net_ok AF_INET ?rnd"
    unfolding raw using len assms(3,10) nw(2) by (simp_all add: ss_simps net_ok_def)
  have len128: "length ?rnd = 128" "length ?nw = 128" using rnd(2) nw(1) by (simp_all add: net_ok_def)
  have rip: "SA_IN_U8_P (rip (set_lip4 ?nw (set_rip4 ?rnd ?l))) = a"
    using rnd(1) len128(1) by (simp add: zero_lease_def ss_simps)
  have "SA_IN_U8_P (lip (set_lip4 ?nw (set_rip4 ?rnd ?l))) = local4 (map2 (AND) naddr m)"
    using lip_set_lip4 [of "set_rip4 ?rnd ?l" ?nw] blank_set(1) [OF blank_set(4) len128(1)] len128(2) nw(2) by simp
  moreover have "length a = 4" "length (local4 (map2 (AND) naddr m)) = 4"
    using assms(3,10) len by (simp_all add: in_network_def local4_def)
  ultimately have "memcmp (SA_IN_U8_P (lip (set_lip4 ?nw (set_rip4 ?rnd ?l)))) (SA_IN_U8_P (rip (set_lip4 ?nw (set_rip4 ?rnd ?l)))) \<noteq> 0"
    using rip assms(14) memcmp_eq_0_iff by metis
  moreover have "is_ipv4_ok env db ?rnd ?nw m"
    using is_ipv4_ok_iff [OF assms(2) rnd(2) nw(1) len(2)] rnd(1) nw(2) assms(11-13) by simp
  moreover have "le_ping4 env (Suc 15) (rip (set_lip4 ?nw (set_rip4 ?rnd ?l))) = 0"
    using assms(15) [OF rip] by simp
  ultimately have "ipv4_loop env db m ?nw seed (Suc 15) (set_family AF_INET zero_ss) ?l =
      (0, Some (set_lip4 ?nw (set_rip4 ?rnd ?l)))"
    by (intro ipv4_loop_step)
  moreover have "get_ipv4_lease env gc net seed db =
      ipv4_loop env db m ?nw seed (Suc 15) (set_family AF_INET zero_ss) ?l"
    using assms(4-9) by (simp add: get_ipv4_lease_def Let_def)
  ultimately show ?thesis using rip by simp
qed

lemma mask_bit:
  assumes "ipv6_prefix_to_mask p = Some m" and "i < 16" and "j < 8"
  shows "bit (m ! i) j \<longleftrightarrow> 8 * i + (7 - j) < unat p"
proof -
  have "(8 * i + (7 - j)) mod 8 = 7 - j"
    unfolding mod_mult_self4 using assms(3) by simp
  then have "(8 * i + (7 - j)) div 8 = i" "7 - (8 * i + (7 - j)) mod 8 = j" using assms(3) by simp_all
  then show ?thesis
    using ipv6_mask_bits [OF assms(1), of "8 * i + (7 - j)"] assms(2,3) by (simp add: addr_bit_def)
qed

lemma mask_prefix_le:
  assumes "ipv6_prefix_to_mask p = Some m" and "ipv6_prefix_to_mask sp = Some sm" and "p \<le> sp" and "i < 16"
  shows "(m ! i) AND (sm ! i) = m ! i"
proof (rule bit_eqI)
  fix j assume "possible_bit TYPE(u8) j"
  then have "j < 8" by simp
  then show "bit ((m ! i) AND (sm ! i)) j = bit (m ! i) j"
    using mask_bit [OF assms(1,4)] mask_bit [OF assms(2,4)] assms(3)
    by (auto simp: bit_and_iff word_le_nat_alt)
qed

lemma mask_high_bytes:
  assumes "ipv6_prefix_to_mask p = Some m" and "96 \<le> unat p" and "i < 12"
  shows "NOT (m ! i) = (0 :: u8)"
proof (rule bit_eqI)
  fix j assume "possible_bit TYPE(u8) j"
  then have "j < 8" by simp
  then show "bit (NOT (m ! i)) j = bit (0 :: u8) j"
    using mask_bit [OF assms(1), of i j] assms(2,3) by (simp add: bit_not_iff)
qed

text \<open>A random candidate has zeros in its last four bytes.\<close>

lemma ipv6_rnd_random:
  assumes "lease_env_ok env" and "k < 11" and "12 \<le> i" and "i < 16"
  shows "SA_IN6_U8_P (ipv6_rnd env seed k) ! i = 0"
proof -
  have l: "length (set_family AF_INET6 zero_ss) = 128" "length (le_rnd6 env k) = 16"
    using assms(1) by (simp_all add: ss_simps lease_env_ok_def)
  have "SA_IN6_U8_P (ipv6_rnd env seed k) ! i = blit 4 (le_rnd6 env k) (set_family AF_INET6 zero_ss) ! (8 + i)"
    using assms(2,4) l by (simp add: ipv6_rnd_def Let_def SA_IN6_U8_P_def bslice_def length_blit)
  also have "\<dots> = set_family AF_INET6 zero_ss ! (8 + i)"
    using l assms(3,4) by (subst nth_blit) simp_all
  also have "\<dots> = 0"
    using assms(3,4) by (simp add: set_family_def nth_blit zero_ss_def)
  finally show ?thesis .
qed

lemma ipv6_random_is_network:
  assumes "lease_env_ok env" and "ipv6_prefix_to_mask p = Some m" and "96 \<le> unat p" and "k < 11"
    and "length net = 16"
  shows "in_network (SA_IN6_U8_P (ipv6_rnd env seed k)) m net = net"
proof (rule nth_equalityI)
  have len: "length (SA_IN6_U8_P (ipv6_rnd env seed k)) = 16" "length m = 16"
    using ipv6_rnd_ok(3) [OF assms(1)] length_ipv6_mask [OF assms(2)] by auto
  show "length (in_network (SA_IN6_U8_P (ipv6_rnd env seed k)) m net) = length net"
    using len assms(5) by (simp add: in_network_def)
  fix i assume "i < length (in_network (SA_IN6_U8_P (ipv6_rnd env seed k)) m net)"
  then have i: "i < 16" using len assms(5) by (simp add: in_network_def)
  have "(SA_IN6_U8_P (ipv6_rnd env seed k) ! i) AND NOT (m ! i) = 0"
    using mask_high_bytes [OF assms(2,3)] ipv6_rnd_random [OF assms(1,4) _ i, of seed]
    by (cases "i < 12") simp_all
  then show "in_network (SA_IN6_U8_P (ipv6_rnd env seed k)) m net ! i = net ! i"
    using i len assms(5) by (simp add: in_network_def)
qed

text \<open>The subnet that a candidate stands for.\<close>

definition subnet6 :: "bytes \<Rightarrow> bytes \<Rightarrow> bytes \<Rightarrow> bytes \<Rightarrow> bytes" where
  "subnet6 raw m net sm = map2 (AND) (in_network raw m net) sm"

definition refused6 :: "lease_env \<Rightarrow> lease htable \<Rightarrow> bytes \<Rightarrow> bytes \<Rightarrow> bool" where
  "refused6 env db net sub \<longleftrightarrow> sub = net \<or> kt_get (le_hash env) lease_key db sub \<noteq> None"

lemma ipv6_loop_exhausted:
  assumes "lease_env_ok env" and "lease_db_ok (le_hash env) db" and "net_ok AF_INET6 network"
    and "length m = 16" and "length sm = 16"
    and "\<And>k. 0 < k \<Longrightarrow> k \<le> 16 \<Longrightarrow>
      refused6 env db (SA_IN6_U8_P network) (subnet6 (SA_IN6_U8_P (ipv6_rnd env seed k)) m (SA_IN6_U8_P network) sm)"
  shows "n \<le> 16 \<Longrightarrow> length (sig l) = 128 \<Longrightarrow> ipv6_loop env db m sm network seed n l = (ERR_NO_IP, None)"
proof (induction n arbitrary: l)
  case (Suc k)
  let ?rnd = "blit 8 (in_network (SA_IN6_U8_P (ipv6_rnd env seed (Suc k))) m (SA_IN6_U8_P network)) (ipv6_rnd env seed (Suc k))"
  let ?sig = "set_sig6 (SA_IN6_U8_P ?rnd) sm (set_port [0, 0] (set_family AF_INET6 (sig l)))"
  have nlen: "length network = 128" "length (SA_IN6_U8_P network) = 16"
    using assms(3) by (simp_all add: net_ok_def ss_simps)
  have rnd: "length ?rnd = 128"
    "SA_IN6_U8_P ?rnd = in_network (SA_IN6_U8_P (ipv6_rnd env seed (Suc k))) m (SA_IN6_U8_P network)"
    using ipv6_rnd_ok [OF assms(1), of seed "Suc k"] assms(4) nlen by (simp_all add: ss_simps)
  have "length (SA_IN6_U8_P ?rnd) = 16" using rnd(1) by (rule length_sa_in)
  then have sig: "length ?sig = 128" "SA_IN6_U8_P ?sig = map2 (AND) (SA_IN6_U8_P ?rnd) sm"
    using Suc.prems(2) assms(5) by (simp_all add: set_sig6_def ss_simps)
  have "\<not> is_ipv6_ok env db network ?sig"
    using is_ipv6_ok_iff [OF assms(2) nlen(1) sig(1)] assms(6) [of "Suc k"] Suc.prems(1) sig(2) rnd(2)
    by (auto simp: refused6_def subnet6_def)
  then have "ipv6_loop env db m sm network seed (Suc k) l = ipv6_loop env db m sm network seed k (l\<lparr>sig := ?sig\<rparr>)"
    by (simp add: Let_def)
  then show ?case using Suc.IH [of "l\<lparr>sig := ?sig\<rparr>"] Suc.prems(1) sig(1) by simp
qed simp


text \<open>C39. An explicitly configured address is not exclusive: leases of explicit addresses are never
  entered into the table, so a second client with the same explicit address gets it as well, although
  the code refuses explicit addresses that are in use.\<close>

theorem explicit_lease_shared:
  assumes "gc_explicit_ipv4 gc = Some ip" and "gc_ipv6_net gc = None" and "net_ipv6 net = None"
    and "p_ipv4 pr1 = None" and "p_ipv6 pr1 = None" and "p_ipv4 pr2 = None" and "p_ipv6 pr2 = None"
    and "get_ip_leases env gc net db pr1 = (0, db1, pr1')"
  shows "\<exists>l. db1 = db \<and> p_ipv4 pr1' = Some l \<and>
    get_ip_leases env gc net db1 pr2 = (0, db1, pr2\<lparr>p_ipv4 := Some l\<rparr>)"
proof -
  obtain ret lo where g: "get_ipv4_lease env gc net (p_ipv4_seed pr1) db = (ret, lo)"
    "get_ipv4_lease env gc net (p_ipv4_seed pr2) db = (ret, lo)"
    using assms(1) by (cases "get_ipv4_lease env gc net (p_ipv4_seed pr1) db")
      (simp add: get_ipv4_lease_def split: prod.splits option.splits)
  have six: "get_ipv6_lease env gc net seed db = (0, None)" for seed db
    using assms(2,3) by (simp add: get_ipv6_lease_def)
  have "lo = None \<or> (\<exists>l. lo = Some l \<and> \<not> in_db l)"
    using g(1) assms(1)
    by (auto simp: get_ipv4_lease_def Let_def split: prod.splits option.splits if_splits dest!: explicit4_cases)
  then have reg: "register_lease H ok lo db = (True, lo, db)" for H ok
    by (auto simp: register_lease_def)
  have ph: "lease_phase env Inet gc net db pr = (if ret < 0 then ret else 0, db, pr\<lparr>p_ipv4 := lo\<rparr>)"
    if "pr = pr1 \<or> pr = pr2" for pr
    using that g reg assms(4,6) by (auto simp: lease_phase_def)
  have ph6: "lease_phase env Inet6 gc net db (pr\<lparr>p_ipv4 := lo\<rparr>) = (0, db, pr\<lparr>p_ipv4 := lo\<rparr>)"
    if "pr = pr1 \<or> pr = pr2" for pr
    using that six assms(5,7) by (auto simp: lease_phase_def register_lease_def)
  have "\<not> ret < 0" "lo \<noteq> None" "db1 = db" "pr1' = pr1\<lparr>p_ipv4 := lo\<rparr>"
    using assms(5,8) ph [of pr1] ph6 [of pr1] by (auto simp: get_ip_leases_def split: if_splits)
  then show ?thesis
    using assms(7) ph [of pr2] ph6 [of pr2] by (auto simp: get_ip_leases_def)
qed

section \<open>A concrete configuration\<close>

definition demo_fd00 :: bytes where "demo_fd00 = 0xfd # replicate 15 0"

definition demo_lease_env :: lease_env where
  "demo_lease_env = \<lparr>le_hash = (\<lambda>_. 0), le_sha1 = (\<lambda>_. replicate 20 5), le_rnd4 = (\<lambda>_. replicate 4 9),
     le_rnd6 = (\<lambda>_. replicate 16 9), le_ping4 = (\<lambda>_ _. 0), le_ping6 = (\<lambda>_ _. 0), le_talloc4 = True, le_talloc6 = True,
     le_add4 = True, le_add6 = True, le_pton6 = (\<lambda>_. Some demo_fd00), le_stack_net = zero_ss, le_stack_tmp = zero_ss\<rparr>"

lemma demo_lease_env_ok: "lease_env_ok demo_lease_env"
  by (simp add: lease_env_ok_def demo_lease_env_def demo_fd00_def zero_ss_def)

lemma lease_db_ok_Nil: "lease_db_ok H []"
  by (simp add: lease_db_ok_def)

lemma demo_pton4:
  "inet_pton4 ''10.0.0.0'' = Some [10, 0, 0, 0]" "inet_pton4 ''255.255.255.0'' = Some [255, 255, 255, 0]"
  by code_simp+


theorem ipv4_predictable_witness:
  "\<exists>l. get_ipv4_lease demo_lease_env demo_gc demo_net [1, 2, 3, 4] [] = (0, Some l) \<and>
     SA_IN_U8_P (rip l) = [10, 0, 0, 4]"
proof -
  have gc: "gc_ipv4_net demo_gc = Some ''10.0.0.0''" "gc_ipv4_netmask demo_gc = Some ''255.255.255.0''"
    "gc_explicit_ipv4 demo_gc = None" by (simp_all add: demo_gc_def)
  have a: "[10, 0, 0, 4] = in_network [1, 2, 3, 4] [255, 255, 255, 0] (map2 (AND) [10, 0, 0, 0] [255, 255, 255, 0])"
    by code_simp
  have al: "le_talloc4 demo_lease_env" by (simp add: demo_lease_env_def)
  show ?thesis
    by (rule ipv4_predictable [OF demo_lease_env_ok lease_db_ok_Nil _ al gc demo_pton4 a])
      (simp_all add: demo_lease_env_def local4_def)
qed

text \<open>The lease of \<^verbatim>\<open>fd00::505\<close>, which is what the constant hash of the example gives.\<close>

definition demo_sub6 :: bytes where "demo_sub6 = 0xfd # replicate 13 0 @ [5, 5]"

definition demo_lease6 :: lease where
  "demo_lease6 = zero_lease\<lparr>sig := blit 8 demo_sub6 (set_family AF_INET6 zero_ss), rip_len := SIZEOF_SIN6, in_db := True, destr := True\<rparr>"

lemma demo_lease6_ok: "lease_key demo_lease6 = demo_sub6" "lease_db_ok (le_hash demo_lease_env) [(0, demo_lease6)]"
proof -
  have "length demo_sub6 = 16" by (simp add: demo_sub6_def)
  then show k: "lease_key demo_lease6 = demo_sub6"
    by (simp add: lease_key_def demo_lease6_def SA_IN_P_GENERIC_def zero_lease_def ss_simps)
  have "lease6 demo_lease6"
    using \<open>length demo_sub6 = 16\<close> by (simp add: lease6_def demo_lease6_def zero_lease_def ss_simps)
  then show "lease_db_ok (le_hash demo_lease_env) [(0, demo_lease6)]"
    using k by (simp add: lease_db_ok_def demo_lease_env_def demo_lease6_def)
qed


lemma demo_idle: "p_ipv4 demo_proc = None" "p_ipv6 demo_proc = None" "net_ipv6 demo_net = None"
  by (simp_all add: demo_proc_def demo_net_def)

theorem explicit_lease_shared_witness:
  "\<exists>l. p_ipv4 (snd (snd (get_ip_leases demo_lease_env (demo_gc\<lparr>gc_explicit_ipv4 := Some ''10.0.0.9'', gc_ipv6_net := None\<rparr>)
        demo_net [] demo_proc))) = Some l \<and>
     get_ip_leases demo_lease_env (demo_gc\<lparr>gc_explicit_ipv4 := Some ''10.0.0.9'', gc_ipv6_net := None\<rparr>) demo_net []
       (demo_proc\<lparr>p_pid := 101\<rparr>) = (0, [], demo_proc\<lparr>p_pid := 101, p_ipv4 := Some l\<rparr>)"
proof -
  let ?gc = "demo_gc\<lparr>gc_explicit_ipv4 := Some ''10.0.0.9'', gc_ipv6_net := None\<rparr>"
  obtain r db pr where g: "get_ip_leases demo_lease_env ?gc demo_net [] demo_proc = (r, db, pr)" by (metis prod_cases3)
  have "fst (get_ip_leases demo_lease_env ?gc demo_net [] demo_proc) = 0" by code_simp
  then have "r = 0" using g by simp
  then show ?thesis
    using explicit_lease_shared [of ?gc "''10.0.0.9''" demo_net demo_proc "demo_proc\<lparr>p_pid := 101\<rparr>" demo_lease_env "[]" db pr] g
    by (auto simp: demo_idle)
qed

end
