(* ===== verification/ProcSearch.thy ===== *)
theory ProcSearch
  imports MainTypes
begin

text \<open>
  The tables that find the process of a client, \<^verbatim>\<open>src/src/proc-search.c\<close>: by the address of its TLS
  channel, by the address of its DTLS channel, by its DTLS session identifier and by its session
  cookie. A table holds pointers to the objects \<^verbatim>\<open>proc_st\<close>, hashed by a field of the object, and an
  entry is removed by its pointer under the hash of the field at that time: the field must not change
  while the pointer is in the table. Whether \<^verbatim>\<open>htable_add\<close> succeeds is an argument.

  The address in \<open>proc_table_update_ip\<close> comes from a message of the worker, which gives its length. The
  result is \<^term>\<open>None\<close> when the function reads beyond the end of that message.
\<close>

section \<open>Operations\<close>

definition rehash_ip :: "(bytes \<Rightarrow> u64) \<Rightarrow> proc \<Rightarrow> u64" where
  "rehash_ip H pr = H (SA_IN_P_GENERIC (p_remote_addr pr) (p_remote_addr_len pr))"

definition rehash_dtls_ip :: "(bytes \<Rightarrow> u64) \<Rightarrow> proc \<Rightarrow> u64" where
  "rehash_dtls_ip H pr = H (SA_IN_P_GENERIC (p_dtls_remote_addr pr) (p_dtls_remote_addr_len pr))"

definition rehash_dtls_id :: "(bytes \<Rightarrow> u64) \<Rightarrow> proc \<Rightarrow> u64" where
  "rehash_dtls_id H pr = H (p_dtls_session_id pr)"

definition rehash_sid :: "(bytes \<Rightarrow> u64) \<Rightarrow> proc \<Rightarrow> u64" where
  "rehash_sid H pr = H (p_sid pr)"

definition proc_table_init :: "main_server \<Rightarrow> main_server" where
  "proc_table_init s = s\<lparr>s_db_ip := [], s_db_dtls_ip := [], s_db_dtls_id := [], s_db_sid := [], s_proc_total := 0\<rparr>"

definition proc_table_deinit :: "main_server \<Rightarrow> main_server" where
  "proc_table_deinit s = s\<lparr>s_db_ip := [], s_db_dtls_ip := [], s_db_dtls_id := [], s_db_sid := []\<rparr>"

definition del_ptr :: "proc_ptr htable \<Rightarrow> u64 \<Rightarrow> proc_ptr \<Rightarrow> proc_ptr htable" where
  "del_ptr t h p = htable_del t h (\<lambda>q. q = p)"

definition has_ptr :: "proc_ptr htable \<Rightarrow> u64 \<Rightarrow> proc_ptr \<Rightarrow> bool" where
  "has_ptr t h p \<longleftrightarrow> htable_get t h (\<lambda>q. q = p) \<noteq> None"

record table_env =
  te_hash :: "bytes \<Rightarrow> u64"
  te_add_ip :: bool
  te_add_dtls_ip :: bool
  te_add_dtls_id :: bool
  te_add_sid :: bool

definition proc_table_add :: "table_env \<Rightarrow> main_server \<Rightarrow> proc_ptr \<Rightarrow> proc \<Rightarrow> int \<times> main_server" where
  "proc_table_add env s p pr =
     (let H = te_hash env; ip_hash = rehash_ip H pr; dtls_id_hash = rehash_dtls_id H pr in
      if \<not> te_add_ip env then (- 1, s)
      else
        (let s = s\<lparr>s_db_ip := htable_add (s_db_ip s) ip_hash p\<rparr> in
         if \<not> te_add_dtls_id env then (- 1, s\<lparr>s_db_ip := del_ptr (s_db_ip s) ip_hash p\<rparr>)
         else
           (let s = s\<lparr>s_db_dtls_id := htable_add (s_db_dtls_id s) dtls_id_hash p\<rparr> in
            if \<not> te_add_sid env then
              (- 1, s\<lparr>s_db_ip := del_ptr (s_db_ip s) ip_hash p,
                      s_db_dtls_id := del_ptr (s_db_dtls_id s) dtls_id_hash p\<rparr>)
            else (0, s\<lparr>s_db_sid := htable_add (s_db_sid s) (rehash_sid H pr) p,
                      s_proc_total := s_proc_total s + 1\<rparr>))))"

text \<open>\<open>human_addr2\<close> reads the family, and for an Internet address its port and address.\<close>

definition human_addr2_faults :: "bytes \<Rightarrow> nat \<Rightarrow> bool" where
  "human_addr2_faults addr salen \<longleftrightarrow>
     length addr < 2 \<or>
     (sa_family addr = AF_INET \<or> sa_family addr = AF_INET6) \<and>
       length addr < (if salen = SIZEOF_SIN6 then 24 else 8)"

definition generic_faults :: "bytes \<Rightarrow> nat \<Rightarrow> bool" where
  "generic_faults addr sz \<longleftrightarrow> length addr < (if sz = SIZEOF_SIN then 8 else 24)"

definition same_ip :: "sockaddr \<Rightarrow> sockaddr \<Rightarrow> nat \<Rightarrow> bool" where
  "same_ip a b sz \<longleftrightarrow> memcmp (SA_IN_P_GENERIC a sz) (SA_IN_P_GENERIC b sz) = 0"

definition proc_table_update_ip ::
    "table_env \<Rightarrow> main_server \<Rightarrow> proc_ptr \<Rightarrow> proc \<Rightarrow> bytes \<Rightarrow> (int \<times> main_server) option" where
  "proc_table_update_ip env s p pr addr =
     (let H = te_hash env; addr_size = length addr in
      if addr_size \<noteq> p_remote_addr_len pr \<or> memcmp addr (take addr_size (p_remote_addr pr)) \<noteq> 0 then
        if human_addr2_faults addr addr_size then None
        else
          (let removed = has_ptr (s_db_ip s) (rehash_ip H pr) p;
               s = s\<lparr>s_db_ip := del_ptr (s_db_ip s) (rehash_ip H pr) p\<rparr>;
               pr = pr\<lparr>p_remote_addr := blit 0 addr (p_remote_addr pr), p_remote_addr_len := addr_size\<rparr>
           in if p_dtls_remote_addr_len pr = addr_size \<and> generic_faults addr addr_size then None
              else
                (let same = (p_dtls_remote_addr_len pr = addr_size \<and> same_ip addr (p_dtls_remote_addr pr) addr_size);
                     deleted = (same \<and> has_ptr (s_db_dtls_ip s) (rehash_dtls_ip H pr) p);
                     s = (if same then s\<lparr>s_db_dtls_ip := del_ptr (s_db_dtls_ip s) (rehash_dtls_ip H pr) p\<rparr> else s);
                     pr = (if deleted then pr\<lparr>p_dtls_remote_addr_len := 0\<rparr> else pr);
                     s = put_proc p pr s
                 in if removed then
                      if \<not> te_add_ip env then Some (- 1, s)
                      else Some (0, s\<lparr>s_db_ip := htable_add (s_db_ip s) (rehash_ip H pr) p\<rparr>)
                    else Some (0, s)))
      else Some (0, s))"

definition proc_table_update_dtls_ip ::
    "table_env \<Rightarrow> main_server \<Rightarrow> proc_ptr \<Rightarrow> proc \<Rightarrow> sockaddr \<Rightarrow> nat \<Rightarrow> int \<times> main_server" where
  "proc_table_update_dtls_ip env s p pr addr addr_size =
     (let H = te_hash env in
      if p_dtls_remote_addr_len pr \<noteq> 0 \<and> p_dtls_remote_addr_len pr = addr_size \<and>
         same_ip (p_dtls_remote_addr pr) addr addr_size
      then (- 1, s)
      else
        (let s = (if p_dtls_remote_addr_len pr \<noteq> 0
                  then s\<lparr>s_db_dtls_ip := del_ptr (s_db_dtls_ip s) (rehash_dtls_ip H pr) p\<rparr> else s);
             pr = pr\<lparr>p_dtls_remote_addr_len := 0\<rparr>
         in if addr_size = 0 then (0, put_proc p pr s)
            else if p_remote_addr_len pr = addr_size \<and> same_ip (p_remote_addr pr) addr addr_size
            then (- 1, put_proc p pr s)
            else
              (let pr = pr\<lparr>p_dtls_remote_addr_len := addr_size,
                          p_dtls_remote_addr := blit 0 (take addr_size addr) (p_dtls_remote_addr pr)\<rparr>;
                   s = put_proc p pr s
               in if \<not> te_add_dtls_ip env then (- 1, s)
                  else (0, s\<lparr>s_db_dtls_ip := htable_add (s_db_dtls_ip s) (rehash_dtls_ip H pr) p\<rparr>))))"

definition proc_table_del :: "(bytes \<Rightarrow> u64) \<Rightarrow> main_server \<Rightarrow> proc_ptr \<Rightarrow> proc \<Rightarrow> main_server" where
  "proc_table_del H s p pr =
     (let s = (if p_dtls_remote_addr_len pr > 0
               then s\<lparr>s_db_dtls_ip := del_ptr (s_db_dtls_ip s) (rehash_dtls_ip H pr) p\<rparr> else s)
      in s\<lparr>s_db_ip := del_ptr (s_db_ip s) (rehash_ip H pr) p,
           s_db_dtls_id := del_ptr (s_db_dtls_id s) (rehash_dtls_id H pr) p,
           s_db_sid := del_ptr (s_db_sid s) (rehash_sid H pr) p\<rparr>)"

text \<open>The comparisons read the object behind the pointer of the table. The first one counts its matches;
  the search stops at the first match, so the count of a search that finds something is one.\<close>

definition local_ip_cmp :: "proc \<Rightarrow> sockaddr \<Rightarrow> nat \<Rightarrow> bool" where
  "local_ip_cmp c1 addr sz \<longleftrightarrow>
     sz \<noteq> 0 \<and>
     (p_dtls_remote_addr_len c1 = sz \<and> same_ip (p_dtls_remote_addr c1) addr sz \<or>
      p_remote_addr_len c1 = sz \<and> same_ip (p_remote_addr c1) addr sz)"

definition find_proc :: "main_server \<Rightarrow> proc_ptr htable \<Rightarrow> u64 \<Rightarrow> (proc \<Rightarrow> bool) \<Rightarrow> proc_ptr option" where
  "find_proc s t h P = htable_get t h (\<lambda>q. case s_heap s q of None \<Rightarrow> False | Some pr \<Rightarrow> P pr)"

definition proc_search_single_ip :: "(bytes \<Rightarrow> u64) \<Rightarrow> main_server \<Rightarrow> sockaddr \<Rightarrow> nat \<Rightarrow> proc_ptr option" where
  "proc_search_single_ip H s addr sz =
     (let h = H (SA_IN_P_GENERIC addr sz) in
      case find_proc s (s_db_dtls_ip s) h (\<lambda>c. local_ip_cmp c addr sz) of
        Some p \<Rightarrow> Some p
      | None \<Rightarrow> find_proc s (s_db_ip s) h (\<lambda>c. local_ip_cmp c addr sz))"

definition dtls_id_cmp :: "proc \<Rightarrow> bytes \<Rightarrow> bool" where
  "dtls_id_cmp c1 dtls_id \<longleftrightarrow>
     length (p_dtls_session_id c1) = length dtls_id \<and> memcmp (p_dtls_session_id c1) dtls_id = 0"

definition proc_search_dtls_id :: "(bytes \<Rightarrow> u64) \<Rightarrow> main_server \<Rightarrow> bytes \<Rightarrow> proc_ptr option" where
  "proc_search_dtls_id H s dtls_id = find_proc s (s_db_dtls_id s) (H dtls_id) (\<lambda>c. dtls_id_cmp c dtls_id)"

definition sid_cmp :: "proc \<Rightarrow> bytes \<Rightarrow> bool" where
  "sid_cmp c1 sd \<longleftrightarrow> memcmp (p_sid c1) sd = 0"

definition proc_search_sid :: "(bytes \<Rightarrow> u64) \<Rightarrow> main_server \<Rightarrow> bytes \<Rightarrow> proc_ptr option" where
  "proc_search_sid H s sd = find_proc s (s_db_sid s) (H sd) (\<lambda>c. sid_cmp c sd)"

section \<open>Tables without dangling pointers\<close>

text \<open>A table whose entries point to live objects and carry the hash of their object, each object at
  most once.\<close>

definition tbl_ok :: "(proc \<Rightarrow> u64) \<Rightarrow> (proc_ptr \<rightharpoonup> proc) \<Rightarrow> proc_ptr htable \<Rightarrow> bool" where
  "tbl_ok r heap t \<longleftrightarrow> (\<forall>(h, q) \<in> set t. \<exists>pr. heap q = Some pr \<and> h = r pr) \<and> distinct (map snd t)"

definition ptrs :: "proc_ptr htable \<Rightarrow> proc_ptr set" where
  "ptrs t = snd ` set t"

lemma ptrs_simps [simp]: "ptrs [] = {}" "ptrs ((h, p) # t) = insert p (ptrs t)" "ptrs (htable_add t h p) = insert p (ptrs t)"
  by (auto simp: ptrs_def htable_add_def)

lemma tbl_ok_Nil [simp]: "tbl_ok r heap []"
  by (simp add: tbl_ok_def)

lemma tbl_ok_Cons [simp]:
  "tbl_ok r heap ((h, q) # t) \<longleftrightarrow> (\<exists>pr. heap q = Some pr \<and> h = r pr) \<and> q \<notin> ptrs t \<and> tbl_ok r heap t"
  by (auto simp: tbl_ok_def ptrs_def)

lemma del_ptr_absent: "p \<notin> ptrs t \<Longrightarrow> del_ptr t h p = t"
  unfolding del_ptr_def by (induction t h "\<lambda>q. q = p" rule: htable_del.induct) auto

lemma del_ptr_eq:
  assumes "tbl_ok r heap t" and "heap p = Some pr"
  shows "del_ptr t (r pr) p = filter (\<lambda>e. snd e \<noteq> p) t"
  using assms(1)
proof (induction t)
  case (Cons e t)
  obtain h q where e: "e = (h, q)" by (cases e)
  show ?case
  proof (cases "q = p")
    case True
    then have "h = r pr" "p \<notin> ptrs t" using Cons.prems e assms(2) by auto
    moreover have "filter (\<lambda>e. snd e \<noteq> p) t = t"
      using \<open>p \<notin> ptrs t\<close> by (auto simp: ptrs_def filter_id_conv)
    ultimately show ?thesis using True e by (simp add: del_ptr_def)
  next
    case False
    then show ?thesis using Cons e by (simp add: del_ptr_def)
  qed
qed (simp add: del_ptr_def)

lemma has_ptr_eq:
  assumes "tbl_ok r heap t" and "heap p = Some pr"
  shows "has_ptr t (r pr) p \<longleftrightarrow> p \<in> ptrs t"
  using assms(1)
proof (induction t)
  case (Cons e t)
  then show ?case using assms(2) by (cases e) (auto simp: has_ptr_def)
qed (simp add: has_ptr_def)

lemma ptrs_filter [simp]: "ptrs (filter (\<lambda>e. snd e \<noteq> p) t) = ptrs t - {p}"
  by (auto simp: ptrs_def)

lemma tbl_ok_filter: "tbl_ok r heap t \<Longrightarrow> tbl_ok r heap (filter P t)"
  by (auto simp: tbl_ok_def distinct_map_filter)

lemma tbl_ok_add:
  "tbl_ok r heap t \<Longrightarrow> heap p = Some pr \<Longrightarrow> p \<notin> ptrs t \<Longrightarrow> h = r pr \<Longrightarrow> tbl_ok r heap (htable_add t h p)"
  by (auto simp: tbl_ok_def htable_add_def ptrs_def)

text \<open>A store to an object keeps a table that does not have it, or whose hash it does not change.\<close>

lemma tbl_ok_upd:
  assumes "tbl_ok r heap t" and "p \<in> ptrs t \<Longrightarrow> (\<exists>pr. heap p = Some pr \<and> r pr' = r pr)"
  shows "tbl_ok r (heap(p \<mapsto> pr')) t"
  using assms
proof (induction t)
  case (Cons e t)
  then show ?case by (cases e) auto
qed simp

lemma tbl_ok_free: "tbl_ok r heap t \<Longrightarrow> p \<notin> ptrs t \<Longrightarrow> tbl_ok r (heap(p := None)) t"
proof (induction t)
  case (Cons e t)
  then show ?case by (cases e) auto
qed simp

definition tables_ok :: "(bytes \<Rightarrow> u64) \<Rightarrow> main_server \<Rightarrow> bool" where
  "tables_ok H s \<longleftrightarrow>
     tbl_ok (rehash_ip H) (s_heap s) (s_db_ip s) \<and> tbl_ok (rehash_dtls_ip H) (s_heap s) (s_db_dtls_ip s) \<and>
     tbl_ok (rehash_dtls_id H) (s_heap s) (s_db_dtls_id s) \<and> tbl_ok (rehash_sid H) (s_heap s) (s_db_sid s) \<and>
     (\<forall>p \<in> ptrs (s_db_dtls_ip s). \<exists>pr. s_heap s p = Some pr \<and> p_dtls_remote_addr_len pr \<noteq> 0)"

text \<open>The pointers that the tables of \<open>proc_table_add\<close> hold, and those that any table holds.\<close>

definition main_ptrs :: "main_server \<Rightarrow> proc_ptr set" where
  "main_ptrs s = ptrs (s_db_ip s) \<union> ptrs (s_db_dtls_id s) \<union> ptrs (s_db_sid s)"

definition all_ptrs :: "main_server \<Rightarrow> proc_ptr set" where
  "all_ptrs s = main_ptrs s \<union> ptrs (s_db_dtls_ip s)"

text \<open>What the table operations leave alone.\<close>

definition same_rest :: "main_server \<Rightarrow> main_server \<Rightarrow> bool" where
  "same_rest s s' \<longleftrightarrow> s_vconfig s' = s_vconfig s \<and> s_ip_leases s' = s_ip_leases s \<and> s_proc_list s' = s_proc_list s \<and>
     s_script_list s' = s_script_list s \<and> s_stats s' = s_stats s \<and> s_out s' = s_out s"

lemma same_rest_refl [simp]: "same_rest s s"
  by (simp add: same_rest_def)

lemma tables_ok_heap: "tables_ok H s \<Longrightarrow> p \<in> all_ptrs s \<Longrightarrow> \<exists>pr. s_heap s p = Some pr"
  by (fastforce simp: tables_ok_def all_ptrs_def main_ptrs_def tbl_ok_def ptrs_def)

lemma proc_table_add_ok:
  assumes "tables_ok (te_hash env) s" and "s_heap s p = Some pr" and "p \<notin> main_ptrs s"
    and "proc_table_add env s p pr = (r, s')"
  shows "tables_ok (te_hash env) s'" and "s_heap s' = s_heap s" and "s_db_dtls_ip s' = s_db_dtls_ip s"
    and "same_rest s s'" and "main_ptrs s' \<subseteq> insert p (main_ptrs s)" and "r = 0 \<Longrightarrow> p \<in> ptrs (s_db_sid s')"
proof -
  let ?H = "te_hash env"
  have T: "tbl_ok (rehash_ip ?H) (s_heap s) (s_db_ip s)" "tbl_ok (rehash_dtls_id ?H) (s_heap s) (s_db_dtls_id s)"
    "tbl_ok (rehash_sid ?H) (s_heap s) (s_db_sid s)" "p \<notin> ptrs (s_db_ip s)" "p \<notin> ptrs (s_db_dtls_id s)" "p \<notin> ptrs (s_db_sid s)"
    using assms(1,3) by (auto simp: tables_ok_def main_ptrs_def)
  have und: "del_ptr (htable_add t h p) h p = t" if "p \<notin> ptrs t" for t h
    using that unfolding del_ptr_def htable_add_def by (induction t) (auto simp: ptrs_def)
  note add = tbl_ok_add [OF T(1) assms(2) T(4) refl] tbl_ok_add [OF T(2) assms(2) T(5) refl]
    tbl_ok_add [OF T(3) assms(2) T(6) refl]
  consider (none) "s' = s" "r = - 1" | (all) "r = 0"
      "s' = s\<lparr>s_db_ip := htable_add (s_db_ip s) (rehash_ip ?H pr) p, s_db_dtls_id := htable_add (s_db_dtls_id s) (rehash_dtls_id ?H pr) p,
         s_db_sid := htable_add (s_db_sid s) (rehash_sid ?H pr) p, s_proc_total := s_proc_total s + 1\<rparr>"
    using assms(4) und [OF T(4)] und [OF T(5)] by (auto simp: proc_table_add_def Let_def split: if_splits)
  note c = this
  show "tables_ok (te_hash env) s'" by (cases rule: c) (use assms(1) add in \<open>simp_all add: tables_ok_def\<close>)
  show "s_heap s' = s_heap s" by (cases rule: c) simp_all
  show "s_db_dtls_ip s' = s_db_dtls_ip s" by (cases rule: c) simp_all
  show "same_rest s s'" by (cases rule: c) (simp_all add: same_rest_def)
  show "main_ptrs s' \<subseteq> insert p (main_ptrs s)" by (cases rule: c) (auto simp: main_ptrs_def)
  show "r = 0 \<Longrightarrow> p \<in> ptrs (s_db_sid s')" by (cases rule: c) simp_all
qed

lemma proc_table_del_ok:
  assumes "tables_ok H s" and "s_heap s p = Some pr"
  shows "tables_ok H (proc_table_del H s p pr)" and "s_heap (proc_table_del H s p pr) = s_heap s"
    and "all_ptrs (proc_table_del H s p pr) = all_ptrs s - {p}" and "same_rest s (proc_table_del H s p pr)"
proof -
  have T: "tbl_ok (rehash_ip H) (s_heap s) (s_db_ip s)" "tbl_ok (rehash_dtls_ip H) (s_heap s) (s_db_dtls_ip s)"
    "tbl_ok (rehash_dtls_id H) (s_heap s) (s_db_dtls_id s)" "tbl_ok (rehash_sid H) (s_heap s) (s_db_sid s)"
    and D: "p_dtls_remote_addr_len pr = 0 \<Longrightarrow> p \<notin> ptrs (s_db_dtls_ip s)"
    using assms by (auto simp: tables_ok_def)
  note e = del_ptr_eq [OF T(1) assms(2)] del_ptr_eq [OF T(2) assms(2)] del_ptr_eq [OF T(3) assms(2)] del_ptr_eq [OF T(4) assms(2)]
  have dt: "filter (\<lambda>e. snd e \<noteq> p) (s_db_dtls_ip s) = s_db_dtls_ip s" if "p_dtls_remote_addr_len pr = 0"
    using D [OF that] by (auto simp: ptrs_def filter_id_conv)
  have eq: "proc_table_del H s p pr = s\<lparr>s_db_ip := filter (\<lambda>e. snd e \<noteq> p) (s_db_ip s),
      s_db_dtls_ip := filter (\<lambda>e. snd e \<noteq> p) (s_db_dtls_ip s),
      s_db_dtls_id := filter (\<lambda>e. snd e \<noteq> p) (s_db_dtls_id s), s_db_sid := filter (\<lambda>e. snd e \<noteq> p) (s_db_sid s)\<rparr>"
    using dt by (simp add: proc_table_del_def Let_def e)
  show "tables_ok H (proc_table_del H s p pr)"
    using assms(1) by (simp add: eq tables_ok_def tbl_ok_filter)
  show "all_ptrs (proc_table_del H s p pr) = all_ptrs s - {p}"
    by (auto simp: eq all_ptrs_def main_ptrs_def)
qed (simp_all add: proc_table_del_def Let_def same_rest_def)

text \<open>The fields of a process that the address updates do not touch.\<close>

definition same_but_addr :: "proc \<Rightarrow> proc \<Rightarrow> bool" where
  "same_but_addr pr pr' \<longleftrightarrow> pr' = pr\<lparr>p_remote_addr := p_remote_addr pr', p_remote_addr_len := p_remote_addr_len pr',
     p_dtls_remote_addr := p_dtls_remote_addr pr', p_dtls_remote_addr_len := p_dtls_remote_addr_len pr'\<rparr>"

lemma same_but_addrD:
  assumes "same_but_addr pr pr'"
  shows "p_sid pr' = p_sid pr" "p_dtls_session_id pr' = p_dtls_session_id pr" "p_ipv4 pr' = p_ipv4 pr" "p_ipv6 pr' = p_ipv6 pr"
    "p_status pr' = p_status pr" "p_ipv4_seed pr' = p_ipv4_seed pr"
  by (subst assms [unfolded same_but_addr_def], simp)+

lemma proc_table_update_ip_ok:
  assumes "tables_ok (te_hash env) s" and "s_heap s p = Some pr"
    and "proc_table_update_ip env s p pr addr = Some (r, s')"
  shows "tables_ok (te_hash env) s' \<and> same_rest s s' \<and> main_ptrs s' \<subseteq> main_ptrs s \<and> ptrs (s_db_dtls_ip s') \<subseteq> ptrs (s_db_dtls_ip s) \<and>
    (\<exists>pr'. s_heap s' = (s_heap s)(p \<mapsto> pr') \<and> same_but_addr pr pr')"
proof (cases "s' = s")
  case True
  have "s_heap s = (s_heap s)(p \<mapsto> pr)" using assms(2) by auto
  then show ?thesis using True assms(1) by (auto simp: same_but_addr_def intro!: exI [of _ pr])
next
  case False
  let ?H = "te_hash env" and ?n = "length addr"
  have T: "tbl_ok (rehash_ip ?H) (s_heap s) (s_db_ip s)" "tbl_ok (rehash_dtls_ip ?H) (s_heap s) (s_db_dtls_ip s)"
    "tbl_ok (rehash_dtls_id ?H) (s_heap s) (s_db_dtls_id s)" "tbl_ok (rehash_sid ?H) (s_heap s) (s_db_sid s)"
    and D: "\<And>q. q \<in> ptrs (s_db_dtls_ip s) \<Longrightarrow> \<exists>pr. s_heap s q = Some pr \<and> p_dtls_remote_addr_len pr \<noteq> 0"
    using assms by (auto simp: tables_ok_def)
  define pr1 where "pr1 = pr\<lparr>p_remote_addr := blit 0 addr (p_remote_addr pr), p_remote_addr_len := ?n\<rparr>"
  have rd: "rehash_dtls_ip ?H pr1 = rehash_dtls_ip ?H pr" by (simp add: pr1_def rehash_dtls_ip_def)
  define same where "same \<longleftrightarrow> p_dtls_remote_addr_len pr = ?n \<and> same_ip addr (p_dtls_remote_addr pr) ?n"
  define pr2 where "pr2 = (if same \<and> p \<in> ptrs (s_db_dtls_ip s) then pr1\<lparr>p_dtls_remote_addr_len := 0\<rparr> else pr1)"
  define dip where "dip = filter (\<lambda>e. snd e \<noteq> p) (s_db_ip s)"
  define dip' where "dip' = (if p \<in> ptrs (s_db_ip s) \<and> te_add_ip env then htable_add dip (rehash_ip ?H pr2) p else dip)"
  define ddt where "ddt = (if same then filter (\<lambda>e. snd e \<noteq> p) (s_db_dtls_ip s) else s_db_dtls_ip s)"
  have s': "s' = s\<lparr>s_db_ip := dip', s_db_dtls_ip := ddt, s_heap := (s_heap s)(p \<mapsto> pr2)\<rparr>"
  proof -
    note e = has_ptr_eq [OF T(1) assms(2)] has_ptr_eq [OF T(2) assms(2)] del_ptr_eq [OF T(1) assms(2)] del_ptr_eq [OF T(2) assms(2)] rd
    have f1: "p_dtls_remote_addr_len pr1 = p_dtls_remote_addr_len pr" "p_dtls_remote_addr pr1 = p_dtls_remote_addr pr"
      by (simp_all add: pr1_def)
    have c: "length addr \<noteq> p_remote_addr_len pr \<or> memcmp addr (take (length addr) (p_remote_addr pr)) \<noteq> 0"
      by (rule ccontr) (use assms(3) False in \<open>simp add: proc_table_update_ip_def Let_def\<close>)
    have h: "\<not> human_addr2_faults addr (length addr)"
      by (rule ccontr) (use assms(3) c in \<open>simp add: proc_table_update_ip_def Let_def\<close>)
    have g: "\<not> (p_dtls_remote_addr_len pr = length addr \<and> generic_faults addr (length addr))"
      by (rule ccontr) (use assms(3) c h in \<open>simp add: proc_table_update_ip_def Let_def\<close>)
    show ?thesis
      using assms(3) [unfolded proc_table_update_ip_def Let_def pr1_def [symmetric] f1 same_def [symmetric]] c h g e
      by (cases "p \<in> ptrs (s_db_ip s)"; cases same; cases "p \<in> ptrs (s_db_dtls_ip s)"; cases "te_add_ip env")
        (auto simp: dip'_def dip_def ddt_def pr2_def put_proc_def)
  qed
  have pr2: "rehash_dtls_id ?H pr2 = rehash_dtls_id ?H pr" "rehash_sid ?H pr2 = rehash_sid ?H pr" "same_but_addr pr pr2"
    by (simp_all add: pr2_def pr1_def rehash_dtls_id_def rehash_sid_def same_but_addr_def)
  have h2: "((s_heap s)(p \<mapsto> pr2)) p = Some pr2" by simp
  have "tbl_ok (rehash_ip ?H) ((s_heap s)(p \<mapsto> pr2)) dip"
    using tbl_ok_filter [OF T(1)] by (intro tbl_ok_upd) (simp_all add: dip_def)
  then have t1: "tbl_ok (rehash_ip ?H) ((s_heap s)(p \<mapsto> pr2)) dip'"
    using tbl_ok_add [of "rehash_ip ?H" "(s_heap s)(p \<mapsto> pr2)" dip p pr2 "rehash_ip ?H pr2"] h2
    by (simp add: dip'_def) (simp add: dip_def)
  have ddt_p: "p \<in> ptrs ddt \<Longrightarrow> \<not> same" by (auto simp: ddt_def)
  have "tbl_ok (rehash_dtls_ip ?H) (s_heap s) ddt" using T(2) by (simp add: ddt_def tbl_ok_filter)
  then have t2: "tbl_ok (rehash_dtls_ip ?H) ((s_heap s)(p \<mapsto> pr2)) ddt"
    using ddt_p assms(2) rd by (intro tbl_ok_upd) (auto simp: pr2_def)
  have t3: "tbl_ok (rehash_dtls_id ?H) ((s_heap s)(p \<mapsto> pr2)) (s_db_dtls_id s)"
    "tbl_ok (rehash_sid ?H) ((s_heap s)(p \<mapsto> pr2)) (s_db_sid s)"
    using T(3,4) assms(2) pr2 by (auto intro: tbl_ok_upd)
  have t4: "\<exists>pr. ((s_heap s)(p \<mapsto> pr2)) q = Some pr \<and> p_dtls_remote_addr_len pr \<noteq> 0" if "q \<in> ptrs ddt" for q
  proof (cases "q = p")
    case True
    then have "\<not> same" using that ddt_p by simp
    then show ?thesis using D [of p] that True assms(2) by (auto simp: pr2_def pr1_def ddt_def)
  next
    case False
    then show ?thesis using D [of q] that by (auto simp: ddt_def split: if_splits)
  qed
  have "tables_ok ?H s'" using t1 t2 t3 t4 by (auto simp: tables_ok_def s')
  moreover have "main_ptrs s' \<subseteq> main_ptrs s"
    by (auto simp: main_ptrs_def s' dip'_def dip_def split: if_splits)
  moreover have "ptrs (s_db_dtls_ip s') \<subseteq> ptrs (s_db_dtls_ip s)" by (auto simp: s' ddt_def)
  ultimately show ?thesis using pr2(3) by (auto simp: s' same_rest_def)
qed

lemma tables_ok_upd_dtls:
  assumes "tables_ok H s" and "s_heap s p = Some pr" and "same_but_addr pr pr'"
    and "p_remote_addr pr' = p_remote_addr pr" and "p_remote_addr_len pr' = p_remote_addr_len pr"
    and "tbl_ok (rehash_dtls_ip H) (s_heap s) t" and "p \<notin> ptrs t" and "ptrs t \<subseteq> ptrs (s_db_dtls_ip s)"
  shows "tables_ok H (put_proc p pr' (s\<lparr>s_db_dtls_ip := t\<rparr>))"
    and "p_dtls_remote_addr_len pr' \<noteq> 0 \<Longrightarrow> h = rehash_dtls_ip H pr' \<Longrightarrow>
      tables_ok H ((put_proc p pr' s)\<lparr>s_db_dtls_ip := htable_add t h p\<rparr>)"
proof -
  have eq: "rehash_ip H pr' = rehash_ip H pr" "rehash_dtls_id H pr' = rehash_dtls_id H pr" "rehash_sid H pr' = rehash_sid H pr"
    using assms(4,5) same_but_addrD(1,2) [OF assms(3)] by (simp_all add: rehash_ip_def rehash_dtls_id_def rehash_sid_def)
  have T: "tbl_ok (rehash_ip H) ((s_heap s)(p \<mapsto> pr')) (s_db_ip s)"
    "tbl_ok (rehash_dtls_id H) ((s_heap s)(p \<mapsto> pr')) (s_db_dtls_id s)"
    "tbl_ok (rehash_sid H) ((s_heap s)(p \<mapsto> pr')) (s_db_sid s)"
    using assms(1,2) eq by (auto simp: tables_ok_def intro!: tbl_ok_upd)
  have t: "tbl_ok (rehash_dtls_ip H) ((s_heap s)(p \<mapsto> pr')) t"
    using assms(6,7) by (intro tbl_ok_upd) auto
  have d: "\<exists>pr. ((s_heap s)(p \<mapsto> pr')) q = Some pr \<and> p_dtls_remote_addr_len pr \<noteq> 0" if "q \<in> ptrs t" for q
    using that assms(1,7,8) by (auto simp: tables_ok_def)
  show "tables_ok H (put_proc p pr' (s\<lparr>s_db_dtls_ip := t\<rparr>))"
    using T t d by (auto simp: tables_ok_def)
  show "tables_ok H ((put_proc p pr' s)\<lparr>s_db_dtls_ip := htable_add t h p\<rparr>)"
    if "p_dtls_remote_addr_len pr' \<noteq> 0" "h = rehash_dtls_ip H pr'"
    using T tbl_ok_add [OF t, of p pr' h] d that assms(7) by (auto simp: tables_ok_def)
qed

lemma proc_table_update_dtls_ip_ok:
  assumes "tables_ok (te_hash env) s" and "s_heap s p = Some pr"
    and "proc_table_update_dtls_ip env s p pr addr n = (r, s')"
  shows "tables_ok (te_hash env) s' \<and> same_rest s s' \<and> main_ptrs s' = main_ptrs s \<and>
    ptrs (s_db_dtls_ip s') \<subseteq> insert p (ptrs (s_db_dtls_ip s)) \<and>
    (\<exists>pr'. s_heap s' = (s_heap s)(p \<mapsto> pr') \<and> same_but_addr pr pr')"
proof (cases "p_dtls_remote_addr_len pr \<noteq> 0 \<and> p_dtls_remote_addr_len pr = n \<and> same_ip (p_dtls_remote_addr pr) addr n")
  case True
  then have "s' = s" using assms(3) by (auto simp: proc_table_update_dtls_ip_def)
  moreover have "s_heap s = (s_heap s)(p \<mapsto> pr)" using assms(2) by auto
  ultimately show ?thesis using assms(1) by (auto simp: same_but_addr_def intro!: exI [of _ pr])
next
  case False
  let ?H = "te_hash env"
  define t where "t = (if p_dtls_remote_addr_len pr \<noteq> 0 then del_ptr (s_db_dtls_ip s) (rehash_dtls_ip ?H pr) p else s_db_dtls_ip s)"
  define pr0 where "pr0 = pr\<lparr>p_dtls_remote_addr_len := 0\<rparr>"
  define pr1 where "pr1 = pr0\<lparr>p_dtls_remote_addr_len := n, p_dtls_remote_addr := blit 0 (take n addr) (p_dtls_remote_addr pr0)\<rparr>"
  have T: "tbl_ok (rehash_dtls_ip ?H) (s_heap s) (s_db_dtls_ip s)"
    and D: "p_dtls_remote_addr_len pr = 0 \<Longrightarrow> p \<notin> ptrs (s_db_dtls_ip s)"
    using assms(1,2) by (auto simp: tables_ok_def)
  have t: "tbl_ok (rehash_dtls_ip ?H) (s_heap s) t" "p \<notin> ptrs t" "ptrs t \<subseteq> ptrs (s_db_dtls_ip s)"
    using T D by (auto simp: t_def del_ptr_eq [OF T assms(2)] tbl_ok_filter)
  have same: "same_but_addr pr pr0" "same_but_addr pr pr1" by (simp_all add: same_but_addr_def pr0_def pr1_def)
  have rem: "p_remote_addr pr0 = p_remote_addr pr" "p_remote_addr_len pr0 = p_remote_addr_len pr"
    "p_remote_addr pr1 = p_remote_addr pr" "p_remote_addr_len pr1 = p_remote_addr_len pr"
    by (simp_all add: pr0_def pr1_def)
  have len1: "p_dtls_remote_addr_len pr1 = n" by (simp add: pr1_def)
  note U = tables_ok_upd_dtls [OF assms(1,2) same(1) rem(1,2) t] tables_ok_upd_dtls [OF assms(1,2) same(2) rem(3,4) t]
  consider (off) "s' = put_proc p pr0 (s\<lparr>s_db_dtls_ip := t\<rparr>)" | (fail) "s' = put_proc p pr1 (s\<lparr>s_db_dtls_ip := t\<rparr>)"
    | (on) "n \<noteq> 0" "s' = (put_proc p pr1 s)\<lparr>s_db_dtls_ip := htable_add t (rehash_dtls_ip ?H pr1) p\<rparr>"
    using assms(3) False
    unfolding proc_table_update_dtls_ip_def Let_def pr0_def [symmetric] pr1_def [symmetric]
    by (cases "p_dtls_remote_addr_len pr = 0") (auto simp: t_def put_proc_def split: if_splits)
  then show ?thesis
  proof cases
    case off
    then show ?thesis using U(1) same(1) t(3) by (auto simp: same_rest_def main_ptrs_def)
  next
    case fail
    then show ?thesis using U(3) same(2) t(3) by (auto simp: same_rest_def main_ptrs_def)
  next
    case on
    then show ?thesis using U(4) len1 same(2) t(3) by (auto simp: same_rest_def main_ptrs_def)
  qed
qed

section \<open>Searches\<close>

lemma htable_get_Some: "htable_get t h P = Some e \<Longrightarrow> (h, e) \<in> set t \<and> P e"
  by (induction t h P rule: htable_get.induct) (auto split: if_splits)

lemma htable_get_None: "htable_get t h P = None \<Longrightarrow> (h, e) \<in> set t \<Longrightarrow> \<not> P e"
  by (induction t h P rule: htable_get.induct) (auto split: if_splits)

lemma find_procD: "find_proc s t h P = Some p \<Longrightarrow> p \<in> ptrs t \<and> (\<exists>pr. s_heap s p = Some pr \<and> P pr)"
  by (force simp: find_proc_def ptrs_def dest!: htable_get_Some split: option.splits)

text \<open>The search by cookie is exact: over tables without dangling pointers \<open>proc_search_sid\<close> gives a
  process of the table that has the cookie, and gives none only when no process of the table has
  it. Cookies are compared in full, so equal hashes do no harm.\<close>

theorem proc_search_sid_exact:
  assumes "tables_ok H s" and "\<And>p pr. s_heap s p = Some pr \<Longrightarrow> length (p_sid pr) = SID_SIZE" and "length sd = SID_SIZE"
  shows "case proc_search_sid H s sd of
      Some p \<Rightarrow> p \<in> ptrs (s_db_sid s) \<and> (\<exists>pr. s_heap s p = Some pr \<and> p_sid pr = sd)
    | None \<Rightarrow> \<forall>p \<in> ptrs (s_db_sid s). \<forall>pr. s_heap s p = Some pr \<longrightarrow> p_sid pr \<noteq> sd"
proof (cases "proc_search_sid H s sd")
  case None
  have False if p: "(h, p) \<in> set (s_db_sid s)" "s_heap s p = Some pr" "p_sid pr = sd" for h p pr
  proof -
    have "h = rehash_sid H pr" using assms(1) p(1,2) by (fastforce simp: tables_ok_def tbl_ok_def)
    then have "(H sd, p) \<in> set (s_db_sid s)" using p by (simp add: rehash_sid_def)
    from htable_get_None [OF None [unfolded proc_search_sid_def find_proc_def] this] show False
      using p(2,3) by (simp add: sid_cmp_def memcmp_eq_0_iff)
  qed
  then have "\<forall>p \<in> ptrs (s_db_sid s). \<forall>pr. s_heap s p = Some pr \<longrightarrow> p_sid pr \<noteq> sd"
    unfolding ptrs_def by force
  then show ?thesis using None by simp
next
  case (Some p)
  then obtain pr where p: "p \<in> ptrs (s_db_sid s)" "s_heap s p = Some pr" "sid_cmp pr sd"
    using find_procD by (fastforce simp: proc_search_sid_def)
  then have "p_sid pr = sd" using assms(2) [of p pr] assms(3) by (simp add: sid_cmp_def memcmp_eq_0_iff)
  then show ?thesis using Some p by simp
qed

theorem proc_search_sid_exact_witness:
  "proc_search_sid (\<lambda>_. 0) (demo_main\<lparr>s_heap := [7 \<mapsto> demo_proc], s_db_sid := [(0, 7)]\<rparr>) (replicate 32 0) = Some 7"
proof -
  let ?s = "demo_main\<lparr>s_heap := [7 \<mapsto> demo_proc], s_db_sid := [(0, 7)]\<rparr>"
  have "tables_ok (\<lambda>_. 0) ?s" by (simp add: tables_ok_def demo_main_def rehash_sid_def)
  moreover have "length (p_sid pr) = SID_SIZE" if "s_heap ?s p = Some pr" for p pr
    using that by (auto simp: demo_proc_def split: if_splits)
  ultimately show ?thesis
    using proc_search_sid_exact [of "\<lambda>_. 0" ?s "replicate 32 0"]
    by (simp add: demo_proc_def split: option.splits)
qed

text \<open>The search by address does not look for a unique match: whenever some process of the table has
  the address, \<open>proc_search_single_ip\<close> gives a process, also when several clients have it (behind one
  address translator). Its comment promises a result only when a single address matches.\<close>

theorem single_ip_any:
  assumes "tables_ok H s" and "p \<in> ptrs (s_db_ip s)" and "s_heap s p = Some pr"
    and "p_remote_addr_len pr = sz" and "SA_IN_P_GENERIC (p_remote_addr pr) sz = SA_IN_P_GENERIC addr sz" and "sz \<noteq> 0"
  shows "proc_search_single_ip H s addr sz \<noteq> None"
proof
  assume none: "proc_search_single_ip H s addr sz = None"
  obtain h where h: "(h, p) \<in> set (s_db_ip s)" using assms(2) by (auto simp: ptrs_def)
  have "h = rehash_ip H pr" using assms(1,3) h by (fastforce simp: tables_ok_def tbl_ok_def)
  then have "(H (SA_IN_P_GENERIC addr sz), p) \<in> set (s_db_ip s)"
    using h assms(4,5) by (simp add: rehash_ip_def)
  moreover have "htable_get (s_db_ip s) (H (SA_IN_P_GENERIC addr sz))
      (\<lambda>q. case s_heap s q of None \<Rightarrow> False | Some pr \<Rightarrow> local_ip_cmp pr addr sz) = None"
    using none by (auto simp: proc_search_single_ip_def find_proc_def Let_def split: option.splits)
  ultimately show False
    using htable_get_None assms(3-6) by (fastforce simp: local_ip_cmp_def same_ip_def memcmp_eq_0_iff)
qed

theorem single_ip_any_witness:
  "proc_search_single_ip (\<lambda>_. 0) (demo_main\<lparr>s_heap := [7 \<mapsto> demo_proc, 8 \<mapsto> demo_proc], s_db_ip := [(0, 7), (0, 8)]\<rparr>)
     zero_ss SIZEOF_SIN \<noteq> None"
  by (rule single_ip_any [where p = 7 and pr = demo_proc])
    (simp_all add: tables_ok_def demo_main_def rehash_ip_def demo_proc_def)

end
