(* ===== verification/Str.thy ===== *)
theory Str
  imports CLib
begin

text \<open>
  The growing strings of \<^verbatim>\<open>src/src/str.c\<close> and \<^verbatim>\<open>str.h\<close>: a buffer with a start offset, a capacity
  and a length, the functions that append to it, and the replacement of \<^verbatim>\<open>%\<close> patterns that
  \<^verbatim>\<open>route-add.c\<close> uses.

  The memory of a \<^verbatim>\<open>str_st\<close> is explicit: \<open>allocd\<close> is the allocated block (\<^term>\<open>None\<close> for \<^verbatim>\<open>NULL\<close>),
  \<open>data_off\<close> the distance of \<^verbatim>\<open>data\<close> from its start. A write outside the block gives \<^term>\<open>None\<close>.
  Whether an allocation succeeds is the argument \<open>alloc\<close> of its size, and \<open>junk\<close> is what fresh
  memory contains. Lengths are numbers, and where a function returns a length as \<^verbatim>\<open>int\<close> the result is
  wrapped to 32 bits.
\<close>

section \<open>Buffers\<close>

record str_st =
  allocd :: "string option"
  data_off :: nat
  max_length :: nat
  slen :: nat

definition c_int :: "nat \<Rightarrow> int" where
  "c_int n = sint (word_of_nat n :: 32 word)"

definition str_init :: str_st where
  "str_init = \<lparr>allocd = None, data_off = 0, max_length = 0, slen = 0\<rparr>"

definition str_reset :: "str_st \<Rightarrow> str_st" where
  "str_reset b = b\<lparr>data_off := 0, slen := 0\<rparr>"

definition str_clear :: "str_st \<Rightarrow> str_st" where
  "str_clear b = (if allocd b = None then b
     else b\<lparr>allocd := None, data_off := 0, max_length := 0, slen := 0\<rparr>)"

text \<open>The text the buffer holds.\<close>

definition content :: "str_st \<Rightarrow> string" where
  "content b = (case allocd b of None \<Rightarrow> [] | Some m \<Rightarrow> bslice (data_off b) (slen b) m)"

text \<open>The text moved to the start of the block.\<close>

definition move_to_start :: "str_st \<Rightarrow> str_st" where
  "move_to_start b = b\<lparr>allocd := map_option (\<lambda>m. blit 0 (bslice (data_off b) (slen b) m) m) (allocd b),
     data_off := 0\<rparr>"

definition realloc_block :: "(nat \<Rightarrow> char) \<Rightarrow> string option \<Rightarrow> nat \<Rightarrow> string" where
  "realloc_block junk m n = (let old = (case m of None \<Rightarrow> [] | Some m \<Rightarrow> m)
     in take n old @ map junk [length old..<n])"

definition str_append_size :: "(nat \<Rightarrow> bool) \<Rightarrow> (nat \<Rightarrow> char) \<Rightarrow> str_st \<Rightarrow> nat \<Rightarrow> int \<times> str_st" where
  "str_append_size alloc junk dest data_size =
     (let tot_len = data_size + slen dest in
      if data_size = 0 then (0, dest)
      else if max_length dest \<ge> tot_len + 1 then
        (if max_length dest - data_off dest \<le> tot_len then (c_int tot_len, move_to_start dest)
         else (c_int tot_len, dest))
      else
        (let new_len = max data_size 64 + max (max_length dest) 64 in
         if \<not> alloc (new_len + 1) then (ERR_MEM, dest\<lparr>allocd := None\<rparr>)
         else (c_int tot_len,
               move_to_start (dest\<lparr>allocd := Some (realloc_block junk (allocd dest) (new_len + 1)),
                 max_length := new_len\<rparr>))))"

definition buf_write :: "nat \<Rightarrow> string \<Rightarrow> string option \<Rightarrow> string option" where
  "buf_write off xs m = (case m of None \<Rightarrow> None
     | Some m \<Rightarrow> if off + length xs \<le> length m then Some (blit off xs m) else None)"

definition str_append_data ::
    "(nat \<Rightarrow> bool) \<Rightarrow> (nat \<Rightarrow> char) \<Rightarrow> str_st \<Rightarrow> string \<Rightarrow> (int \<times> str_st) option" where
  "str_append_data alloc junk dest xs =
     (case str_append_size alloc junk dest (length xs + 1) of
        (ret, dest) \<Rightarrow>
          if ret < 0 then Some (ret, dest)
          else (case buf_write (data_off dest + slen dest) xs (allocd dest) of
                  None \<Rightarrow> None
                | Some m \<Rightarrow>
                    (let n = length xs + slen dest in
                     case buf_write (data_off dest + n) [CHR 0x00] (Some m) of
                       None \<Rightarrow> None
                     | Some m \<Rightarrow> Some (0, dest\<lparr>allocd := Some m, slen := n\<rparr>))))"

definition str_append_data_prefix1 ::
    "(nat \<Rightarrow> bool) \<Rightarrow> (nat \<Rightarrow> char) \<Rightarrow> str_st \<Rightarrow> string \<Rightarrow> (int \<times> str_st) option" where
  "str_append_data_prefix1 alloc junk dest xs =
     (case str_append_data alloc junk dest [char_of (length xs mod 256)] of
        None \<Rightarrow> None
      | Some (ret, dest) \<Rightarrow> if ret \<ge> 0 then str_append_data alloc junk dest xs else Some (ret, dest))"

definition str_append_str ::
    "(nat \<Rightarrow> bool) \<Rightarrow> (nat \<Rightarrow> char) \<Rightarrow> str_st \<Rightarrow> string option \<Rightarrow> (int \<times> str_st) option" where
  "str_append_str alloc junk dest src =
     (case src of
        None \<Rightarrow> Some (- 1, dest)
      | Some s \<Rightarrow>
          (case str_append_data alloc junk dest (s @ [CHR 0x00]) of
             None \<Rightarrow> None
           | Some (ret, dest) \<Rightarrow>
               Some (ret, if ret \<ge> 0 then dest\<lparr>slen := slen dest - 1\<rparr> else dest)))"

text \<open>\<open>out\<close> is what \<^verbatim>\<open>vasprintf\<close> produced.\<close>

definition str_append_printf ::
    "(nat \<Rightarrow> bool) \<Rightarrow> (nat \<Rightarrow> char) \<Rightarrow> str_st \<Rightarrow> string option \<Rightarrow> (int \<times> str_st) option" where
  "str_append_printf alloc junk dest out =
     (case out of None \<Rightarrow> Some (- 1, dest) | Some s \<Rightarrow> str_append_str alloc junk dest (Some s))"

text \<open>The C loop clears blanks from the end of the string.\<close>

definition trim_trailing_whitespace :: "string \<Rightarrow> string" where
  "trim_trailing_whitespace s = rev (dropWhile c_isspace (rev s))"

section \<open>Replacement of patterns\<close>

record str_rep_tab =
  pattern :: string
  rep_val :: "string option"
  rep_func :: "string \<Rightarrow> string option"
  rep_func_input :: string

fun find_pattern :: "str_rep_tab list \<Rightarrow> string \<Rightarrow> str_rep_tab option" where
  "find_pattern [] p = None"
| "find_pattern (t # tab) p =
     (if length (pattern t) \<le> length p \<and> take (length (pattern t)) p = pattern t then Some t
      else find_pattern tab p)"

definition replacement :: "str_rep_tab \<Rightarrow> string option" where
  "replacement t = (case rep_val t of Some v \<Rightarrow> Some v | None \<Rightarrow> rep_func t (rep_func_input t))"

text \<open>The replacement of the pattern at \<open>pos\<close>: a negative result ends the function.\<close>

definition replace_at ::
    "(nat \<Rightarrow> bool) \<Rightarrow> (nat \<Rightarrow> char) \<Rightarrow> str_st \<Rightarrow> nat \<Rightarrow> str_rep_tab \<Rightarrow> (int \<times> str_st) option" where
  "replace_at alloc junk str pos t =
     (let final = drop (pos + length (pattern t)) (content str) in
      if \<not> alloc (length final) then Some (- 1, str)
      else
        (case str_append_str alloc junk (str\<lparr>slen := pos\<rparr>) (replacement t) of
           None \<Rightarrow> None
         | Some (ret, str) \<Rightarrow>
             if ret < 0 then Some (ret, str) else str_append_data alloc junk str final))"

partial_function (option) str_replace_loop ::
    "(nat \<Rightarrow> bool) \<Rightarrow> (nat \<Rightarrow> char) \<Rightarrow> str_rep_tab list \<Rightarrow> str_st \<Rightarrow> nat \<Rightarrow> (int \<times> str_st) option" where
  "str_replace_loop alloc junk tab str pos =
     (case strchr (drop pos (content str)) (CHR ''%'') of
        None \<Rightarrow> Some (0, str)
      | Some p \<Rightarrow>
          (case find_pattern tab p of
             None \<Rightarrow> Some (- 1, str)
           | Some t \<Rightarrow>
               (let pos = slen str - length p in
                case replace_at alloc junk str pos t of
                  None \<Rightarrow> None
                | Some (ret, str) \<Rightarrow>
                    if ret < 0 then Some (ret, str)
                    else if pos < slen str then str_replace_loop alloc junk tab str pos
                    else Some (0, str))))"

definition str_replace_str ::
    "(nat \<Rightarrow> bool) \<Rightarrow> (nat \<Rightarrow> char) \<Rightarrow> str_st \<Rightarrow> str_rep_tab list \<Rightarrow> (int \<times> str_st) option" where
  "str_replace_str alloc junk str tab = str_replace_loop alloc junk tab str 0"

section \<open>The buffer refines a string\<close>

definition str_ok :: "str_st \<Rightarrow> bool" where
  "str_ok b \<longleftrightarrow> (case allocd b of
     None \<Rightarrow> max_length b = 0 \<and> data_off b = 0 \<and> slen b = 0
   | Some m \<Rightarrow> length m = max_length b + 1 \<and> data_off b + slen b \<le> max_length b)"

text \<open>A block with room for \<open>n\<close> more bytes and a terminator.\<close>

definition str_room :: "str_st \<Rightarrow> nat \<Rightarrow> bool" where
  "str_room b n \<longleftrightarrow> allocd b \<noteq> None \<and> data_off b + slen b + n \<le> max_length b"

lemma content_init [simp]: "content str_init = []" and str_ok_init [simp]: "str_ok str_init"
  by (simp_all add: content_def str_init_def str_ok_def)

lemma content_reset [simp]: "content (str_reset b) = []"
  by (simp add: content_def str_reset_def bslice_def split: option.split)

lemma str_ok_reset: "str_ok b \<Longrightarrow> str_ok (str_reset b)"
  by (simp add: str_ok_def str_reset_def split: option.splits)

lemma length_content: "str_ok b \<Longrightarrow> length (content b) = slen b"
  by (auto simp: str_ok_def content_def length_bslice split: option.splits)

lemma move_to_start_ok:
  assumes "str_ok b"
  shows "str_ok (move_to_start b)" and "content (move_to_start b) = content b"
    and "slen (move_to_start b) = slen b" and "max_length (move_to_start b) = max_length b"
    and "data_off (move_to_start b) = 0" and "allocd (move_to_start b) = None \<longleftrightarrow> allocd b = None"
proof -
  show "str_ok (move_to_start b)"
    using assms by (auto simp: str_ok_def move_to_start_def buf_simps split: option.splits)
  show "content (move_to_start b) = content b"
    using assms by (auto simp: str_ok_def content_def move_to_start_def buf_simps split: option.splits)
qed (simp_all add: move_to_start_def)

lemma length_realloc_block [simp]: "length (realloc_block junk m n) = n"
  by (auto simp: realloc_block_def min_def split: option.split)

lemma realloc_ok:
  fixes junk :: "nat \<Rightarrow> char" and b :: str_st and n :: nat
  assumes "str_ok b" and "max_length b < n"
  defines "b' \<equiv> b\<lparr>allocd := Some (realloc_block junk (allocd b) (n + 1)), max_length := n\<rparr>"
  shows "str_ok b'" and "content b' = content b"
proof -
  show "str_ok b'" using assms by (auto simp: str_ok_def split: option.splits)
  show "content b' = content b"
  proof (cases "allocd b")
    case None
    then show ?thesis using assms by (simp add: content_def str_ok_def bslice_def)
  next
    case (Some m)
    then have "length m = max_length b + 1" "data_off b + slen b \<le> length m"
      using assms(1) by (auto simp: str_ok_def)
    with Some assms(2) show ?thesis
      by (simp add: b'_def content_def realloc_block_def bslice_def)
  qed
qed

lemma str_append_size_cases:
  assumes "str_ok b" and "n > 0" and "str_append_size alloc junk b n = (ret, b')"
  shows "ret = ERR_MEM \<and> allocd b' = None \<or>
    ret = c_int (n + slen b) \<and> str_ok b' \<and> content b' = content b \<and> slen b' = slen b \<and> str_room b' n"
proof (cases "max_length b \<ge> n + slen b + 1")
  case big: True
  have nn: "allocd b \<noteq> None" using big assms(1,2) by (cases "allocd b") (auto simp: str_ok_def)
  show ?thesis
  proof (cases "max_length b - data_off b \<le> n + slen b")
    case True
    then have "ret = c_int (n + slen b)" "b' = move_to_start b"
      using big assms(2,3) by (simp_all add: str_append_size_def)
    then show ?thesis
      using move_to_start_ok [OF assms(1)] big nn by (simp add: str_room_def)
  next
    case False
    then have "ret = c_int (n + slen b)" "b' = b"
      using big assms(2,3) by (auto simp: str_append_size_def)
    then show ?thesis using False assms(1) nn by (auto simp: str_room_def)
  qed
next
  case small: False
  let ?new = "max n 64 + max (max_length b) 64"
  let ?b = "b\<lparr>allocd := Some (realloc_block junk (allocd b) (?new + 1)), max_length := ?new\<rparr>"
  have app: "str_append_size alloc junk b n =
      (if \<not> alloc (?new + 1) then (ERR_MEM, b\<lparr>allocd := None\<rparr>) else (c_int (n + slen b), move_to_start ?b))"
    using small assms(2) by (simp add: str_append_size_def Let_def)
  show ?thesis
  proof (cases "alloc (?new + 1)")
    case True
    have ok: "str_ok ?b" "content ?b = content b"
      using realloc_ok [OF assms(1), of ?new junk] assms(2) by auto
    have "slen b \<le> max_length b" using assms(1) by (auto simp: str_ok_def split: option.splits)
    then have "slen b + n \<le> ?new" by linarith
    moreover have "ret = c_int (n + slen b)" "b' = move_to_start ?b"
      using app True assms(3) by simp_all
    ultimately show ?thesis
      using move_to_start_ok [OF ok(1)] ok(2) by (intro disjI2) (simp add: str_room_def)
  next
    case False
    then show ?thesis using app assms(3) by auto
  qed
qed

lemma c_int_small:
  assumes "n < 2 ^ 31"
  shows "c_int n = int n"
proof -
  have "signed_take_bit 31 (int n) = int n"
    using assms by (intro signed_take_bit_int_eq_self) simp_all
  moreover have "word_of_nat n = (word_of_int (int n) :: 32 word)" by simp
  ultimately show ?thesis
    unfolding c_int_def by (simp only: sint_sbintrunc') simp
qed

lemma blit_blit_adjacent:
  "off + length xs + length ys \<le> length m \<Longrightarrow> blit (off + length xs) ys (blit off xs m) = blit off (xs @ ys) m"
  by (simp add: blit_def drop_take ac_simps)

lemma bslice_append_blit:
  "off + n + length xs + length ys \<le> length m \<Longrightarrow>
     bslice off (n + length xs) (blit (off + n) (xs @ ys) m) = bslice off n m @ xs"
  by (simp add: bslice_def blit_def drop_take take_add)

definition str_terminated :: "str_st \<Rightarrow> bool" where
  "str_terminated b \<longleftrightarrow> (case allocd b of None \<Rightarrow> False | Some m \<Rightarrow> m ! (data_off b + slen b) = CHR 0x00)"

text \<open>The result of appending \<open>xs\<close>: refused memory, or a well-formed, terminated buffer.\<close>

definition appended :: "(nat \<Rightarrow> bool) \<Rightarrow> str_st \<Rightarrow> string \<Rightarrow> (int \<times> str_st) option \<Rightarrow> bool" where
  "appended alloc b xs r \<longleftrightarrow>
     (\<exists>ret b'. r = Some (ret, b') \<and>
       (ret = ERR_MEM \<and> (\<exists>n. \<not> alloc n) \<or>
        ret = 0 \<and> str_ok b' \<and> content b' = content b @ xs \<and> str_terminated b'))"

lemma str_append_data_ok:
  assumes "str_ok b" and "slen b + length xs + 1 < 2 ^ 31"
  shows "appended alloc b xs (str_append_data alloc junk b xs)"
proof -
  obtain ret b1 where sz: "str_append_size alloc junk b (length xs + 1) = (ret, b1)"
    by (cases "str_append_size alloc junk b (length xs + 1)")
  show ?thesis
  proof (cases "ret = ERR_MEM")
    case True
    then have "\<not> alloc (max (length xs + 1) 64 + max (max_length b) 64 + 1)"
      using sz assms(2) c_int_small [of "length xs + 1 + slen b"]
      by (auto simp: str_append_size_def Let_def split: if_splits)
    then show ?thesis using True sz by (auto simp: str_append_data_def appended_def)
  next
    case False
    then have r: "ret = c_int (length xs + 1 + slen b)" "str_ok b1" "content b1 = content b"
      "slen b1 = slen b" "str_room b1 (length xs + 1)"
      using str_append_size_cases [OF assms(1) _ sz] by auto
    obtain m where m: "allocd b1 = Some m" "length m = max_length b1 + 1"
      using r(2,5) by (auto simp: str_ok_def str_room_def)
    have fit: "data_off b1 + slen b + length xs + 1 \<le> length m"
      using r(4,5) m by (simp add: str_room_def)
    let ?m = "blit (data_off b1 + slen b) (xs @ [CHR 0x00]) m"
    have "ret \<ge> 0" using r(1) c_int_small [of "length xs + 1 + slen b"] assms(2) by simp
    then have res: "str_append_data alloc junk b xs = Some (0, b1\<lparr>allocd := Some ?m, slen := length xs + slen b\<rparr>)"
      using sz m r(4) fit blit_blit_adjacent [of "data_off b1 + slen b" xs "[CHR 0x00]" m]
      by (simp add: str_append_data_def buf_write_def length_blit Let_def ac_simps)
    have "content (b1\<lparr>allocd := Some ?m, slen := length xs + slen b\<rparr>) = content b @ xs"
      using bslice_append_blit [of "data_off b1" "slen b" xs "[CHR 0x00]" m] fit m(1) r(3,4)
      by (simp add: content_def add.commute)
    moreover have "str_ok (b1\<lparr>allocd := Some ?m, slen := length xs + slen b\<rparr>)"
      using r(5) m fit by (simp add: str_ok_def str_room_def length_blit r(4))
    moreover have "?m ! (data_off b1 + (length xs + slen b)) = CHR 0x00"
      using fit by (subst nth_blit) (auto simp: nth_append)
    ultimately show ?thesis using res by (auto simp: appended_def str_terminated_def)
  qed
qed

lemma append_dropped_nul:
  assumes "str_ok b" and "str_terminated b" and "content b = xs @ [c]"
  shows "str_ok (b\<lparr>slen := slen b - 1\<rparr>)" and "content (b\<lparr>slen := slen b - 1\<rparr>) = xs"
    and "c = CHR 0x00 \<Longrightarrow> str_terminated (b\<lparr>slen := slen b - 1\<rparr>)"
proof -
  obtain m where m: "allocd b = Some m" "data_off b + slen b < length m"
    using assms(1,2) by (auto simp: str_terminated_def str_ok_def split: option.splits)
  have len: "slen b = length xs + 1" using length_content [OF assms(1)] assms(3) by simp
  have ct: "bslice (data_off b) (slen b) m = xs @ [c]" using assms(3) m(1) by (simp add: content_def)
  show "str_ok (b\<lparr>slen := slen b - 1\<rparr>)"
    using assms(1) m(1) by (auto simp: str_ok_def)
  show "content (b\<lparr>slen := slen b - 1\<rparr>) = xs"
    using arg_cong [OF ct, of "take (length xs)"] m(1) len by (simp add: content_def bslice_def min_def)
  have "m ! (data_off b + length xs) = bslice (data_off b) (slen b) m ! length xs"
    using m(2) len by (simp add: bslice_def)
  then show "c = CHR 0x00 \<Longrightarrow> str_terminated (b\<lparr>slen := slen b - 1\<rparr>)"
    using ct m(1) len by (simp add: str_terminated_def nth_append)
qed

lemma str_append_str_ok:
  assumes "str_ok b" and "slen b + length s + 2 < 2 ^ 31"
  shows "appended alloc b s (str_append_str alloc junk b (Some s))"
proof -
  have "appended alloc b (s @ [CHR 0x00]) (str_append_data alloc junk b (s @ [CHR 0x00]))"
    using assms by (intro str_append_data_ok) simp_all
  then obtain ret b' where r: "str_append_data alloc junk b (s @ [CHR 0x00]) = Some (ret, b')"
    and "ret = ERR_MEM \<and> (\<exists>n. \<not> alloc n) \<or>
      ret = 0 \<and> str_ok b' \<and> content b' = (content b @ s) @ [CHR 0x00] \<and> str_terminated b'"
    by (auto simp: appended_def)
  then consider (mem) "ret = ERR_MEM" "\<exists>n. \<not> alloc n"
    | (ok) "ret = 0" "str_ok b'" "str_terminated b'" "content b' = (content b @ s) @ [CHR 0x00]" by blast
  then show ?thesis
  proof cases
    case ok
    then show ?thesis
      using r append_dropped_nul [OF ok(2-4)] by (auto simp: appended_def str_append_str_def)
  qed (use r in \<open>auto simp: appended_def str_append_str_def\<close>)
qed

text \<open>Appending to a buffer is memory safe and is concatenation: on a well-formed buffer
  \<open>str_append_data\<close> and \<open>str_append_str\<close> never write outside its block. They fail with \<^term>\<open>ERR_MEM\<close> only
  when an allocation is refused; otherwise the buffer is well formed, holds the old text followed by
  the new, and is terminated by a NUL byte.\<close>

theorem str_append_refines:
  assumes "str_ok b" and "slen b + length xs + 2 < 2 ^ 31"
  shows "appended alloc b xs (str_append_data alloc junk b xs) \<and>
    appended alloc b xs (str_append_str alloc junk b (Some xs))"
  using assms by (simp add: str_append_data_ok str_append_str_ok)

theorem str_append_refines_witness:
  "appended (\<lambda>_. True) str_init ''ab'' (str_append_data (\<lambda>_. True) (\<lambda>_. CHR ''x'') str_init ''ab'') \<and>
   appended (\<lambda>_. True) str_init ''ab'' (str_append_str (\<lambda>_. True) (\<lambda>_. CHR ''x'') str_init (Some ''ab''))"
  by (rule str_append_refines) (simp_all add: str_init_def str_ok_def)

section \<open>Replacement is a single pass\<close>

text \<open>The specification: every pattern of the text is replaced once, and what was inserted is not
  looked at again. An unknown pattern, or one without a value, is an error.\<close>

function expand :: "str_rep_tab list \<Rightarrow> string \<Rightarrow> string option" where
  "expand tab [] = Some []"
| "expand tab (c # s) =
     (if c \<noteq> CHR ''%'' then map_option ((#) c) (expand tab s)
      else (case find_pattern tab (c # s) of
              None \<Rightarrow> None
            | Some t \<Rightarrow>
                (case replacement t of
                   None \<Rightarrow> None
                 | Some v \<Rightarrow> map_option ((@) v) (expand tab (drop (length (pattern t) - 1) s)))))"
  by pat_completeness auto
termination
  by (relation "measure (\<lambda>(tab, s). length s)") auto

definition tab_ok :: "nat \<Rightarrow> str_rep_tab list \<Rightarrow> bool" where
  "tab_ok M tab \<longleftrightarrow> list_all (\<lambda>t. pattern t \<noteq> [] \<and>
     (\<forall>v. replacement t = Some v \<longrightarrow> CHR ''%'' \<notin> set v \<and> length v \<le> M)) tab"

lemma find_pattern_Some:
  "find_pattern tab p = Some t \<Longrightarrow> t \<in> set tab \<and> p = pattern t @ drop (length (pattern t)) p"
  by (induction tab) (auto split: if_splits simp: append_take_drop_id [symmetric] simp del: append_take_drop_id,
      metis append_take_drop_id)

lemma expand_plain: "CHR ''%'' \<notin> set x \<Longrightarrow> expand tab (x @ s) = map_option ((@) x) (expand tab s)"
  by (induction x) (cases "expand tab s"; auto)+

lemma set_slen_ok:
  assumes "str_ok b" and "n \<le> slen b"
  shows "str_ok (b\<lparr>slen := n\<rparr>)" and "content (b\<lparr>slen := n\<rparr>) = take n (content b)"
  using assms by (auto simp: str_ok_def content_def bslice_def min_def split: option.splits)

lemma replace_at_ok:
  assumes "str_ok b" and "content b = pre @ pattern t @ final" and "replacement t = Some v"
    and "length pre + length v + length final + 2 < 2 ^ 31"
  shows "\<exists>b'. replace_at (\<lambda>_. True) junk b (length pre) t = Some (0, b') \<and> str_ok b' \<and> content b' = pre @ v @ final"
proof -
  let ?b = "b\<lparr>slen := length pre\<rparr>"
  have le: "length pre \<le> slen b" using length_content [OF assms(1)] assms(2) by simp
  have b: "str_ok ?b" "content ?b = pre" using set_slen_ok [OF assms(1) le] assms(2) by simp_all
  have "appended (\<lambda>_. True) ?b v (str_append_str (\<lambda>_. True) junk ?b (Some v))"
    using b(1) assms(4) by (intro str_append_str_ok) simp_all
  then obtain b1 where b1: "str_append_str (\<lambda>_. True) junk ?b (Some v) = Some (0, b1)"
    "str_ok b1" "content b1 = pre @ v" using b(2) by (auto simp: appended_def)
  have "appended (\<lambda>_. True) b1 final (str_append_data (\<lambda>_. True) junk b1 final)"
    using b1(2,3) length_content [OF b1(2)] assms(4) by (intro str_append_data_ok) simp_all
  then show ?thesis
    using b1 assms(2,3) by (auto simp: appended_def replace_at_def)
qed

lemma str_replace_loop_ok:
  assumes "str_ok b" and "content b = pre @ skip @ rest" and "CHR ''%'' \<notin> set skip" and "tab_ok M tab"
    and "length pre + length skip + length rest * (M + 1) + 2 < 2 ^ 31"
  shows "\<exists>ret b'. str_replace_loop (\<lambda>_. True) junk tab b (length pre) = Some (ret, b') \<and>
    (case expand tab rest of
       None \<Rightarrow> ret < 0
     | Some r \<Rightarrow> ret = 0 \<and> str_ok b' \<and> content b' = pre @ skip @ r)"
  using assms
proof (induction "length rest" arbitrary: rest b pre skip rule: less_induct)
  case less
  have dr: "strchr (drop (length pre) (content b)) (CHR ''%'') = strchr rest (CHR ''%'')"
    using less.prems(2,3) by (simp add: strchr_append_right)
  show ?case
  proof (cases "strchr rest (CHR ''%'')")
    case None
    then have "expand tab rest = Some rest"
      using expand_plain [of rest tab "[]"] by (simp add: strchr_None_iff)
    then show ?thesis
      using None dr less.prems by (subst str_replace_loop.simps) simp
  next
    case (Some p)
    then obtain x y where p: "rest = x @ p" "CHR ''%'' \<notin> set x" "p = CHR ''%'' # y"
      by (auto simp: strchr_Some_iff)
    have ex: "expand tab rest = map_option ((@) x) (expand tab p)" using p by (simp add: expand_plain)
    have pos: "slen b - length p = length (pre @ skip @ x)"
      using length_content [OF less.prems(1)] less.prems(2) p(1) by simp
    show ?thesis
    proof (cases "find_pattern tab p")
      case None
      then have "expand tab p = None" using p(3) by simp
      then show ?thesis
        using None Some dr ex by (subst str_replace_loop.simps) simp
    next
      case t: (Some t)
      then obtain final where final: "t \<in> set tab" "p = pattern t @ final"
        using find_pattern_Some by blast
      have pat: "pattern t \<noteq> []" using final(1) less.prems(4) by (auto simp: tab_ok_def list_all_iff)
      have fin: "final = drop (length (pattern t) - 1) y"
        using final(2) p(3) pat by (cases "pattern t") auto
      show ?thesis
      proof (cases "replacement t")
        case None
        then have "expand tab p = None" using t p(3) by simp
        moreover have "replace_at (\<lambda>_. True) junk b (length (pre @ skip @ x)) t =
            Some (- 1, b\<lparr>slen := length (pre @ skip @ x)\<rparr>)"
          using None by (simp add: replace_at_def str_append_str_def)
        ultimately show ?thesis
          using t Some dr ex pos by (subst str_replace_loop.simps) (simp add: Let_def)
      next
        case v: (Some v)
        then have vok: "CHR ''%'' \<notin> set v" "length v \<le> M"
          using final(1) less.prems(4) by (auto simp: tab_ok_def list_all_iff)
        have exp: "expand tab p = map_option ((@) v) (expand tab final)"
          using t v p(3) fin by simp
        have len: "length rest \<ge> length x + 1 + length final"
          using p(1) final(2) pat by (cases "pattern t") simp_all
        then have "length rest * (M + 1) \<ge> (length x + 1 + length final) * (M + 1)"
          by (rule mult_le_mono1)
        then have bound: "length (pre @ skip @ x) + length v + length final * (M + 1) + 2 < 2 ^ 31"
          using less.prems(5) vok(2) by (simp add: algebra_simps)
        have "length final \<le> length final * (M + 1)" by simp
        then obtain b' where b': "replace_at (\<lambda>_. True) junk b (length (pre @ skip @ x)) t = Some (0, b')"
          "str_ok b'" "content b' = (pre @ skip @ x) @ v @ final"
          using replace_at_ok [OF less.prems(1), of "pre @ skip @ x" t final v junk] bound v
            less.prems(2) p(1) final(2) by auto
        have step: "str_replace_loop (\<lambda>_. True) junk tab b (length pre) =
            (if length (pre @ skip @ x) < slen b' then str_replace_loop (\<lambda>_. True) junk tab b' (length (pre @ skip @ x))
             else Some (0, b'))"
          using Some t dr pos b'(1) by (subst str_replace_loop.simps) (simp add: Let_def)
        show ?thesis
        proof (cases "length (pre @ skip @ x) < slen b'")
          case True
          have "\<exists>ret b''. str_replace_loop (\<lambda>_. True) junk tab b' (length (pre @ skip @ x)) = Some (ret, b'') \<and>
              (case expand tab final of
                 None \<Rightarrow> ret < 0
               | Some r \<Rightarrow> ret = 0 \<and> str_ok b'' \<and> content b'' = (pre @ skip @ x) @ v @ r)"
            using len b'(2,3) vok(1) less.prems(4) bound by (intro less.hyps) simp_all
          then show ?thesis
            using True step ex exp by (cases "expand tab final") auto
        next
          case False
          then have "v = []" "final = []" using length_content [OF b'(2)] b'(3) by (simp_all flip: length_0_conv)
          then show ?thesis using False step ex exp b' by simp
        qed
      qed
    qed
  qed
qed

lemma str_replace_ok:
  assumes "str_ok b" and "tab_ok M tab" and "length (content b) * (M + 1) + 2 < 2 ^ 31"
  shows "\<exists>ret b'. str_replace_str (\<lambda>_. True) junk b tab = Some (ret, b') \<and>
    (case expand tab (content b) of
       None \<Rightarrow> ret < 0
     | Some r \<Rightarrow> ret = 0 \<and> str_ok b' \<and> content b' = r)"
  using str_replace_loop_ok [of b "[]" "[]" "content b" M tab junk] assms
  by (cases "expand tab (content b)") (simp_all add: str_replace_str_def)

text \<open>C36. The replacement ends and is a single pass, when no replacement text has a percent sign:
  on a well-formed buffer \<open>str_replace_str\<close> returns, with the text in which every pattern is replaced
  by its value, or with an error exactly when a percent sign starts no pattern or a pattern has no
  value.\<close>

theorem str_replace_single_pass:
  assumes "str_ok b" and "tab_ok M tab" and "length (content b) * (M + 1) + 2 < 2 ^ 31"
  shows "\<exists>ret b'. str_replace_str (\<lambda>_. True) junk b tab = Some (ret, b') \<and>
    (case expand tab (content b) of
       None \<Rightarrow> ret < 0
     | Some r \<Rightarrow> ret = 0 \<and> str_ok b' \<and> content b' = r)"
  by (rule str_replace_ok [OF assms])

definition demo_tab :: "string \<Rightarrow> str_rep_tab list" where
  "demo_tab v = [\<lparr>pattern = ''%R'', rep_val = Some v, rep_func = (\<lambda>_. None), rep_func_input = ''''\<rparr>]"

definition demo_str :: "string \<Rightarrow> str_st" where
  "demo_str s = \<lparr>allocd = Some (s @ [CHR 0x00]), data_off = 0, max_length = length s, slen = length s\<rparr>"

lemma demo_str_ok: "str_ok (demo_str s)" and content_demo_str: "content (demo_str s) = s"
  by (simp_all add: demo_str_def str_ok_def content_def bslice_def)

theorem str_replace_single_pass_witness:
  "\<exists>b'. str_replace_str (\<lambda>_. True) (\<lambda>_. CHR ''x'') (demo_str ''add %R'') (demo_tab ''10.0.0.0/8'') = Some (0, b') \<and>
     content b' = ''add 10.0.0.0/8''"
proof -
  have t: "tab_ok 10 (demo_tab ''10.0.0.0/8'')"
    by (simp add: demo_tab_def tab_ok_def replacement_def)
  have e: "expand (demo_tab ''10.0.0.0/8'') (content (demo_str ''add %R'')) = Some ''add 10.0.0.0/8''"
    by (simp add: content_demo_str demo_tab_def replacement_def)
  show ?thesis
    using str_replace_single_pass [OF demo_str_ok t, of "''add %R''" "\<lambda>_. CHR ''x''"] e
    by (auto simp: content_demo_str)
qed

lemma replace_diverges_aux:
  assumes "str_replace_loop alloc junk tab b pos = Some y"
  shows "alloc = (\<lambda>_. True) \<longrightarrow> tab = demo_tab ''%R'' \<longrightarrow> pos = 0 \<longrightarrow> str_ok b \<longrightarrow> content b \<noteq> ''%R''"
proof (rule str_replace_loop.raw_induct [OF _ assms], intro impI notI, goal_cases)
  case (1 loop alloc junk tab b pos y)
  then have a: "alloc = (\<lambda>_. True)" "tab = demo_tab ''%R''" "pos = 0" "str_ok b" "content b = ''%R''" by blast+
  have "slen b = 2" using length_content [OF a(4)] a(5) by simp
  moreover obtain b' where b': "replace_at (\<lambda>_. True) junk b 0 (hd (demo_tab ''%R'')) = Some (0, b')"
    "str_ok b'" "content b' = ''%R''"
    using replace_at_ok [OF a(4), of "[]" "hd (demo_tab ''%R'')" "[]" "''%R''" junk] a(5)
    by (auto simp: demo_tab_def replacement_def)
  moreover have "slen b' = 2" using length_content [OF b'(2)] b'(3) by simp
  ultimately have "loop alloc junk tab b' 0 = Some y"
    using 1(2) a by (simp add: demo_tab_def Let_def)
  then show False using 1(1) a(1,2) b'(2,3) by blast
qed


end
