(* ===== verification/RouteAdd.thy ===== *)
theory RouteAdd
  imports MainTypes Str
begin

text \<open>
  The routes to the networks behind a client, \<^verbatim>\<open>src/src/route-add.c\<close>: the configured commands with
  their patterns replaced by the route and the device, one command per route, undone when one of
  them fails.

  \<open>run\<close> tells how a shell command ends. A function that does not return gives \<^term>\<open>None\<close>; memory is
  taken to be available, with \<open>junk\<close> as its initial contents.
\<close>

section \<open>Operations\<close>

datatype exec_result = Fork_Failed | Wait_Failed | Abnormal | Exited nat

record route_env =
  ra_run :: "string \<Rightarrow> exec_result"
  ra_junk :: "nat \<Rightarrow> char"

definition route_call_script :: "route_env \<Rightarrow> main_server \<Rightarrow> string option \<Rightarrow> int \<times> main_server" where
  "route_call_script env s cmd =
     (case cmd of
        None \<Rightarrow> (0, s)
      | Some c \<Rightarrow>
          (case ra_run env c of
             Fork_Failed \<Rightarrow> (ERR_EXEC, s)
           | Wait_Failed \<Rightarrow> (ERR_EXEC, emit (Route_Cmd c) s)
           | Abnormal \<Rightarrow> (ERR_EXEC, emit (Route_Cmd c) s)
           | Exited st \<Rightarrow> (if st \<noteq> 0 then ERR_EXEC else 0, emit (Route_Cmd c) s)))"

definition route_tab :: "string \<Rightarrow> string \<Rightarrow> str_rep_tab list" where
  "route_tab route dev =
     [\<lparr>pattern = ''%{R}'', rep_val = Some route, rep_func = (\<lambda>_. None), rep_func_input = ''''\<rparr>,
      \<lparr>pattern = ''%R'', rep_val = Some route, rep_func = (\<lambda>_. None), rep_func_input = ''''\<rparr>,
      \<lparr>pattern = ''%{D}'', rep_val = Some dev, rep_func = (\<lambda>_. None), rep_func_input = ''''\<rparr>,
      \<lparr>pattern = ''%D'', rep_val = Some dev, rep_func = (\<lambda>_. None), rep_func_input = ''''\<rparr>,
      \<lparr>pattern = ''%{RI}'', rep_val = None, rep_func = ipv4_route_to_cidr, rep_func_input = route\<rparr>]"

definition replace_cmd :: "route_env \<Rightarrow> string \<Rightarrow> string \<Rightarrow> string \<Rightarrow> (int \<times> string option) option" where
  "replace_cmd env pat route dev =
     (case str_append_str (\<lambda>_. True) (ra_junk env) str_init (Some pat) of
        None \<Rightarrow> None
      | Some (ret, str) \<Rightarrow>
          if ret < 0 then Some (ERR_MEM, None)
          else
            (case str_replace_str (\<lambda>_. True) (ra_junk env) str (route_tab route dev) of
               None \<Rightarrow> None
             | Some (ret, str) \<Rightarrow>
                 if ret < 0 then Some (ERR_MEM, None) else Some (0, Some (content str))))"

definition route_adddel ::
    "route_env \<Rightarrow> main_server \<Rightarrow> string option \<Rightarrow> string \<Rightarrow> string \<Rightarrow> (int \<times> main_server) option" where
  "route_adddel env s pat route dev =
     (case pat of
        None \<Rightarrow> Some (0, s)
      | Some pt \<Rightarrow>
          (case replace_cmd env pt route dev of
             None \<Rightarrow> None
           | Some (ret, cmd) \<Rightarrow>
               if ret < 0 then Some (ret, s)
               else (case route_call_script env s cmd of
                       (ret, s) \<Rightarrow> Some (if ret < 0 then ERR_EXEC else 0, s))))"

definition route_add :: "route_env \<Rightarrow> main_server \<Rightarrow> string \<Rightarrow> string \<Rightarrow> (int \<times> main_server) option" where
  "route_add env s route dev = route_adddel env s (cf_route_add_cmd (getconfig s)) route dev"

definition route_del :: "route_env \<Rightarrow> main_server \<Rightarrow> string \<Rightarrow> string \<Rightarrow> (int \<times> main_server) option" where
  "route_del env s route dev = route_adddel env s (cf_route_del_cmd (getconfig s)) route dev"

text \<open>The deletion of a list of routes, whose results are ignored.\<close>

fun del_routes :: "route_env \<Rightarrow> main_server \<Rightarrow> string \<Rightarrow> string list \<Rightarrow> main_server option" where
  "del_routes env s dev [] = Some s"
| "del_routes env s dev (r # rs) =
     (case route_del env s r dev of None \<Rightarrow> None | Some (ret, s) \<Rightarrow> del_routes env s dev rs)"

text \<open>The loop over the routes; \<open>applied\<close> are the routes before the current one, which a failure deletes
  again.\<close>

fun add_routes :: "route_env \<Rightarrow> main_server \<Rightarrow> string \<Rightarrow> string list \<Rightarrow> string list \<Rightarrow> (int \<times> main_server) option" where
  "add_routes env s dev applied [] = Some (0, s)"
| "add_routes env s dev applied (r # rs) =
     (case route_add env s r dev of
        None \<Rightarrow> None
      | Some (ret, s) \<Rightarrow>
          if ret < 0 then map_option (\<lambda>s. (- 1, s)) (del_routes env s dev applied)
          else add_routes env s dev (applied @ [r]) rs)"

definition apply_iroutes :: "route_env \<Rightarrow> main_server \<Rightarrow> proc \<Rightarrow> group_cfg \<Rightarrow> (int \<times> proc \<times> main_server) option" where
  "apply_iroutes env s pr gc =
     (if gc_iroutes gc = [] then Some (0, pr, s)
      else
        (case add_routes env s (p_tun_name pr) [] (gc_iroutes gc) of
           None \<Rightarrow> None
         | Some (ret, s) \<Rightarrow> Some (ret, if ret < 0 then pr else pr\<lparr>p_applied_iroutes := True\<rparr>, s)))"

definition remove_iroutes :: "route_env \<Rightarrow> main_server \<Rightarrow> proc \<Rightarrow> (proc \<times> main_server) option" where
  "remove_iroutes env s pr =
     (case p_config pr of
        None \<Rightarrow> Some (pr, s)
      | Some gc \<Rightarrow>
          if gc_iroutes gc = [] \<or> \<not> p_applied_iroutes pr then Some (pr, s)
          else map_option (\<lambda>s. (pr\<lparr>p_applied_iroutes := False\<rparr>, s))
                 (del_routes env s (p_tun_name pr) (gc_iroutes gc)))"

section \<open>Commands\<close>

text \<open>The command that a pattern gives for a route: the single-pass expansion.\<close>

definition route_cmd :: "string \<Rightarrow> string \<Rightarrow> string \<Rightarrow> string option" where
  "route_cmd pat route dev = expand (route_tab route dev) pat"

definition plain :: "string \<Rightarrow> bool" where
  "plain s \<longleftrightarrow> CHR ''%'' \<notin> set s"

lemma take_subset: "set (take n xs) \<subseteq> set xs"
  by (rule set_take_subset)

lemma plain_dec [simp]: "plain (dec n)"
  using dec_digits [of "CHR ''%''" n] by (auto simp: plain_def c_isdigit_def)

lemma cidr_plain:
  assumes "ipv4_route_to_cidr r = Some v" and "plain r"
  shows "plain v \<and> length v \<le> length r + 3"
proof -
  have d: "length (dec (nat n)) \<le> 2" if "0 < n" "n \<le> 32" for n :: int
  proof -
    have "nat n \<le> 32" using that by simp
    then show ?thesis by (cases "nat n < 10") (simp_all add: dec.simps [of "nat n"] dec.simps [of "nat n div 10"])
  qed
  have "v = r \<or> (\<exists>k n. 0 < n \<and> n \<le> 32 \<and> v = take k r @ ''/'' @ dec (nat n))"
    using assms(1) by (simp add: ipv4_route_to_cidr_def Let_def not_le not_less split: option.splits if_splits) blast+
  then show ?thesis
  proof
    assume "\<exists>k n. 0 < n \<and> n \<le> 32 \<and> v = take k r @ ''/'' @ dec (nat n)"
    then obtain k n where v: "0 < n" "n \<le> 32" "v = take k r @ ''/'' @ dec (nat n)" by blast
    have "plain v"
      using v(3) assms(2) plain_dec [of "nat n"] set_take_subset [of k r] by (auto simp: plain_def)
    then show ?thesis using d [OF v(1,2)] v(3) by simp
  qed (use assms(2) in auto)
qed

lemma route_tab_ok:
  assumes "plain route" and "plain dev" and "length route + 3 \<le> M" and "length dev \<le> M"
  shows "tab_ok M (route_tab route dev)"
  using assms cidr_plain [OF _ assms(1)] by (fastforce simp: tab_ok_def route_tab_def replacement_def plain_def)

lemma replace_cmd_eq:
  assumes "plain route" and "plain dev" and "length route + 3 \<le> M" and "length dev \<le> M"
    and "length pat * (M + 1) + 2 < 2 ^ 31"
  shows "replace_cmd env pat route dev =
    Some (case route_cmd pat route dev of None \<Rightarrow> (ERR_MEM, None) | Some c \<Rightarrow> (0, Some c))"
proof -
  have "length pat \<le> length pat * (M + 1)" by simp
  then have "appended (\<lambda>_. True) str_init pat (str_append_str (\<lambda>_. True) (ra_junk env) str_init (Some pat))"
    using assms(5) by (intro str_append_str_ok) (simp_all add: str_init_def [THEN arg_cong, of slen])
  then obtain b where b: "str_append_str (\<lambda>_. True) (ra_junk env) str_init (Some pat) = Some (0, b)"
    "str_ok b" "content b = pat" by (auto simp: appended_def)
  then obtain ret b' where r: "str_replace_str (\<lambda>_. True) (ra_junk env) b (route_tab route dev) = Some (ret, b')"
    "case route_cmd pat route dev of None \<Rightarrow> ret < 0 | Some r \<Rightarrow> ret = 0 \<and> content b' = r"
    using str_replace_ok [OF b(2) route_tab_ok [OF assms(1-4)], of "ra_junk env"] assms(5)
    by (auto simp: route_cmd_def split: option.splits)
  then show ?thesis
    using b by (cases "route_cmd pat route dev") (simp_all add: replace_cmd_def)
qed

section \<open>Sequences of commands\<close>

text \<open>What the command for a route does to the outside, whether it succeeds, and the routes and patterns
  whose commands fit into an \<^verbatim>\<open>int\<close>.\<close>

definition cmd_out :: "route_env \<Rightarrow> string option \<Rightarrow> string \<Rightarrow> string \<Rightarrow> main_out list" where
  "cmd_out env pat dev r =
     (case pat of
        None \<Rightarrow> []
      | Some pt \<Rightarrow>
          (case route_cmd pt r dev of
             None \<Rightarrow> []
           | Some c \<Rightarrow> if ra_run env c = Fork_Failed then [] else [Route_Cmd c]))"

definition cmd_ok :: "route_env \<Rightarrow> string option \<Rightarrow> string \<Rightarrow> string \<Rightarrow> bool" where
  "cmd_ok env pat dev r \<longleftrightarrow>
     (case pat of
        None \<Rightarrow> True
      | Some pt \<Rightarrow> (case route_cmd pt r dev of None \<Rightarrow> False | Some c \<Rightarrow> ra_run env c = Exited 0))"

definition route_bounded :: "string option \<Rightarrow> string \<Rightarrow> string \<Rightarrow> bool" where
  "route_bounded pat dev r \<longleftrightarrow> plain r \<and> plain dev \<and>
     (case pat of None \<Rightarrow> True | Some pt \<Rightarrow> length pt * (length r + length dev + 4) + 2 < 2 ^ 31)"

definition emits :: "main_out list \<Rightarrow> main_server \<Rightarrow> main_server" where
  "emits xs s = s\<lparr>s_out := s_out s @ xs\<rparr>"

lemma emits_simps [simp]:
  "emits [] s = s" "emits ys (emits xs s) = emits (xs @ ys) s" "emit x s = emits [x] s"
  "getconfig (emits xs s) = getconfig s"
  by (simp_all add: emits_def emit_def getconfig_def)

lemma route_adddel_eq:
  assumes "route_bounded pat dev r"
  shows "\<exists>ret. route_adddel env s pat r dev = Some (ret, emits (cmd_out env pat dev r) s) \<and>
    (ret < 0 \<longleftrightarrow> \<not> cmd_ok env pat dev r)"
proof (cases pat)
  case (Some pt)
  have "replace_cmd env pt r dev =
      Some (case route_cmd pt r dev of None \<Rightarrow> (ERR_MEM, None) | Some c \<Rightarrow> (0, Some c))"
  proof (rule replace_cmd_eq)
    have "length r + length dev + 3 + 1 = length r + length dev + 4" by simp
    then show "length pt * (length r + length dev + 3 + 1) + 2 < 2 ^ 31"
      using assms Some by (simp only: route_bounded_def option.case)
  qed (use assms in \<open>simp_all add: route_bounded_def\<close>)
  then show ?thesis
    using Some by (cases "route_cmd pt r dev")
      (auto simp: route_adddel_def route_call_script_def cmd_ok_def cmd_out_def split: exec_result.split)
qed (simp add: route_adddel_def cmd_ok_def cmd_out_def)

lemma del_routes_eq:
  "\<forall>r \<in> set rs. route_bounded (cf_route_del_cmd (getconfig s)) dev r \<Longrightarrow>
   del_routes env s dev rs = Some (emits (concat (map (cmd_out env (cf_route_del_cmd (getconfig s)) dev) rs)) s)"
proof (induction rs arbitrary: s)
  case (Cons r rs)
  then obtain ret where "route_del env s r dev = Some (ret, emits (cmd_out env (cf_route_del_cmd (getconfig s)) dev r) s)"
    using route_adddel_eq [of "cf_route_del_cmd (getconfig s)" dev r env s] by (auto simp: route_del_def)
  then show ?case using Cons by simp
qed simp

lemma add_routes_eq:
  assumes "\<forall>r \<in> set rs. route_bounded (cf_route_add_cmd (getconfig s)) dev r"
    and "\<forall>r \<in> set (applied @ rs). route_bounded (cf_route_del_cmd (getconfig s)) dev r"
  shows "add_routes env s dev applied rs =
    (let add = cf_route_add_cmd (getconfig s);
         good = takeWhile (cmd_ok env add dev) rs;
         bad = take 1 (dropWhile (cmd_ok env add dev) rs)
     in Some (if bad = [] then 0 else - 1,
          emits (concat (map (cmd_out env add dev) (good @ bad)) @
                 (if bad = [] then []
                  else concat (map (cmd_out env (cf_route_del_cmd (getconfig s)) dev) (applied @ good)))) s))"
  using assms
proof (induction rs arbitrary: s applied)
  case (Cons r rs)
  let ?add = "cf_route_add_cmd (getconfig s)"
  obtain ret where r: "route_add env s r dev = Some (ret, emits (cmd_out env ?add dev r) s)"
    "ret < 0 \<longleftrightarrow> \<not> cmd_ok env ?add dev r"
    using Cons.prems(1) route_adddel_eq [of ?add dev r env s] by (auto simp: route_add_def)
  show ?case
  proof (cases "cmd_ok env ?add dev r")
    case True
    have "add_routes env s dev applied (r # rs) =
        add_routes env (emits (cmd_out env ?add dev r) s) dev (applied @ [r]) rs"
      using r True by simp
    also note Cons.IH
    finally show ?thesis using Cons.prems True by (simp add: Let_def)
  next
    case False
    then show ?thesis using r Cons.prems by (simp add: del_routes_eq)
  qed
qed simp

section \<open>All or nothing\<close>

text \<open>C34. The networks behind a client are routed all or not at all: the commands are run in the order of
  the routes up to the first one that fails, and then either every one succeeded and the process is
  marked, or exactly the routes that were added are deleted again, in the same order, the process
  stays unmarked and the caller gets an error. A failure of a deletion stops nothing. Every command
  line comes from one pass over its pattern; the function returns on every input without percent
  signs in a route or in the device name.\<close>

theorem iroutes_all_or_nothing:
  fixes env :: route_env
  assumes "gc_iroutes gc \<noteq> []"
    and "\<forall>r \<in> set (gc_iroutes gc). route_bounded (cf_route_add_cmd (getconfig s)) (p_tun_name pr) r"
    and "\<forall>r \<in> set (gc_iroutes gc). route_bounded (cf_route_del_cmd (getconfig s)) (p_tun_name pr) r"
  defines "add \<equiv> cf_route_add_cmd (getconfig s)"
    and "del \<equiv> cf_route_del_cmd (getconfig s)"
  defines "good \<equiv> takeWhile (cmd_ok env add (p_tun_name pr)) (gc_iroutes gc)"
  shows "apply_iroutes env s pr gc = Some
    (if good = gc_iroutes gc
     then (0, pr\<lparr>p_applied_iroutes := True\<rparr>, emits (concat (map (cmd_out env add (p_tun_name pr)) (gc_iroutes gc))) s)
     else (- 1, pr, emits (concat (map (cmd_out env add (p_tun_name pr)) good) @
                       cmd_out env add (p_tun_name pr) (gc_iroutes gc ! length good) @
                       concat (map (cmd_out env del (p_tun_name pr)) good)) s))"
proof -
  let ?P = "cmd_ok env add (p_tun_name pr)" and ?rs = "gc_iroutes gc"
  have bad: "take 1 (dropWhile ?P ?rs) = (if good = ?rs then [] else [?rs ! length good])"
  proof (cases "good = ?rs")
    case True
    then show ?thesis unfolding good_def by (simp add: takeWhile_eq_all_conv)
  next
    case False
    then have "dropWhile ?P ?rs \<noteq> []" unfolding good_def by (simp add: takeWhile_eq_all_conv)
    moreover have "?rs ! length good = hd (dropWhile ?P ?rs)"
      unfolding good_def using calculation by (simp add: hd_conv_nth dropWhile_nth)
    ultimately show ?thesis using False by (cases "dropWhile ?P ?rs") simp_all
  qed
  have "add_routes env s (p_tun_name pr) [] ?rs =
      Some (if good = ?rs then 0 else - 1,
        emits (concat (map (cmd_out env add (p_tun_name pr)) (good @ (if good = ?rs then [] else [?rs ! length good]))) @
          (if good = ?rs then [] else concat (map (cmd_out env del (p_tun_name pr)) good))) s)"
    using add_routes_eq [of ?rs s "p_tun_name pr" "[]" env] assms(2,3)
    unfolding Let_def add_def [symmetric] del_def [symmetric] bad good_def [symmetric]
    by (cases "good = ?rs") simp_all
  then show ?thesis
    using assms(1) by (cases "good = ?rs") (simp_all add: apply_iroutes_def)
qed

text \<open>The second of two routes fails, and the first one is taken back.\<close>

definition demo_route_env :: route_env where
  "demo_route_env =
     \<lparr>ra_run = (\<lambda>c. if c = ''ip route add 10.2.0.0/16 dev vpns0'' then Exited 2 else Exited 0), ra_junk = (\<lambda>_. CHR 0xFF)\<rparr>"

theorem iroutes_all_or_nothing_witness:
  "apply_iroutes demo_route_env demo_main (demo_proc\<lparr>p_tun_name := ''vpns0''\<rparr>)
     (demo_gc\<lparr>gc_iroutes := [''10.1.0.0/255.255.0.0'', ''10.2.0.0/255.255.0.0'', ''10.3.0.0/255.255.0.0'']\<rparr>) =
   Some (- 1, demo_proc\<lparr>p_tun_name := ''vpns0''\<rparr>, emits [Route_Cmd ''ip route add 10.1.0.0/16 dev vpns0'', Route_Cmd ''ip route add 10.2.0.0/16 dev vpns0'',
     Route_Cmd ''ip route del 10.1.0.0/255.255.0.0 dev vpns0''] demo_main)"
proof -
  let ?gc = "demo_gc\<lparr>gc_iroutes := [''10.1.0.0/255.255.0.0'', ''10.2.0.0/255.255.0.0'', ''10.3.0.0/255.255.0.0'']\<rparr>"
  let ?pr = "demo_proc\<lparr>p_tun_name := ''vpns0''\<rparr>"
  have c: "cf_route_add_cmd (getconfig demo_main) = Some ''ip route add %{RI} dev %D''"
    "cf_route_del_cmd (getconfig demo_main) = Some ''ip route del %R dev %D''"
    by (simp_all add: getconfig_def demo_main_def demo_vhost_def demo_cfg_def)
  have r: "route_cmd ''ip route add %{RI} dev %D'' ''10.1.0.0/255.255.0.0'' ''vpns0'' = Some ''ip route add 10.1.0.0/16 dev vpns0''"
    "route_cmd ''ip route add %{RI} dev %D'' ''10.2.0.0/255.255.0.0'' ''vpns0'' = Some ''ip route add 10.2.0.0/16 dev vpns0''"
    "route_cmd ''ip route del %R dev %D'' ''10.1.0.0/255.255.0.0'' ''vpns0'' = Some ''ip route del 10.1.0.0/255.255.0.0 dev vpns0''"
    by code_simp+
  have g: "takeWhile (cmd_ok demo_route_env (Some ''ip route add %{RI} dev %D'') ''vpns0'') (gc_iroutes ?gc) = [''10.1.0.0/255.255.0.0'']"
    by (simp add: cmd_ok_def r demo_route_env_def)
  show ?thesis
    using iroutes_all_or_nothing [of ?gc demo_main ?pr demo_route_env] g
    by (simp add: c route_bounded_def plain_def cmd_out_def r) (simp add: demo_route_env_def)
qed

end
