(* ===== verification/MainSession.thy ===== *)
theory MainSession
  imports MainTypes SecModAuth
begin

text \<open>
  The dialogue of the main process with the security module, \<^verbatim>\<open>src/src/main-sec-mod-cmd.c\<close>: opening and
  closing a session, the configuration that a session gets, the statistics, and the commands that the
  security module sends.

  An exchange with the security module is a function from the request to what comes back. The
  operations on one process take the object and give it back updated; their caller stores it.
\<close>

section \<open>Statistics\<close>

definition update_auth_failures :: "main_server \<Rightarrow> u64 \<Rightarrow> main_server" where
  "update_auth_failures s n =
     (let st = s_stats s in
      if st_auth_failures st + n < st_auth_failures st then s\<lparr>s_stats := st\<lparr>st_auth_failures := 0\<rparr>\<rparr>
      else s\<lparr>s_stats := st\<lparr>st_auth_failures := st_auth_failures st + n,
             st_total_auth_failures := st_total_auth_failures st + n\<rparr>\<rparr>)"

definition reset_stats :: "time_t \<Rightarrow> main_stats \<Rightarrow> main_stats" where
  "reset_stats t st =
     st\<lparr>st_session_idle_timeouts := 0, st_session_timeouts := 0, st_session_errors := 0, st_sessions_closed := 0,
        st_auth_failures := 0, st_last_reset := t, st_kbytes_in := 0, st_kbytes_out := 0,
        st_max_session_mins := 0, st_max_auth_time := 0\<rparr>"

abbreviation REASON_IDLE_TIMEOUT :: u32 where "REASON_IDLE_TIMEOUT \<equiv> 4"
abbreviation REASON_ERROR :: u32 where "REASON_ERROR \<equiv> 6"
abbreviation REASON_SESSION_TIMEOUT :: u32 where "REASON_SESSION_TIMEOUT \<equiv> 7"

definition count_reason :: "u32 \<Rightarrow> main_stats \<Rightarrow> main_stats" where
  "count_reason r st =
     (if r = REASON_IDLE_TIMEOUT then st\<lparr>st_session_idle_timeouts := st_session_idle_timeouts st + 1\<rparr>
      else if r = REASON_SESSION_TIMEOUT then st\<lparr>st_session_timeouts := st_session_timeouts st + 1\<rparr>
      else if r = REASON_ERROR then st\<lparr>st_session_errors := st_session_errors st + 1\<rparr>
      else st)"

definition count_mtu :: "u32 \<Rightarrow> main_stats \<Rightarrow> main_stats" where
  "count_mtu mtu st =
     (let st = (if st_min_mtu st = 0 \<or> mtu < st_min_mtu st then st\<lparr>st_min_mtu := mtu\<rparr> else st)
      in if st_max_mtu st = 0 \<or> mtu > st_min_mtu st then st\<lparr>st_max_mtu := mtu\<rparr> else st)"

text \<open>The average is computed with 64 bits and stored in 32.\<close>

definition count_minutes :: "time_t \<Rightarrow> main_stats \<Rightarrow> main_stats" where
  "count_minutes stime st =
     (if stime > 0 then
        (let avg = ((st_sessions_closed st - 1) * ucast (st_avg_session_mins st) + word_of_int stime) div
                     st_sessions_closed st;
             st = st\<lparr>st_avg_session_mins := ucast avg\<rparr>
         in if stime > uint (st_max_session_mins st) then st\<lparr>st_max_session_mins := word_of_int stime\<rparr> else st)
      else st)"

definition update_main_stats :: "time_t \<Rightarrow> main_vhost \<Rightarrow> proc \<Rightarrow> main_stats \<Rightarrow> main_stats" where
  "update_main_stats t vhost pr st =
     (let st = (if mv_stats_reset_time vhost \<noteq> 0 \<and> t - st_last_reset st > uint (mv_stats_reset_time vhost)
                then reset_stats t st else st);
          st = count_reason (p_discon_reason pr) st;
          st = st\<lparr>st_sessions_closed := st_sessions_closed st + 1,
                  st_total_sessions_closed := st_total_sessions_closed st + 1\<rparr>;
          kb_in = p_bytes_in pr div 1000;
          kb_out = p_bytes_out pr div 1000
      in if st_sessions_closed st = 0 then reset_stats t st
         else if st_kbytes_in st + kb_in < st_kbytes_in st then reset_stats t st
         else if st_kbytes_out st + kb_out < st_kbytes_out st then reset_stats t st
         else
           count_minutes ((t - p_conn_time pr) div 60)
             (count_mtu (p_mtu pr)
               (st\<lparr>st_kbytes_in := st_kbytes_in st + kb_in, st_kbytes_out := st_kbytes_out st + kb_out\<rparr>)))"

section \<open>The configuration of a session\<close>

text \<open>The allocations of \<open>append_routes\<close>: the two arrays, and the copies of the strings, by the loop they
  are made in and their index.\<close>

record dup_env =
  de_routes :: bool
  de_no_routes :: bool
  de_dup :: "nat \<Rightarrow> nat \<Rightarrow> bool"

fun dups :: "(nat \<Rightarrow> bool) \<Rightarrow> nat \<Rightarrow> string list \<Rightarrow> string list" where
  "dups ok i [] = []"
| "dups ok i (x # xs) = (if ok i then x # dups ok (i + 1) xs else [])"

fun dup_known :: "(nat \<Rightarrow> bool) \<Rightarrow> string list \<Rightarrow> nat \<Rightarrow> string list \<Rightarrow> string list" where
  "dup_known ok iroutes i [] = []"
| "dup_known ok iroutes i (x # xs) =
     (if x \<in> set iroutes then dup_known ok iroutes (i + 1) xs
      else if ok i then x # dup_known ok iroutes (i + 1) xs
      else [])"

definition strs :: "string list option \<Rightarrow> string list" where
  "strs x = (case x of None \<Rightarrow> [] | Some xs \<Rightarrow> xs)"

text \<open>\<^term>\<open>None\<close>: a write through a null pointer, when an array could not be allocated.\<close>

definition append_routes :: "dup_env \<Rightarrow> main_cfg \<Rightarrow> group_cfg \<Rightarrow> group_cfg option" where
  "append_routes env cf gc =
     (if cf_known_iroutes cf \<noteq> [] \<or> cf_append_routes cf then
        (let old = strs (gc_routes gc) in
         if \<not> de_routes env \<and> old \<noteq> [] then None
         else
           (let r = (if de_routes env
                     then Some (dups (de_dup env 0) 0 old @ dup_known (de_dup env 1) (gc_iroutes gc) 0 (cf_known_iroutes cf))
                     else None);
                r = (if cf_append_routes cf
                     then map_option (\<lambda>r. r @ dups (de_dup env 2) 0 (strs (net_routes (cf_network cf)))) r else r);
                gc = gc\<lparr>gc_routes := r\<rparr>;
                global = strs (net_no_routes (cf_network cf))
            in if \<not> cf_append_routes cf \<or> global = [] then Some gc
               else if \<not> de_no_routes env then None
               else Some (gc\<lparr>gc_no_routes :=
                      Some (dups (de_dup env 3) 0 (strs (gc_no_routes gc)) @ dups (de_dup env 4) 0 global)\<rparr>)))
      else Some gc)"

definition dflt :: "'a option \<Rightarrow> 'a \<Rightarrow> 'a option" where
  "dflt x d = (case x of None \<Rightarrow> Some d | Some v \<Rightarrow> Some v)"

definition dflt_ptr :: "'a option \<Rightarrow> 'a option \<Rightarrow> 'a option" where
  "dflt_ptr x d = (case x of None \<Rightarrow> d | Some v \<Rightarrow> Some v)"

definition default_fields :: "main_cfg \<Rightarrow> group_cfg \<Rightarrow> group_cfg" where
  "default_fields cf gc =
     (let net = cf_network cf in
      gc\<lparr>gc_no_routes := dflt_ptr (gc_no_routes gc) (net_no_routes net),
         gc_dns := dflt_ptr (gc_dns gc) (net_dns net),
         gc_nbns := dflt_ptr (gc_nbns gc) (net_nbns net),
         gc_split_dns := dflt_ptr (gc_split_dns gc) (cf_split_dns cf),
         gc_interim_update_secs := dflt (gc_interim_update_secs gc) (cf_stats_report_time cf),
         gc_session_timeout_secs := dflt (gc_session_timeout_secs gc) (word_of_int (cf_session_timeout cf)),
         gc_deny_roaming := dflt (gc_deny_roaming gc) (cf_deny_roaming cf),
         gc_ipv4_net := dflt_ptr (gc_ipv4_net gc) (net_ipv4_network net),
         gc_ipv4_netmask := dflt_ptr (gc_ipv4_netmask gc) (net_ipv4_netmask net),
         gc_ipv6_net := dflt_ptr (gc_ipv6_net gc) (net_ipv6_network net),
         gc_ipv6_prefix := dflt (gc_ipv6_prefix gc) (net_ipv6_prefix net),
         gc_ipv6_subnet_prefix := dflt (gc_ipv6_subnet_prefix gc) (net_ipv6_subnet_prefix net),
         gc_cgroup := dflt_ptr (gc_cgroup gc) (cf_cgroup cf),
         gc_xml_config_file := dflt_ptr (gc_xml_config_file gc) (cf_xml_config_file cf),
         gc_rx_per_sec := dflt (gc_rx_per_sec gc) (ucast (cf_rx_per_sec cf)),
         gc_tx_per_sec := dflt (gc_tx_per_sec gc) (ucast (cf_tx_per_sec cf)),
         gc_net_priority := dflt (gc_net_priority gc) (cf_net_priority cf),
         gc_keepalive := dflt (gc_keepalive gc) (cf_keepalive cf),
         gc_dpd := dflt (gc_dpd gc) (cf_dpd cf),
         gc_mobile_dpd := dflt (gc_mobile_dpd gc) (cf_mobile_dpd cf),
         gc_max_same_clients := dflt (gc_max_same_clients gc) (cf_max_same_clients cf),
         gc_tunnel_all_dns := dflt (gc_tunnel_all_dns gc) (cf_tunnel_all_dns cf),
         gc_restrict_user_to_routes := dflt (gc_restrict_user_to_routes gc) (cf_restrict_user_to_routes cf),
         gc_mtu := dflt (gc_mtu gc) (net_mtu net),
         gc_idle_timeout := dflt (gc_idle_timeout gc) (cf_idle_timeout cf),
         gc_mobile_idle_timeout := dflt (gc_mobile_idle_timeout gc) (cf_mobile_idle_timeout cf),
         gc_fw_ports := (if gc_fw_ports gc = [] \<and> cf_fw_ports cf \<noteq> [] then cf_fw_ports cf else gc_fw_ports gc)\<rparr>)"

definition apply_default_config :: "dup_env \<Rightarrow> main_vhost \<Rightarrow> group_cfg \<Rightarrow> group_cfg option" where
  "apply_default_config env vhost gc =
     (let cf = mv_config vhost;
          gc = gc\<lparr>gc_no_udp := dflt (gc_no_udp gc) (mv_udp_port vhost = 0),
                  gc_routes := dflt_ptr (gc_routes gc) (net_routes (cf_network cf))\<rparr>
      in map_option (default_fields cf) (append_routes env cf gc))"

text \<open>The end of the function: the configuration is in use by one process more.\<close>

definition use_config :: "nat \<Rightarrow> int \<Rightarrow> main_server \<Rightarrow> main_server" where
  "use_config i d s =
     (let v = s_vconfig s ! i; cf = mv_config v
      in s\<lparr>s_vconfig := (s_vconfig s)[i := v\<lparr>mv_config := cf\<lparr>cf_usage_count := cf_usage_count cf + d\<rparr>\<rparr>]\<rparr>)"

section \<open>Sessions\<close>

record secm_reply =
  rp_ok :: bool
  rp_config :: "group_cfg option"
  rp_username :: "string option"
  rp_groupname :: "string option"
  rp_ip :: "string option"
  rp_ipv4_seed :: u32
  rp_vhost :: "string option"

record cli_stats =
  cs_bytes_in :: u64
  cs_bytes_out :: u64
  cs_discon_reason :: "u32 option"

text \<open>The outcome of an exchange; \<open>Recv_Failed n\<close> stands for the negative result \<open>- 1 - n\<close> of \<^verbatim>\<open>recv_msg\<close>.\<close>

datatype 'a answer = Send_Failed | Recv_Failed nat | Answer 'a

record session_env =
  se_open :: "open_req \<Rightarrow> secm_reply answer"
  se_close :: "close_req \<Rightarrow> cli_stats answer"
  se_dup :: dup_env
  se_ntop6 :: "bytes \<Rightarrow> string"
  se_now :: time_t

definition lease_text :: "(bytes \<Rightarrow> string) \<Rightarrow> lease option \<Rightarrow> string option" where
  "lease_text ntop6 l =
     (case l of
        None \<Rightarrow> None
      | Some l \<Rightarrow> map_option fst (human_addr2 ntop6 (rip l) (rip_len l) MAX_IP_STR False))"

definition le_bytes :: "u32 \<Rightarrow> bytes" where
  "le_bytes w = map (\<lambda>i. ucast (drop_bit (8 * i) w)) [0, 1, 2, 3]"

text \<open>The test at the end: with \<^verbatim>\<open>deny_roaming\<close>, the address must be the one of the login.\<close>

definition roaming_ok :: "session_env \<Rightarrow> proc \<Rightarrow> string option \<Rightarrow> bool" where
  "roaming_ok env pr ip \<longleftrightarrow>
     (case ip of
        None \<Rightarrow> False
      | Some ip \<Rightarrow>
          (case human_addr2 (se_ntop6 env) (p_remote_addr pr) (p_remote_addr_len pr) MAX_IP_STR False of
             None \<Rightarrow> False
           | Some (str_ip, _) \<Rightarrow> str_ip = ip))"

definition denies_roaming :: "proc \<Rightarrow> bool" where
  "denies_roaming pr \<longleftrightarrow> (case p_config pr of None \<Rightarrow> False | Some gc \<Rightarrow> gc_deny_roaming gc = Some True)"

text \<open>After the reply; \<^term>\<open>None\<close> when \<^term>\<open>apply_default_config\<close> faults.\<close>

definition session_opened :: "session_env \<Rightarrow> main_server \<Rightarrow> proc \<Rightarrow> secm_reply \<Rightarrow> (int \<times> proc \<times> main_server) option" where
  "session_opened env s pr msg =
     (if \<not> rp_ok msg then Some (- 1, pr, update_auth_failures s 1)
      else
        (case rp_username msg of
           None \<Rightarrow> Some (- 1, pr, s)
         | Some user \<Rightarrow>
             (let pr = pr\<lparr>p_username := strlcpy MAX_USERNAME_SIZE user\<rparr>;
                  pr = (case rp_groupname msg of None \<Rightarrow> pr | Some g \<Rightarrow> pr\<lparr>p_groupname := strlcpy MAX_GROUPNAME_SIZE g\<rparr>)
              in case rp_config msg of
                   None \<Rightarrow> Some (- 1, pr, s)
                 | Some gc \<Rightarrow>
                     (let v = main_find_vhost (s_vconfig s) (rp_vhost msg) in
                      case apply_default_config (se_dup env) (s_vconfig s ! v) gc of
                        None \<Rightarrow> None
                      | Some gc \<Rightarrow>
                          (let pr = pr\<lparr>p_ipv4_seed := le_bytes (rp_ipv4_seed msg), p_config := Some gc,
                                       p_vhost := Some v, p_counted := True\<rparr>;
                               s = use_config v 1 s
                           in if denies_roaming pr \<and> \<not> roaming_ok env pr (rp_ip msg) then Some (- 1, pr, s)
                              else Some (0, pr, s))))))"

definition session_open ::
    "session_env \<Rightarrow> main_server \<Rightarrow> proc \<Rightarrow> bytes option \<Rightarrow> (int \<times> proc \<times> main_server) option" where
  "session_open env s pr cookie =
     (case cookie of
        None \<Rightarrow> Some (- 1, pr, s)
      | Some cookie \<Rightarrow>
          if length cookie \<noteq> SID_SIZE then Some (- 1, pr, s)
          else
            (case se_open env \<lparr>or_sid = cookie, or_ipv4 = lease_text (se_ntop6 env) (p_ipv4 pr),
                               or_ipv6 = lease_text (se_ntop6 env) (p_ipv6 pr)\<rparr> of
               Send_Failed \<Rightarrow> Some (- 1, pr, s)
             | Recv_Failed e \<Rightarrow> Some (- 1 - int e, pr, s)
             | Answer msg \<Rightarrow> session_opened env s pr msg))"

definition close_request :: "session_env \<Rightarrow> proc \<Rightarrow> close_req" where
  "close_request env pr =
     \<lparr>cr_sid = p_sid pr, cr_uptime = Some (word_of_int (se_now env - p_conn_time pr)),
      cr_bytes_in = Some (p_bytes_in pr), cr_bytes_out = Some (p_bytes_out pr)\<rparr>"

text \<open>\<^term>\<open>None\<close>: the statistics of a process without a virtual host, a null pointer.\<close>

definition session_close :: "session_env \<Rightarrow> main_server \<Rightarrow> proc \<Rightarrow> (int \<times> proc \<times> main_server) option" where
  "session_close env s pr =
     (case se_close env (close_request env pr) of
        Send_Failed \<Rightarrow> Some (- 1, pr, s)
      | Recv_Failed e \<Rightarrow> Some (- 1 - int e, pr, s)
      | Answer msg \<Rightarrow>
          (let pr = pr\<lparr>p_bytes_in := cs_bytes_in msg, p_bytes_out := cs_bytes_out msg\<rparr>;
               pr = (case cs_discon_reason msg of None \<Rightarrow> pr | Some r \<Rightarrow> pr\<lparr>p_discon_reason := r\<rparr>)
           in case p_vhost pr of
                None \<Rightarrow> None
              | Some i \<Rightarrow>
                  Some (0, pr, s\<lparr>s_stats := update_main_stats (se_now env) (s_vconfig s ! i) pr (s_stats s)\<rparr>)))"

definition secmod_reload :: "int answer \<Rightarrow> int" where
  "secmod_reload a = (case a of Send_Failed \<Rightarrow> - 1 | Recv_Failed e \<Rightarrow> - 1 - int e | Answer _ \<Rightarrow> 0)"

section \<open>Commands of the security module\<close>

record secm_stats =
  ss_client_entries :: u32
  ss_tlsdb_entries :: u32
  ss_auth_failures :: u64
  ss_avg_auth_time :: u32
  ss_max_auth_time :: u32

text \<open>A message on the socket of the security module: what \<^verbatim>\<open>recvmsg\<close> returns, the command byte,
  whether memory for the payload is available and the payload arrives, its decodings, and the result
  of sending an answer.\<close>

record secm_in =
  si_pool :: bool
  si_ret :: int
  si_cmd :: u8
  si_alloc :: bool
  si_read :: bool
  si_ban :: "(string \<times> u32 \<times> bytes option) option"
  si_stats :: "secm_stats option"
  si_send :: int
  si_now :: time_t
  si_ban_alloc :: ban_alloc
  si_hash :: "bytes \<Rightarrow> u64"
  si_pton6 :: "string \<Rightarrow> bytes option"

abbreviation MIN_SECM_CMD :: u8 where "MIN_SECM_CMD \<equiv> 239"
abbreviation CMD_SECM_BAN_IP :: u8 where "CMD_SECM_BAN_IP \<equiv> 243"
abbreviation CMD_SECM_STATS :: u8 where "CMD_SECM_STATS \<equiv> 248"
abbreviation MAX_SECM_CMD :: u8 where "MAX_SECM_CMD \<equiv> 251"

definition handle_sec_mod_commands :: "main_server \<Rightarrow> secm_in \<Rightarrow> int \<times> main_server" where
  "handle_sec_mod_commands s m =
     (if \<not> si_pool m then (- 1, s)
      else if si_ret m = - 1 then (ERR_BAD_COMMAND, s)
      else if si_ret m = 0 then (ERR_BAD_COMMAND, s)
      else if si_ret m < 5 \<or> si_cmd m \<le> MIN_SECM_CMD \<or> si_cmd m \<ge> MAX_SECM_CMD then (ERR_BAD_COMMAND, s)
      else if \<not> si_alloc m then (ERR_MEM, s)
      else if \<not> si_read m then (ERR_BAD_COMMAND, s)
      else if si_cmd m = CMD_SECM_BAN_IP then
        (case si_ban m of
           None \<Rightarrow> (ERR_BAD_COMMAND, s)
         | Some (ip, score, rsid) \<Rightarrow>
             (case add_str_ip_to_ban_list (si_hash m) (si_pton6 m) (si_ban_alloc m) (si_now m) (s_ban s) (Some ip) score of
                (ret, ban) \<Rightarrow>
                  (let s = s\<lparr>s_ban := ban\<rparr> in
                   if ret \<ge> 0 then (0, s)
                   else if si_send m < 0 then (ERR_BAD_COMMAND, s)
                   else (0, emit (Secm_Ban_Reply rsid) s))))
      else if si_cmd m = CMD_SECM_STATS then
        (case si_stats m of
           None \<Rightarrow> (ERR_BAD_COMMAND, s)
         | Some msg \<Rightarrow>
             (let st = (s_stats s)\<lparr>st_secmod_client_entries := ss_client_entries msg,
                    st_tlsdb_entries := ss_tlsdb_entries msg, st_max_auth_time := ss_max_auth_time msg,
                    st_avg_auth_time := ss_avg_auth_time msg\<rparr>
              in (0, update_auth_failures (s\<lparr>s_stats := st\<rparr>) (ss_auth_failures msg))))
      else (ERR_BAD_COMMAND, s))"

end
