(* ===== verification/MainUser.thy ===== *)
theory MainUser
  imports MainTypes Str
begin

text \<open>
  The scripts of the main process, \<^verbatim>\<open>src/src/main-user.c\<close> and \<^verbatim>\<open>script-list.h\<close>: the environment that a script
  gets, the choice of the script, and the list of the connect scripts that are running.

  The part of \<^verbatim>\<open>call_script\<close> that runs in the forked child is a computation on the environment, a map
  from names to values: it faults, exits with a code, or goes on. The records of the control socket
  and the utmp entries are left out.
\<close>

section \<open>The computation of the child\<close>

datatype 'a child = Fault | Exits nat | Cont 'a

fun andthen :: "'a child \<Rightarrow> ('a \<Rightarrow> 'b child) \<Rightarrow> 'b child" where
  "andthen Fault f = Fault"
| "andthen (Exits n) f = Exits n"
| "andthen (Cont x) f = f x"

type_synonym environ = "string \<rightharpoonup> string"

text \<open>\<open>ue_nameinfo\<close> is \<^verbatim>\<open>getnameinfo\<close> with \<^verbatim>\<open>NI_NUMERICHOST\<close>; \<open>ue_setenv\<close> tells for which names \<^verbatim>\<open>setenv\<close> finds
  memory, \<open>ue_alloc\<close> and \<open>ue_junk\<close> are the allocations of the string buffers.\<close>

record user_env =
  ue_alloc :: "nat \<Rightarrow> bool"
  ue_junk :: "nat \<Rightarrow> char"
  ue_setenv :: "string \<Rightarrow> bool"
  ue_nameinfo :: "sockaddr \<Rightarrow> nat \<Rightarrow> string option"
  ue_now :: time_t
  ue_fork :: int
  ue_talloc :: bool

definition setenv :: "user_env \<Rightarrow> string \<Rightarrow> string \<Rightarrow> environ \<Rightarrow> environ" where
  "setenv env k v e = (if ue_setenv env k then e(k \<mapsto> v) else e)"

section \<open>Firewall information\<close>

definition append_to_str :: "user_env \<Rightarrow> str_st \<Rightarrow> string \<Rightarrow> str_st child" where
  "append_to_str env b v =
     (case str_append_str (ue_alloc env) (ue_junk env) b (Some v) of
        None \<Rightarrow> Fault
      | Some (ret, b) \<Rightarrow> if ret < 0 then Exits 1 else Cont b)"

text \<open>The three buffers, for IPv4, for IPv6 and for both.\<close>

type_synonym str3 = "str_st \<times> str_st \<times> str_st"

fun append_route :: "user_env \<Rightarrow> string \<Rightarrow> str3 \<Rightarrow> str3 child" where
  "append_route env r (b4, b6, bc) =
     andthen (append_to_str env bc r) (\<lambda>bc.
     andthen (append_to_str env bc '' '') (\<lambda>bc.
     if strchr r (CHR '':'') \<noteq> None then
       andthen (append_to_str env b6 r) (\<lambda>b6.
       andthen (append_to_str env b6 '' '') (\<lambda>b6. Cont (b4, b6, bc)))
     else
       andthen (append_to_str env b4 r) (\<lambda>b4.
       andthen (append_to_str env b4 '' '') (\<lambda>b4. Cont (b4, b6, bc)))))"

fun append_route_list :: "user_env \<Rightarrow> string list \<Rightarrow> str3 \<Rightarrow> str3 child" where
  "append_route_list env [] b = Cont b"
| "append_route_list env (r # rs) b = andthen (append_route env r b) (append_route_list env rs)"

definition export_str :: "user_env \<Rightarrow> string \<Rightarrow> str_st \<Rightarrow> environ \<Rightarrow> environ child" where
  "export_str env name b e =
     (if slen b > 0 then
        if ue_setenv env name then Cont (setenv env name (content b) e) else Exits 1
      else Cont e)"

fun export_str3 :: "user_env \<Rightarrow> string \<Rightarrow> str3 \<Rightarrow> environ \<Rightarrow> environ child" where
  "export_str3 env name (b4, b6, bc) e =
     andthen (export_str env (name @ ''4'') b4 e) (\<lambda>e.
     andthen (export_str env (name @ ''6'') b6 e) (\<lambda>e.
     export_str env name bc e))"

fun reset3 :: "str3 \<Rightarrow> str3" where
  "reset3 (b4, b6, bc) = (str_reset b4, str_reset b6, str_reset bc)"

text \<open>One of the three blocks of the function: routes, no-routes and DNS servers.\<close>

definition export_list :: "user_env \<Rightarrow> string \<Rightarrow> string list \<Rightarrow> str3 \<Rightarrow> environ \<Rightarrow> (str3 \<times> environ) child" where
  "export_list env name rs b e =
     andthen (append_route_list env rs b) (\<lambda>b.
     andthen (export_str3 env name b e) (\<lambda>e. Cont (b, e)))"

definition port_text :: "fw_port \<Rightarrow> string" where
  "port_text f =
     (case fw_protocol f of
        PROTO_UDP \<Rightarrow> ''udp '' @ dec (unat (fw_portno f)) @ '' ''
      | PROTO_TCP \<Rightarrow> ''tcp '' @ dec (unat (fw_portno f)) @ '' ''
      | PROTO_SCTP \<Rightarrow> ''sctp '' @ dec (unat (fw_portno f)) @ '' ''
      | PROTO_ICMP \<Rightarrow> ''icmp all ''
      | PROTO_ESP \<Rightarrow> ''esp all ''
      | PROTO_ICMPv6 \<Rightarrow> ''icmpv6 all '')"

fun append_ports :: "user_env \<Rightarrow> fw_port list \<Rightarrow> str_st \<Rightarrow> bool \<Rightarrow> (str_st \<times> bool) child" where
  "append_ports env [] b negate = Cont (b, negate)"
| "append_ports env (f # fs) b negate =
     (case str_append_printf (ue_alloc env) (ue_junk env) b (Some (port_text f)) of
        None \<Rightarrow> Fault
      | Some (ret, b) \<Rightarrow> if ret < 0 then Exits 1 else append_ports env fs b (negate \<or> fw_negate f))"

definition gc_list :: "string list option \<Rightarrow> string list" where
  "gc_list x = (case x of None \<Rightarrow> [] | Some xs \<Rightarrow> xs)"

definition export_restrict :: "user_env \<Rightarrow> group_cfg \<Rightarrow> environ \<Rightarrow> environ child" where
  "export_restrict env gc e =
     (if gc_restrict_user_to_routes gc = Some True then
        if ue_setenv env ''OCSERV_RESTRICT_TO_ROUTES'' then Cont (setenv env ''OCSERV_RESTRICT_TO_ROUTES'' ''1'' e)
        else Exits 1
      else Cont e)"

definition export_ports :: "user_env \<Rightarrow> group_cfg \<Rightarrow> str_st \<Rightarrow> environ \<Rightarrow> environ child" where
  "export_ports env gc b e =
     andthen (append_ports env (gc_fw_ports gc) b False) (\<lambda>(b, negate).
     export_str env (if negate then ''OCSERV_DENY_PORTS'' else ''OCSERV_ALLOW_PORTS'') b e)"

text \<open>The configuration is \<^verbatim>\<open>NULL\<close> before the login.\<close>

definition export_fw_info :: "user_env \<Rightarrow> proc \<Rightarrow> environ \<Rightarrow> environ child" where
  "export_fw_info env pr e =
     (case p_config pr of
        None \<Rightarrow> Fault
      | Some gc \<Rightarrow>
          andthen (export_list env ''OCSERV_ROUTES'' (gc_list (gc_routes gc)) (str_init, str_init, str_init) e)
            (\<lambda>(b, e).
          andthen (export_list env ''OCSERV_NO_ROUTES'' (gc_list (gc_no_routes gc)) (reset3 b) e) (\<lambda>(b, e).
          andthen (export_restrict env gc e) (\<lambda>e.
          andthen (export_list env ''OCSERV_DNS'' (gc_list (gc_dns gc)) (reset3 b) e) (\<lambda>((b4, b6, bc), e).
          export_ports env gc (str_reset (str_clear bc)) e)))))"

section \<open>The environment of a script\<close>

text \<open>An address that must be printable, with the buffer that receives it.\<close>

definition addr_text :: "user_env \<Rightarrow> sockaddr \<Rightarrow> nat \<Rightarrow> string child" where
  "addr_text env a n = (case ue_nameinfo env a n of None \<Rightarrow> Exits 1 | Some t \<Rightarrow> Cont t)"

definition export_real :: "user_env \<Rightarrow> proc \<Rightarrow> environ \<Rightarrow> environ child" where
  "export_real env pr e =
     andthen
       (if p_remote_addr_len pr > 0 then
          andthen (addr_text env (p_remote_addr pr) (p_remote_addr_len pr)) (\<lambda>real. Cont (setenv env ''IP_REAL'' real e))
        else Cont e) (\<lambda>e.
     Cont (if p_our_addr_len pr > 0 then
             (case ue_nameinfo env (p_our_addr pr) (p_our_addr_len pr) of
                None \<Rightarrow> e | Some real \<Rightarrow> setenv env ''IP_REAL_LOCAL'' real e)
           else e))"

text \<open>The two ends of the tunnel. \<open>buf\<close> is the contents of the buffer \<^verbatim>\<open>local\<close> or \<^verbatim>\<open>remote\<close>, empty at first:
  the IPv6 branch tests it after filling it.\<close>

definition export_ip4 :: "user_env \<Rightarrow> string \<Rightarrow> (sockaddr \<times> nat) option \<Rightarrow> string \<Rightarrow> environ \<Rightarrow> (string \<times> environ) child" where
  "export_ip4 env name a buf e =
     (case a of
        None \<Rightarrow> Cont (buf, e)
      | Some (sa, n) \<Rightarrow>
          if n > 0 then andthen (addr_text env sa n) (\<lambda>buf. Cont (buf, setenv env name buf e)) else Cont (buf, e))"

definition export_ip6 ::
    "user_env \<Rightarrow> string \<Rightarrow> string \<Rightarrow> u32 option \<Rightarrow> (sockaddr \<times> nat) option \<Rightarrow> string \<Rightarrow> environ \<Rightarrow> environ child" where
  "export_ip6 env name name6 pfx a buf e =
     (case a of
        None \<Rightarrow> Cont e
      | Some (sa, n) \<Rightarrow>
          if n > 0 then
            andthen (addr_text env sa n) (\<lambda>buf.
            let e = (if buf = [] then setenv env name buf e else e);
                e = setenv env name6 buf e
            in Cont (case pfx of None \<Rightarrow> e | Some p \<Rightarrow> setenv env ''IPV6_PREFIX'' (dec (unat p)) e))
          else Cont e)"

definition local_end :: "lease \<Rightarrow> sockaddr \<times> nat" where
  "local_end l = (lip l, lip_len l)"

definition remote_end :: "lease \<Rightarrow> sockaddr \<times> nat" where
  "remote_end l = (rip l, rip_len l)"

definition export_tunnel :: "user_env \<Rightarrow> proc \<Rightarrow> environ \<Rightarrow> environ child" where
  "export_tunnel env pr e =
     andthen (export_ip4 env ''IP_LOCAL'' (map_option local_end (p_ipv4 pr)) [] e) (\<lambda>(buf, e).
     andthen (export_ip6 env ''IP_LOCAL'' ''IPV6_LOCAL'' None (map_option local_end (p_ipv6 pr)) buf e) (\<lambda>e.
     andthen (export_ip4 env ''IP_REMOTE'' (map_option remote_end (p_ipv4 pr)) [] e) (\<lambda>(buf, e).
     export_ip6 env ''IP_REMOTE'' ''IPV6_REMOTE'' (map_option lprefix (p_ipv6 pr))
       (map_option remote_end (p_ipv6 pr)) buf e)))"

definition vhost_name :: "main_vhost \<Rightarrow> string" where
  "vhost_name v = (case mv_name v of None \<Rightarrow> ''default'' | Some n \<Rightarrow> n)"

definition export_reason :: "user_env \<Rightarrow> script_type \<Rightarrow> proc \<Rightarrow> environ \<Rightarrow> environ" where
  "export_reason env type pr e =
     (case type of
        SCRIPT_CONNECT \<Rightarrow> setenv env ''REASON'' ''connect'' e
      | SCRIPT_HOST_UPDATE \<Rightarrow> setenv env ''REASON'' ''host-update'' e
      | SCRIPT_DISCONNECT \<Rightarrow>
          (let e = setenv env ''STATS_BYTES_IN'' (dec (unat (p_bytes_in pr))) e;
               e = setenv env ''STATS_BYTES_OUT'' (dec (unat (p_bytes_out pr))) e;
               e = (if p_conn_time pr > 0
                    then setenv env ''STATS_DURATION''
                           (dec (unat (word_of_int (ue_now env - p_conn_time pr) :: u64))) e else e)
           in setenv env ''REASON'' ''disconnect'' e))"

definition export_user :: "user_env \<Rightarrow> main_vhost list \<Rightarrow> proc \<Rightarrow> environ \<Rightarrow> environ" where
  "export_user env vs pr e =
     (let e = (case p_vhost pr of None \<Rightarrow> e | Some i \<Rightarrow> setenv env ''VHOST'' (vhost_name (vs ! i)) e);
          e = setenv env ''USERNAME'' (p_username pr) e;
          e = setenv env ''GROUPNAME'' (p_groupname pr) e;
          e = setenv env ''HOSTNAME'' (p_hostname pr) e
      in setenv env ''DEVICE'' (p_tun_name pr) e)"

text \<open>The child up to its call of \<^verbatim>\<open>execl\<close>: the environment that the script gets.\<close>

definition script_child ::
    "user_env \<Rightarrow> main_vhost list \<Rightarrow> proc \<Rightarrow> script_type \<Rightarrow> string option \<Rightarrow> environ \<Rightarrow> environ child" where
  "script_child env vs pr type next_script e =
     (let e = setenv env ''ID'' (dec (unat (word_of_int (p_pid pr) :: u32))) e in
      andthen (export_real env pr e) (\<lambda>e.
      andthen (export_tunnel env pr e) (\<lambda>e.
      andthen (export_fw_info env pr (export_reason env type pr (export_user env vs pr e))) (\<lambda>e.
      Cont (case next_script of None \<Rightarrow> e | Some n \<Rightarrow> setenv env ''OCSERV_NEXT_SCRIPT'' n e)))))"

section \<open>Running a script\<close>

abbreviation OCSERV_FW_SCRIPT :: string where "OCSERV_FW_SCRIPT \<equiv> ''/usr/bin/ocserv-fw''"

definition configured_script :: "main_cfg \<Rightarrow> script_type \<Rightarrow> string option" where
  "configured_script cf type =
     (case type of
        SCRIPT_CONNECT \<Rightarrow> cf_connect_script cf
      | SCRIPT_HOST_UPDATE \<Rightarrow> cf_host_update_script cf
      | SCRIPT_DISCONNECT \<Rightarrow> cf_disconnect_script cf)"

text \<open>The script and the script it calls in turn; \<^term>\<open>None\<close>: the configuration is missing.\<close>

definition choose_script :: "main_cfg \<Rightarrow> proc \<Rightarrow> script_type \<Rightarrow> (string option \<times> string option) option" where
  "choose_script cf pr type =
     (let script = configured_script cf type in
      if type \<noteq> SCRIPT_HOST_UPDATE then
        (case p_config pr of
           None \<Rightarrow> None
         | Some gc \<Rightarrow>
             if gc_restrict_user_to_routes gc = Some True \<or> gc_fw_ports gc \<noteq> []
             then Some (Some OCSERV_FW_SCRIPT, script) else Some (script, None))
      else Some (script, None))"

definition add_to_script_list :: "user_env \<Rightarrow> main_server \<Rightarrow> int \<Rightarrow> proc_ptr \<Rightarrow> main_server" where
  "add_to_script_list env s pid p =
     (if ue_talloc env then s\<lparr>s_script_list := (pid, p) # s_script_list s\<rparr> else s)"

text \<open>The pid of the script of the process, or \<open>- 1\<close>.\<close>

fun remove_script :: "(int \<times> proc_ptr) list \<Rightarrow> proc_ptr \<Rightarrow> (int \<times> proc_ptr) list \<times> int" where
  "remove_script [] p = ([], - 1)"
| "remove_script ((pid, q) # l) p =
     (if q = p then (l, if pid > 0 then pid else - 1)
      else (case remove_script l p of (l, ret) \<Rightarrow> ((pid, q) # l, ret)))"

definition remove_from_script_list :: "main_server \<Rightarrow> proc_ptr \<Rightarrow> int \<times> main_server" where
  "remove_from_script_list s p =
     (case remove_script (s_script_list s) p of
        (l, ret) \<Rightarrow>
          (ret, (if ret > 0 then emit (Kill ret) else id) (s\<lparr>s_script_list := l\<rparr>)))"

text \<open>The parent's side; \<open>ue_fork\<close> is the pid of the child, or \<open>- 1\<close>.\<close>

definition call_script :: "user_env \<Rightarrow> main_server \<Rightarrow> proc_ptr \<Rightarrow> proc \<Rightarrow> script_type \<Rightarrow> (int \<times> main_server) option" where
  "call_script env s p pr type =
     (case choose_script (getconfig s) pr type of
        None \<Rightarrow> None
      | Some (None, _) \<Rightarrow> Some (0, s)
      | Some (Some script, next_script) \<Rightarrow>
          if ue_fork env = - 1 then Some (- 1, s)
          else
            (let s = emit (Run_Script type p script next_script) s in
             if type = SCRIPT_CONNECT then Some (ERR_WAIT_FOR_SCRIPT, add_to_script_list env s (ue_fork env) p)
             else Some (0, s)))"

definition user_connected :: "user_env \<Rightarrow> main_server \<Rightarrow> proc_ptr \<Rightarrow> proc \<Rightarrow> (int \<times> main_server) option" where
  "user_connected env s p pr =
     (case call_script env s p pr SCRIPT_CONNECT of
        None \<Rightarrow> None
      | Some (ret, s) \<Rightarrow> if ret < 0 then Some (ret, s) else Some (0, s))"

definition user_hostname_update :: "user_env \<Rightarrow> main_server \<Rightarrow> proc_ptr \<Rightarrow> proc \<Rightarrow> (proc \<times> main_server) option" where
  "user_hostname_update env s p pr =
     (if p_host_updated pr then Some (pr, s)
      else
        (case call_script env s p pr SCRIPT_HOST_UPDATE of
           None \<Rightarrow> None
         | Some (_, s) \<Rightarrow> Some (pr\<lparr>p_host_updated := True\<rparr>, s)))"

definition user_disconnected :: "user_env \<Rightarrow> main_server \<Rightarrow> proc_ptr \<Rightarrow> proc \<Rightarrow> main_server option" where
  "user_disconnected env s p pr = map_option snd (call_script env s p pr SCRIPT_DISCONNECT)"

section \<open>What the firewall script sees\<close>

definition spaced :: "string list \<Rightarrow> string" where
  "spaced rs = concat (map (\<lambda>r. r @ '' '') rs)"

definition is6 :: "string \<Rightarrow> bool" where
  "is6 r \<longleftrightarrow> strchr r (CHR '':'') \<noteq> None"

definition set_nonempty :: "string \<Rightarrow> string \<Rightarrow> environ \<Rightarrow> environ" where
  "set_nonempty k v e = (if v = [] then e else e(k \<mapsto> v))"

definition list_vars :: "string \<Rightarrow> string list \<Rightarrow> environ \<Rightarrow> environ" where
  "list_vars name rs e =
     set_nonempty name (spaced rs)
       (set_nonempty (name @ ''6'') (spaced (filter is6 rs))
         (set_nonempty (name @ ''4'') (spaced (filter (Not \<circ> is6) rs)) e))"

definition port_vars :: "fw_port list \<Rightarrow> environ \<Rightarrow> environ" where
  "port_vars fs e =
     set_nonempty (if list_ex fw_negate fs then ''OCSERV_DENY_PORTS'' else ''OCSERV_ALLOW_PORTS'')
       (concat (map port_text fs)) e"

definition fw_vars :: "group_cfg \<Rightarrow> environ \<Rightarrow> environ" where
  "fw_vars gc e =
     (let e = list_vars ''OCSERV_ROUTES'' (gc_list (gc_routes gc)) e;
          e = list_vars ''OCSERV_NO_ROUTES'' (gc_list (gc_no_routes gc)) e;
          e = (if gc_restrict_user_to_routes gc = Some True then e(''OCSERV_RESTRICT_TO_ROUTES'' \<mapsto> ''1'') else e);
          e = list_vars ''OCSERV_DNS'' (gc_list (gc_dns gc)) e
      in port_vars (gc_fw_ports gc) e)"

text \<open>Memory is available, and the texts fit into an \<^verbatim>\<open>int\<close>.\<close>

definition user_env_ok :: "user_env \<Rightarrow> bool" where
  "user_env_ok env \<longleftrightarrow> ue_alloc env = (\<lambda>_. True) \<and> ue_setenv env = (\<lambda>_. True)"

definition fits :: "string \<Rightarrow> bool" where
  "fits v \<longleftrightarrow> length v + 2 < 2 ^ 31"

definition holds3 :: "str3 \<Rightarrow> string \<Rightarrow> string \<Rightarrow> string \<Rightarrow> bool" where
  "holds3 b c4 c6 cc \<longleftrightarrow>
     (case b of (b4, b6, bc) \<Rightarrow> str_ok b4 \<and> content b4 = c4 \<and> str_ok b6 \<and> content b6 = c6 \<and> str_ok bc \<and> content bc = cc)"

lemma append_to_str_ok:
  assumes "user_env_ok env" and "str_ok b" and "fits (content b @ v)"
  shows "\<exists>b'. append_to_str env b v = Cont b' \<and> str_ok b' \<and> content b' = content b @ v"
proof -
  have "slen b + length v + 2 < 2 ^ 31" using assms(3) length_content [OF assms(2)] by (simp add: fits_def)
  from str_append_str_ok [OF assms(2) this, of "ue_alloc env" "ue_junk env"] show ?thesis
    using assms(1) by (auto simp: appended_def append_to_str_def user_env_ok_def)
qed

lemma fits_append: "fits (x @ y) \<Longrightarrow> fits x"
  by (simp add: fits_def)

lemma append_spaced_ok:
  assumes "user_env_ok env" and "str_ok b" and "fits (content b @ v @ '' '')"
  shows "\<exists>b1 b2. append_to_str env b v = Cont b1 \<and> append_to_str env b1 '' '' = Cont b2 \<and> str_ok b2 \<and>
    content b2 = content b @ v @ '' ''"
proof -
  have "fits (content b @ v)" using assms(3) by (simp add: fits_def)
  then obtain b1 where b1: "append_to_str env b v = Cont b1" "str_ok b1" "content b1 = content b @ v"
    using append_to_str_ok [OF assms(1,2)] by blast
  then have "fits (content b1 @ '' '')" using assms(3) by simp
  then show ?thesis using append_to_str_ok [OF assms(1) b1(2)] b1 by fastforce
qed

lemma append_route_ok:
  assumes "user_env_ok env" and "holds3 b c4 c6 cc" and "fits (cc @ r @ '' '')"
    and "if is6 r then fits (c6 @ r @ '' '') else fits (c4 @ r @ '' '')"
  shows "\<exists>b'. append_route env r b = Cont b' \<and>
    (if is6 r then holds3 b' c4 (c6 @ r @ '' '') (cc @ r @ '' '') else holds3 b' (c4 @ r @ '' '') c6 (cc @ r @ '' ''))"
proof -
  obtain b4 b6 bc where b: "b = (b4, b6, bc)" by (cases b)
  note h = assms(2) [unfolded b holds3_def, simplified]
  obtain x1 x2 where x: "append_to_str env bc r = Cont x1" "append_to_str env x1 '' '' = Cont x2" "str_ok x2"
    "content x2 = cc @ r @ '' ''"
    using append_spaced_ok [OF assms(1), of bc r] h assms(3) by auto
  show ?thesis
  proof (cases "is6 r")
    case True
    then obtain y1 y2 where "append_to_str env b6 r = Cont y1" "append_to_str env y1 '' '' = Cont y2" "str_ok y2"
      "content y2 = c6 @ r @ '' ''"
      using append_spaced_ok [OF assms(1), of b6 r] h assms(4) by auto
    then show ?thesis using True x h by (auto simp: b is6_def holds3_def)
  next
    case False
    then obtain y1 y2 where "append_to_str env b4 r = Cont y1" "append_to_str env y1 '' '' = Cont y2" "str_ok y2"
      "content y2 = c4 @ r @ '' ''"
      using append_spaced_ok [OF assms(1), of b4 r] h assms(4) by auto
    then show ?thesis using False x h by (auto simp: b is6_def holds3_def)
  qed
qed

lemma append_route_list_ok:
  assumes "user_env_ok env" and "holds3 b c4 c6 cc"
    and "fits (cc @ spaced rs)" and "fits (c6 @ spaced (filter is6 rs))" and "fits (c4 @ spaced (filter (Not \<circ> is6) rs))"
  shows "\<exists>b'. append_route_list env rs b = Cont b' \<and>
    holds3 b' (c4 @ spaced (filter (Not \<circ> is6) rs)) (c6 @ spaced (filter is6 rs)) (cc @ spaced rs)"
  using assms(2-)
proof (induction rs arbitrary: b c4 c6 cc)
  case (Cons r rs)
  have f: "fits (cc @ r @ '' '')" "if is6 r then fits (c6 @ r @ '' '') else fits (c4 @ r @ '' '')"
    using Cons.prems(2-4) by (auto simp: fits_def spaced_def split: if_splits)
  obtain b1 where b1: "append_route env r b = Cont b1"
    "if is6 r then holds3 b1 c4 (c6 @ r @ '' '') (cc @ r @ '' '') else holds3 b1 (c4 @ r @ '' '') c6 (cc @ r @ '' '')"
    using append_route_ok [OF assms(1) Cons.prems(1) f] by auto
  show ?case
  proof (cases "is6 r")
    case True
    then show ?thesis
      using Cons.IH [of b1 c4 "c6 @ r @ '' ''" "cc @ r @ '' ''"] b1 Cons.prems(2-4) by (simp add: spaced_def)
  next
    case False
    then show ?thesis
      using Cons.IH [of b1 "c4 @ r @ '' ''" c6 "cc @ r @ '' ''"] b1 Cons.prems(2-4) by (simp add: spaced_def)
  qed
qed (simp add: spaced_def)

lemma export_str_ok:
  "user_env_ok env \<Longrightarrow> str_ok b \<Longrightarrow> export_str env name b e = Cont (set_nonempty name (content b) e)"
  using length_content [of b] by (auto simp: export_str_def user_env_ok_def setenv_def set_nonempty_def)

lemma spaced_filter_le: "length (spaced (filter P rs)) \<le> length (spaced rs)"
  by (induction rs) (auto simp: spaced_def)

lemma export_list_ok:
  assumes "user_env_ok env" and "holds3 b [] [] []" and "fits (spaced rs)"
  shows "\<exists>b'. export_list env name rs b e = Cont (b', list_vars name rs e) \<and> (\<exists>x y z. holds3 b' x y z)"
proof -
  have "fits (spaced (filter is6 rs))" "fits (spaced (filter (Not \<circ> is6) rs))"
    using assms(3) spaced_filter_le [of is6 rs] spaced_filter_le [of "Not \<circ> is6" rs] by (simp_all add: fits_def)
  then obtain b' where b': "append_route_list env rs b = Cont b'"
    "holds3 b' (spaced (filter (Not \<circ> is6) rs)) (spaced (filter is6 rs)) (spaced rs)"
    using append_route_list_ok [OF assms(1,2), of rs] assms(3) by auto
  obtain b4 b6 bc where b: "b' = (b4, b6, bc)" by (cases b')
  show ?thesis
    using b' assms(1) unfolding b holds3_def
    by (auto simp: export_list_def export_str_ok list_vars_def b holds3_def)
qed

lemma holds3_reset: "holds3 b x y z \<Longrightarrow> holds3 (reset3 b) [] [] []"
  by (cases b) (auto simp: holds3_def str_ok_reset)

lemma append_ports_ok:
  assumes "user_env_ok env" and "str_ok b" and "fits (content b @ concat (map port_text fs))"
  shows "\<exists>b'. append_ports env fs b n = Cont (b', n \<or> list_ex fw_negate fs) \<and> str_ok b' \<and>
    content b' = content b @ concat (map port_text fs)"
  using assms(2,3)
proof (induction fs arbitrary: b n)
  case (Cons f fs)
  have "fits (content b @ port_text f)" using Cons.prems(2) by (simp add: fits_def)
  then obtain b1 where "append_to_str env b (port_text f) = Cont b1" "str_ok b1" "content b1 = content b @ port_text f"
    using append_to_str_ok [OF assms(1) Cons.prems(1)] by blast
  then have b1: "str_append_printf (ue_alloc env) (ue_junk env) b (Some (port_text f)) = Some (0, b1) \<or>
      (\<exists>r. r \<ge> 0 \<and> str_append_printf (ue_alloc env) (ue_junk env) b (Some (port_text f)) = Some (r, b1))"
    "str_ok b1" "content b1 = content b @ port_text f"
    by (auto simp: append_to_str_def str_append_printf_def split: option.splits if_splits)
  have "fits (content b1 @ concat (map port_text fs))" using Cons.prems(2) b1(3) by simp
  from Cons.IH [OF b1(2) this, of "n \<or> fw_negate f"] show ?case
    using b1 by auto
qed simp

lemma str_ok_clear [simp]: "str_ok (str_clear b) \<longleftrightarrow> str_ok b \<or> allocd b \<noteq> None"
  by (cases "allocd b") (simp_all add: str_ok_def str_clear_def)

lemma export_ports_ok:
  assumes "user_env_ok env" and "str_ok b" and "content b = []" and "fits (concat (map port_text (gc_fw_ports gc)))"
  shows "export_ports env gc b e = Cont (port_vars (gc_fw_ports gc) e)"
proof -
  obtain b' where "append_ports env (gc_fw_ports gc) b False = Cont (b', list_ex fw_negate (gc_fw_ports gc))"
    "str_ok b'" "content b' = concat (map port_text (gc_fw_ports gc))"
    using append_ports_ok [OF assms(1,2), of "gc_fw_ports gc" False] assms(3,4) by auto
  then show ?thesis using assms(1) by (simp add: export_ports_def export_str_ok port_vars_def)
qed

text \<open>C35. The script that enforces a user's restrictions sees exactly the configuration of the session:
  for routes, excluded routes and DNS servers three variables with the IPv4 entries, the IPv6 entries
  and all of them, each entry followed by a blank and in the order of the configuration; the flag
  that restricts the user to these routes; and the ports under \<^verbatim>\<open>OCSERV_DENY_PORTS\<close> when one of them is
  negated and under \<^verbatim>\<open>OCSERV_ALLOW_PORTS\<close> otherwise. An empty list leaves its variables alone. The
  string buffers that are reused between the lists never mix two of them.\<close>

theorem firewall_environment:
  assumes "user_env_ok env" and "p_config pr = Some gc"
    and "fits (spaced (gc_list (gc_routes gc)))" and "fits (spaced (gc_list (gc_no_routes gc)))"
    and "fits (spaced (gc_list (gc_dns gc)))" and "fits (concat (map port_text (gc_fw_ports gc)))"
  shows "export_fw_info env pr e = Cont (fw_vars gc e)"
proof -
  let ?e1 = "list_vars ''OCSERV_ROUTES'' (gc_list (gc_routes gc)) e"
  let ?e2 = "list_vars ''OCSERV_NO_ROUTES'' (gc_list (gc_no_routes gc)) ?e1"
  let ?e3 = "if gc_restrict_user_to_routes gc = Some True then ?e2(''OCSERV_RESTRICT_TO_ROUTES'' \<mapsto> ''1'') else ?e2"
  have "holds3 (str_init, str_init, str_init) [] [] []" by (simp add: holds3_def)
  then obtain b1 x1 y1 z1 where 1: "holds3 b1 x1 y1 z1"
    "export_list env ''OCSERV_ROUTES'' (gc_list (gc_routes gc)) (str_init, str_init, str_init) e = Cont (b1, ?e1)"
    using export_list_ok [OF assms(1) _ assms(3)] by blast
  then obtain b2 x2 y2 z2 where 2: "holds3 b2 x2 y2 z2"
    "export_list env ''OCSERV_NO_ROUTES'' (gc_list (gc_no_routes gc)) (reset3 b1) ?e1 = Cont (b2, ?e2)"
    using export_list_ok [OF assms(1) holds3_reset assms(4)] by blast
  then obtain b3 x3 y3 z3 where 3: "holds3 b3 x3 y3 z3"
    "export_list env ''OCSERV_DNS'' (gc_list (gc_dns gc)) (reset3 b2) ?e3 =
       Cont (b3, list_vars ''OCSERV_DNS'' (gc_list (gc_dns gc)) ?e3)"
    using export_list_ok [OF assms(1) holds3_reset assms(5)] by blast
  obtain b4 b6 bc where b: "b3 = (b4, b6, bc)" by (cases b3)
  have "str_ok (str_reset (str_clear bc))" using 3(1) by (simp add: b holds3_def str_ok_reset)
  then have "export_ports env gc (str_reset (str_clear bc)) x = Cont (port_vars (gc_fw_ports gc) x)" for x
    using assms(1,6) by (simp add: export_ports_ok)
  moreover have "export_restrict env gc ?e2 = Cont ?e3"
    using assms(1) by (simp add: export_restrict_def user_env_ok_def setenv_def)
  ultimately show ?thesis
    using 1 2 3 assms(2) by (simp add: export_fw_info_def fw_vars_def Let_def b)
qed

definition demo_user_env :: user_env where
  "demo_user_env = \<lparr>ue_alloc = (\<lambda>_. True), ue_junk = (\<lambda>_. CHR 0xFF), ue_setenv = (\<lambda>_. True),
     ue_nameinfo = (\<lambda>_ _. Some ''fd00::5''), ue_now = 0, ue_fork = 200, ue_talloc = True\<rparr>"

theorem firewall_environment_witness:
  "export_fw_info demo_user_env (demo_proc\<lparr>p_config := Some (demo_gc\<lparr>gc_routes := Some [''10.0.0.0/8'', ''fd00::/8''],
     gc_restrict_user_to_routes := Some True, gc_fw_ports :=
       [\<lparr>fw_portno = 443, fw_protocol = PROTO_TCP, fw_negate = True\<rparr>]\<rparr>)\<rparr>) Map.empty =
   Cont [''OCSERV_ROUTES4'' \<mapsto> ''10.0.0.0/8 '', ''OCSERV_ROUTES6'' \<mapsto> ''fd00::/8 '',
     ''OCSERV_ROUTES'' \<mapsto> ''10.0.0.0/8 fd00::/8 '', ''OCSERV_RESTRICT_TO_ROUTES'' \<mapsto> ''1'',
     ''OCSERV_DENY_PORTS'' \<mapsto> ''tcp 443 '']"
proof -
  let ?gc = "demo_gc\<lparr>gc_routes := Some [''10.0.0.0/8'', ''fd00::/8''], gc_restrict_user_to_routes := Some True,
    gc_fw_ports := [\<lparr>fw_portno = 443, fw_protocol = PROTO_TCP, fw_negate = True\<rparr>]\<rparr>"
  have d: "dec 443 = ''443''" by code_simp
  have "export_fw_info demo_user_env (demo_proc\<lparr>p_config := Some ?gc\<rparr>) Map.empty = Cont (fw_vars ?gc Map.empty)"
    by (rule firewall_environment)
      (simp_all add: user_env_ok_def demo_user_env_def fits_def spaced_def gc_list_def demo_gc_def port_text_def d)
  also have "fw_vars ?gc Map.empty = [''OCSERV_ROUTES4'' \<mapsto> ''10.0.0.0/8 '', ''OCSERV_ROUTES6'' \<mapsto> ''fd00::/8 '',
     ''OCSERV_ROUTES'' \<mapsto> ''10.0.0.0/8 fd00::/8 '', ''OCSERV_RESTRICT_TO_ROUTES'' \<mapsto> ''1'',
     ''OCSERV_DENY_PORTS'' \<mapsto> ''tcp 443 '']"
    by (simp add: fw_vars_def list_vars_def set_nonempty_def spaced_def is6_def gc_list_def demo_gc_def port_vars_def
        port_text_def d)
  finally show ?thesis .
qed

section \<open>Clients with an IPv6 address only\<close>

text \<open>A client without an IPv4 address leaves \<^verbatim>\<open>IP_LOCAL\<close> and \<^verbatim>\<open>IP_REMOTE\<close> as they were: the branches that
  would set them to the IPv6 addresses test the buffer after \<^verbatim>\<open>getnameinfo\<close> filled it, and the text of
  an address is not empty. Only \<^verbatim>\<open>IPV6_LOCAL\<close>, \<^verbatim>\<open>IPV6_REMOTE\<close> and \<^verbatim>\<open>IPV6_PREFIX\<close> are set.\<close>

theorem ipv6_only_environment:
  assumes "user_env_ok env" and "p_ipv4 pr = None" and "p_ipv6 pr = Some l" and "lip_len l > 0" and "rip_len l > 0"
    and "ue_nameinfo env (lip l) (lip_len l) = Some ltext" and "ltext \<noteq> []"
    and "ue_nameinfo env (rip l) (rip_len l) = Some rtext" and "rtext \<noteq> []"
  shows "export_tunnel env pr e =
    Cont (e(''IPV6_LOCAL'' \<mapsto> ltext, ''IPV6_REMOTE'' \<mapsto> rtext, ''IPV6_PREFIX'' \<mapsto> dec (unat (lprefix l))))"
  using assms
  by (simp add: export_tunnel_def export_ip4_def export_ip6_def local_end_def remote_end_def addr_text_def
      user_env_ok_def setenv_def Let_def)

definition demo_lease_v6 :: lease where
  "demo_lease_v6 = \<lparr>sig = zero_ss, rip = zero_ss, rip_len = 28, lip = zero_ss, lip_len = 28, lprefix = 128,
     in_db = True, destr = True\<rparr>"

theorem ipv6_only_environment_witness:
  "export_tunnel demo_user_env (demo_proc\<lparr>p_ipv6 := Some demo_lease_v6\<rparr>) Map.empty =
   Cont [''IPV6_LOCAL'' \<mapsto> ''fd00::5'', ''IPV6_REMOTE'' \<mapsto> ''fd00::5'', ''IPV6_PREFIX'' \<mapsto> dec (unat (lprefix demo_lease_v6))]"
  by (rule ipv6_only_environment)
    (simp_all add: demo_user_env_def user_env_ok_def demo_proc_def demo_lease_v6_def)

end
