(* ===== verification/MainServer.thy ===== *)
theory MainServer
  imports IpLease ProcSearch RouteAdd MainSession MainUser
begin

text \<open>
  The client processes in the main process: their creation and removal (\<^verbatim>\<open>src/src/main-proc.c\<close>), the
  login with a cookie (\<^verbatim>\<open>main-auth.c\<close>), the commands of a worker (\<^verbatim>\<open>main-worker-cmd.c\<close>), the tunnel device
  (\<^verbatim>\<open>tun.c\<close>) and the callbacks of the event loop (\<^verbatim>\<open>main.c\<close>).

  A handler ends with a result, or the whole process exits, follows a null pointer (\<open>Crash\<close>) or does
  not return (\<open>Hang\<close>). The object of the process is fetched from the heap by the callbacks, handed
  from function to function, and stored where the code looks processes up.
\<close>

section \<open>Outcomes\<close>

datatype 'a outcome = Done 'a | Main_Exit nat | Crash | Hang

fun bind_out :: "'a outcome \<Rightarrow> ('a \<Rightarrow> 'b outcome) \<Rightarrow> 'b outcome" where
  "bind_out (Done x) f = f x"
| "bind_out (Main_Exit n) f = Main_Exit n"
| "bind_out Crash f = Crash"
| "bind_out Hang f = Hang"

definition or_crash :: "'a option \<Rightarrow> 'a outcome" where
  "or_crash x = (case x of None \<Rightarrow> Crash | Some y \<Rightarrow> Done y)"

definition or_hang :: "'a option \<Rightarrow> 'a outcome" where
  "or_hang x = (case x of None \<Rightarrow> Hang | Some y \<Rightarrow> Done y)"

lemma bind_out_Done: "bind_out m f = Done y \<longleftrightarrow> (\<exists>x. m = Done x \<and> f x = Done y)"
  by (cases m) simp_all

lemma or_Done [simp]: "or_crash x = Done y \<longleftrightarrow> x = Some y" "or_hang x = Done y \<longleftrightarrow> x = Some y"
  by (simp_all add: or_crash_def or_hang_def split: option.split)

section \<open>Environment\<close>

text \<open>What the handlers get from outside: the answers of the security module, the outcome of commands,
  scripts, allocations and system calls. \<open>me_tun\<close> is the descriptor that \<^verbatim>\<open>os_open_tun\<close> returns, negative
  on failure, and the device name it leaves; \<open>me_wait\<close> the status of the connect script from \<^verbatim>\<open>waitpid\<close>.\<close>

record main_env =
  me_session :: session_env
  me_route :: route_env
  me_user :: user_env
  me_lease :: lease_env
  me_table :: table_env
  me_rnd :: "bytes option"
  me_send :: "main_out \<Rightarrow> int"
  me_cgroup :: "string \<Rightarrow> bool"
  me_tun :: "int \<times> string"
  me_sock4 :: bool
  me_addr4 :: bool
  me_addr6 :: int
  me_mtu_sock :: bool
  me_mtu :: bool
  me_wait :: "int option"
  me_talloc :: bool
  me_ban_alloc :: ban_alloc
  me_pton6 :: "string \<Rightarrow> bytes option"

abbreviation me_hash :: "main_env \<Rightarrow> bytes \<Rightarrow> u64" where
  "me_hash env \<equiv> te_hash (me_table env)"

definition send_to_worker :: "main_env \<Rightarrow> main_out \<Rightarrow> main_server \<Rightarrow> int \<times> main_server" where
  "send_to_worker env x s = (me_send env x, if me_send env x \<ge> 0 then emit x s else s)"

section \<open>Control groups\<close>

text \<open>\<^verbatim>\<open>strtok_r\<close> with one separator: the nonempty pieces.\<close>

function tokens :: "char \<Rightarrow> string \<Rightarrow> string list" where
  "tokens c s =
     (let s = dropWhile (\<lambda>x. x = c) s
      in if s = [] then [] else takeWhile (\<lambda>x. x \<noteq> c) s # tokens c (dropWhile (\<lambda>x. x \<noteq> c) s))"
  by pat_completeness auto
termination
proof (relation "measure (\<lambda>(c, s). length s)", simp)
  fix c and s t :: string
  assume t: "t = dropWhile (\<lambda>x. x = c) s" and ne: "t \<noteq> []"
  have "hd t \<noteq> c" using hd_dropWhile [of "\<lambda>x. x = c" s] t ne by simp
  then have "length (dropWhile (\<lambda>x. x \<noteq> c) t) < length t"
    using ne by (cases t) (auto intro: le_less_trans [OF length_dropWhile_le])
  also have "length t \<le> length s" using t length_dropWhile_le by blast
  finally show "((c, dropWhile (\<lambda>x. x \<noteq> c) t), c, s) \<in> measure (\<lambda>(c, s). length s)" by simp
qed

declare tokens.simps [simp del]

definition cgroup_file :: "string \<Rightarrow> string \<Rightarrow> string" where
  "cgroup_file p name = take 255 (''/sys/fs/cgroup/'' @ p @ ''/'' @ name @ ''/tasks'')"

text \<open>The loop stops at the first file that cannot be opened.\<close>

fun cgroup_loop :: "main_env \<Rightarrow> main_server \<Rightarrow> string \<Rightarrow> int \<Rightarrow> string list \<Rightarrow> main_server" where
  "cgroup_loop env s name pid [] = s"
| "cgroup_loop env s name pid (p # ps) =
     (if me_cgroup env (cgroup_file p name)
      then cgroup_loop env (emit (Cgroup_Write (cgroup_file p name) pid) s) name pid ps else s)"

definition put_into_cgroup :: "main_env \<Rightarrow> main_server \<Rightarrow> string option \<Rightarrow> int \<Rightarrow> main_server" where
  "put_into_cgroup env s cg pid =
     (case cg of
        None \<Rightarrow> s
      | Some cg \<Rightarrow>
          (let cgroup = strlcpy 128 cg in
           case strchr cgroup (CHR '':'') of
             None \<Rightarrow> s
           | Some name \<Rightarrow>
               cgroup_loop env s (tl name) pid (tokens (CHR '','') (take (length cgroup - length name) cgroup))))"

section \<open>Creation of a process\<close>

definition fresh_proc :: "time_t \<Rightarrow> int \<Rightarrow> int \<Rightarrow> sockaddr \<Rightarrow> nat \<Rightarrow> sockaddr \<Rightarrow> nat \<Rightarrow> proc" where
  "fresh_proc t pid fd raddr rlen oaddr olen =
     \<lparr>p_fd = fd, p_pid = pid, p_pid_killed = False, p_conn_time = t, p_tun_name = '''', p_tun_fd = - 1,
      p_ipv4 = None, p_ipv6 = None, p_remote_addr = blit 0 (take rlen raddr) zero_ss, p_remote_addr_len = rlen,
      p_dtls_remote_addr = zero_ss, p_dtls_remote_addr_len = 0, p_our_addr = blit 0 (take olen oaddr) zero_ss,
      p_our_addr_len = olen, p_sid = replicate SID_SIZE 0, p_active_sid = False, p_host_updated = False,
      p_dtls_session_id = [], p_username = '''', p_groupname = '''', p_hostname = '''', p_user_agent = '''',
      p_tls_ciphersuite = '''', p_dtls_ciphersuite = '''', p_cstp_compr = '''', p_dtls_compr = '''', p_mtu = 0,
      p_ipv4_seed = replicate 4 0, p_status = PS_AUTH_INACTIVE, p_bytes_in = 0, p_bytes_out = 0, p_discon_reason = 0,
      p_udp_fd_receive_time = 0, p_applied_iroutes = False, p_config = None, p_counted = False, p_vhost = None\<rparr>"

text \<open>The pointer is the one that the allocator gives.\<close>

definition new_proc ::
    "main_env \<Rightarrow> main_server \<Rightarrow> proc_ptr \<Rightarrow> int \<Rightarrow> int \<Rightarrow> sockaddr \<Rightarrow> nat \<Rightarrow> sockaddr \<Rightarrow> nat \<Rightarrow> main_server option" where
  "new_proc env s p pid fd raddr rlen oaddr olen =
     (if \<not> me_talloc env then None
      else
        (let s = put_proc p (fresh_proc (se_now (me_session env)) pid fd raddr rlen oaddr olen) s;
             s = s\<lparr>s_proc_list := p # s_proc_list s\<rparr>;
             s = put_into_cgroup env s (cf_cgroup (getconfig s)) pid
         in Some (s\<lparr>s_stats := (s_stats s)\<lparr>st_active_clients := st_active_clients (s_stats s) + 1\<rparr>\<rparr>)))"

section \<open>Removal of a process\<close>

definition WEXITSTATUS :: "int \<Rightarrow> int" where
  "WEXITSTATUS st = (st div 256) mod 256"

definition kill_worker :: "proc \<Rightarrow> main_server \<Rightarrow> main_server" where
  "kill_worker pr s = (if p_pid pr \<noteq> - 1 \<and> p_pid pr \<noteq> 0 then emit (Kill (p_pid pr)) s else s)"

definition close_pending :: "main_env \<Rightarrow> bool \<Rightarrow> main_server \<Rightarrow> proc \<Rightarrow> (proc \<times> main_server) outcome" where
  "close_pending env quit s pr =
     (if p_active_sid pr \<and> \<not> quit then
        bind_out (or_crash (session_close (me_session env) s pr))
          (\<lambda>(ret, pr, s). if ret < 0 then Main_Exit 1 else Done (pr, s))
      else Done (pr, s))"

definition run_disconnect :: "main_env \<Rightarrow> main_server \<Rightarrow> proc_ptr \<Rightarrow> proc \<Rightarrow> main_server outcome" where
  "run_disconnect env s p pr =
     (case remove_from_script_list s p of
        (pid, s) \<Rightarrow>
          if p_status pr = PS_AUTH_COMPLETED \<or> pid > 0 then
            if pid > 0 then
              (case me_wait env of
                 None \<Rightarrow> Done s
               | Some st \<Rightarrow>
                   if WEXITSTATUS st = 0 then or_crash (user_disconnected (me_user env) s p pr) else Done s)
            else or_crash (user_disconnected (me_user env) s p pr)
          else Done s)"

definition close_tun :: "main_server \<Rightarrow> proc \<Rightarrow> proc \<times> main_server" where
  "close_tun s pr =
     (if p_tun_fd pr \<ge> 0 then (pr\<lparr>p_tun_fd := - 1\<rparr>, emit (Close_Fd (p_tun_fd pr)) s) else (pr, s))"

definition release_config :: "main_server \<Rightarrow> proc \<Rightarrow> main_server" where
  "release_config s pr =
     (case p_vhost pr of
        Some i \<Rightarrow>
          if p_counted pr \<and> cf_usage_count (mv_config (s_vconfig s ! i)) > 0 then use_config i (- 1) s else s
      | None \<Rightarrow> s)"

text \<open>The end of the function, from the descriptor on.\<close>

definition release_proc :: "main_env \<Rightarrow> main_server \<Rightarrow> proc_ptr \<Rightarrow> proc \<Rightarrow> main_server outcome" where
  "release_proc env s p pr =
     (let s = (if p_fd pr \<ge> 0 then emit (Close_Fd (p_fd pr)) s else s);
          pr = pr\<lparr>p_fd := - 1, p_pid := - 1\<rparr>
      in bind_out (or_hang (remove_iroutes (me_route env) s pr)) (\<lambda>(pr, s).
         let (db, pr) = (if p_ipv4 pr \<noteq> None \<or> p_ipv6 pr \<noteq> None
                         then remove_ip_leases (le_hash (me_lease env)) (s_ip_leases s) pr
                         else (s_ip_leases s, pr));
             s = s\<lparr>s_ip_leases := db\<rparr>;
             (pr, s) = close_tun s pr;
             s = release_config (proc_table_del (me_hash env) s p pr) pr
         in Done (s\<lparr>s_heap := (s_heap s)(p := None)\<rparr>)))"

definition remove_proc :: "main_env \<Rightarrow> main_server \<Rightarrow> proc_ptr \<Rightarrow> proc \<Rightarrow> bool \<Rightarrow> bool \<Rightarrow> main_server outcome" where
  "remove_proc env s p pr kill quit =
     (let s = s\<lparr>s_proc_list := remove1 p (s_proc_list s),
                s_stats := (s_stats s)\<lparr>st_active_clients := st_active_clients (s_stats s) - 1\<rparr>\<rparr>;
          s = (if kill then kill_worker pr s else s)
      in bind_out (close_pending env quit s pr) (\<lambda>(pr, s).
         bind_out (run_disconnect env s p pr) (\<lambda>s.
         release_proc env s p pr)))"

definition kill_proc :: "proc \<Rightarrow> main_server \<Rightarrow> proc \<times> main_server" where
  "kill_proc pr s = (pr\<lparr>p_pid_killed := True\<rparr>, emit (Kill (p_pid pr)) s)"

definition terminate_proc :: "main_env \<Rightarrow> main_server \<Rightarrow> proc_ptr \<Rightarrow> proc \<Rightarrow> main_server outcome" where
  "terminate_proc env s p pr =
     (if p_pid pr \<noteq> - 1 \<and> p_pid pr \<noteq> 0 then Done (emit (Kill (p_pid pr)) s) else remove_proc env s p pr True False)"

section \<open>Login with a cookie\<close>

definition addr_or_null :: "main_env \<Rightarrow> sockaddr \<Rightarrow> nat \<Rightarrow> string option" where
  "addr_or_null env a n = map_option fst (human_addr2 (se_ntop6 (me_session env)) a n MAX_IP_STR False)"

definition lease_addrs :: "main_env \<Rightarrow> lease option \<Rightarrow> string option \<times> string option" where
  "lease_addrs env l =
     (case l of
        None \<Rightarrow> (None, None)
      | Some l \<Rightarrow> if rip_len l > 0 then (addr_or_null env (rip l) (rip_len l), addr_or_null env (lip l) (lip_len l))
                 else (None, None))"

definition cookie_reply_of :: "main_env \<Rightarrow> proc \<Rightarrow> cookie_reply" where
  "cookie_reply_of env pr =
     \<lparr>ck_session_id = p_dtls_session_id pr, ck_sid = p_sid pr, ck_vname = p_tun_name pr, ck_user_name = p_username pr,
      ck_group_name = p_groupname pr, ck_ipv4 = fst (lease_addrs env (p_ipv4 pr)),
      ck_ipv4_local = snd (lease_addrs env (p_ipv4 pr)), ck_ipv6 = fst (lease_addrs env (p_ipv6 pr)),
      ck_ipv6_local = snd (lease_addrs env (p_ipv6 pr)), ck_config = p_config pr\<rparr>"

definition send_cookie_auth_reply :: "main_env \<Rightarrow> main_server \<Rightarrow> proc_ptr \<Rightarrow> proc \<Rightarrow> bool \<Rightarrow> int \<times> main_server" where
  "send_cookie_auth_reply env s p pr rep_ok =
     (case send_to_worker env
             (if rep_ok \<and> p_tun_name pr \<noteq> [] then Cookie_Ok p (p_tun_fd pr) (cookie_reply_of env pr)
              else Cookie_Failed p) s of
        (ret, s) \<Rightarrow> (if ret < 0 then ret else 0, s))"

text \<open>The previous process of the session gives up its addresses and is killed. The two objects are
  different; \<open>pr\<close> is the new one.\<close>

definition take_over :: "main_server \<Rightarrow> proc_ptr \<Rightarrow> proc \<Rightarrow> proc \<Rightarrow> proc \<times> main_server" where
  "take_over s q old pr =
     (case steal_ip_leases old pr of
        (old, pr) \<Rightarrow>
          (case (if p_pid old > 0 then kill_proc old s else (old, s)) of
             (old, s) \<Rightarrow> (pr, put_proc q old s)))"

definition enter_tables :: "main_env \<Rightarrow> main_server \<Rightarrow> proc_ptr \<Rightarrow> proc \<Rightarrow> bytes \<Rightarrow> int \<times> proc \<times> main_server" where
  "enter_tables env s p pr cookie =
     (let pr = pr\<lparr>p_sid := cookie, p_active_sid := True\<rparr>;
          (ret, s) = proc_table_add (me_table env) (put_proc p pr s) p pr
      in (if ret < 0 then - 1 else 0, pr, s))"

definition join_session ::
    "main_env \<Rightarrow> main_server \<Rightarrow> proc_ptr \<Rightarrow> proc \<Rightarrow> bytes \<Rightarrow> (int \<times> proc \<times> main_server) outcome" where
  "join_session env s p pr cookie =
     (case proc_search_sid (me_hash env) s cookie of
        None \<Rightarrow> Done (enter_tables env s p pr cookie)
      | Some q \<Rightarrow>
          bind_out (or_crash (s_heap s q)) (\<lambda>old.
          if p_username pr \<noteq> p_username old then Done (- 1, pr, s)
          else (case take_over s q old pr of (pr, s) \<Rightarrow> Done (enter_tables env s p pr cookie))))"

definition handle_auth_cookie_req ::
    "main_env \<Rightarrow> main_server \<Rightarrow> proc_ptr \<Rightarrow> proc \<Rightarrow> bytes \<Rightarrow> (int \<times> proc \<times> main_server) outcome" where
  "handle_auth_cookie_req env s p pr cookie =
     (if length cookie \<noteq> SID_SIZE then Done (- 1, pr, s)
      else
        (case me_rnd env of
           None \<Rightarrow> Done (- 1, pr, s)
         | Some rnd \<Rightarrow>
             bind_out (or_crash (session_open (me_session env) s (pr\<lparr>p_dtls_session_id := rnd\<rparr>) (Some cookie)))
               (\<lambda>(ret, pr, s).
             if ret < 0 then Done (- 1, pr, s)
             else
               bind_out (or_crash (p_config pr)) (\<lambda>gc.
               let s = (if gc_cgroup gc \<noteq> None then put_into_cgroup env s (gc_cgroup gc) (p_pid pr) else s)
               in join_session env (put_proc p pr s) p pr cookie))))"

text \<open>The number of other live processes of the same user decides; \<open>entries\<close> counts them and this one.\<close>

fun count_users :: "main_server \<Rightarrow> proc_ptr \<Rightarrow> string \<Rightarrow> u32 \<Rightarrow> u32 \<Rightarrow> proc_ptr list \<Rightarrow> int outcome" where
  "count_users s p user mx entries [] = Done 0"
| "count_users s p user mx entries (q # qs) =
     bind_out (or_crash (s_heap s q)) (\<lambda>c.
     if q \<noteq> p \<and> p_pid c \<noteq> - 1 \<and> \<not> p_pid_killed c \<and> user = p_username c then
       if entries + 1 > mx then Done (- 1) else count_users s p user mx (entries + 1) qs
     else count_users s p user mx entries qs)"

definition opt_u32 :: "u32 option \<Rightarrow> u32" where
  "opt_u32 x = (case x of None \<Rightarrow> 0 | Some v \<Rightarrow> v)"

definition check_multiple_users :: "main_server \<Rightarrow> proc_ptr \<Rightarrow> proc \<Rightarrow> int outcome" where
  "check_multiple_users s p pr =
     bind_out (or_crash (p_config pr)) (\<lambda>gc.
     let mx = opt_u32 (gc_max_same_clients gc) in
     if mx = 0 then Done 0 else count_users s p (p_username pr) mx 1 (s_proc_list s))"

section \<open>The tunnel device\<close>

definition drop_ipv6 :: "main_env \<Rightarrow> main_server \<Rightarrow> proc \<Rightarrow> proc \<times> main_server" where
  "drop_ipv6 env s pr =
     (case p_ipv6 pr of
        None \<Rightarrow> (pr, s)
      | Some l \<Rightarrow>
          if lip_len l > 0 \<and> rip_len l > 0 \<and> me_addr6 env < 0
          then (pr\<lparr>p_ipv6 := None\<rparr>, s\<lparr>s_ip_leases := remove_ip_lease (le_hash (me_lease env)) (s_ip_leases s) l\<rparr>)
          else (pr, s))"

definition set_network_info :: "main_env \<Rightarrow> main_server \<Rightarrow> proc \<Rightarrow> int \<times> proc \<times> main_server" where
  "set_network_info env s pr =
     (let has4 = (case p_ipv4 pr of None \<Rightarrow> False | Some l \<Rightarrow> lip_len l > 0 \<and> rip_len l > 0) in
      if has4 \<and> \<not> me_sock4 env then (- 1, pr, s)
      else if has4 \<and> \<not> me_addr4 env then (- 1, pr, s)
      else
        (let (pr, s) = drop_ipv6 env s pr
         in if p_ipv6 pr = None \<and> p_ipv4 pr = None then (- 1, pr, s) else (0, pr, s)))"

definition proc_network :: "main_server \<Rightarrow> proc \<Rightarrow> vpn_net option" where
  "proc_network s pr = map_option (\<lambda>i. cf_network (mv_config (s_vconfig s ! i))) (p_vhost pr)"

definition open_tun :: "main_env \<Rightarrow> main_server \<Rightarrow> proc \<Rightarrow> (int \<times> proc \<times> main_server) outcome" where
  "open_tun env s pr =
     bind_out (or_crash (p_config pr)) (\<lambda>gc.
     bind_out (or_crash (proc_network s pr)) (\<lambda>net.
     let (ret, db, pr) = get_ip_leases (me_lease env) gc net (s_ip_leases s) pr;
         s = s\<lparr>s_ip_leases := db\<rparr>
     in if ret < 0 then Done (ret, pr, s)
        else
          (let (fd, name) = me_tun env; pr = pr\<lparr>p_tun_name := name\<rparr> in
           if fd < 0 then Done (- 1, pr, s)
           else if name = [] then Done (- 1, pr, emit (Close_Fd fd) s)
           else
             (let (ret, pr, s) = set_network_info env s pr in
              if ret < 0 then Done (- 1, pr, emit (Close_Fd fd) s)
              else Done (0, pr\<lparr>p_tun_fd := fd\<rparr>, s)))))"

section \<open>Commands of a worker\<close>

definition handle_script_exit ::
    "main_env \<Rightarrow> main_server \<Rightarrow> proc_ptr \<Rightarrow> proc \<Rightarrow> int \<Rightarrow> (int \<times> proc \<times> main_server) outcome" where
  "handle_script_exit env s p pr code =
     bind_out
       (if code = 0 then
          (case send_cookie_auth_reply env s p pr True of
             (ret, s) \<Rightarrow>
               if ret < 0 then Done (ERR_BAD_COMMAND, pr, s)
               else
                 bind_out (or_crash (p_config pr)) (\<lambda>gc.
                 bind_out (or_hang (apply_iroutes (me_route env) s pr gc)) (\<lambda>(ret, pr, s).
                 if ret < 0 then Done (ERR_BAD_COMMAND, pr, s)
                 else Done (0, pr\<lparr>p_status := PS_AUTH_COMPLETED\<rparr>, s))))
        else
          (case send_cookie_auth_reply env s p pr False of
             (ret, s) \<Rightarrow> Done (if ret < 0 then ERR_BAD_COMMAND else 0, pr, s)))
       (\<lambda>(ret, pr, s). case close_tun s pr of (pr, s) \<Rightarrow> Done (ret, pr\<lparr>p_tun_fd := - 1\<rparr>, s))"

definition accept_user ::
    "main_env \<Rightarrow> main_server \<Rightarrow> proc_ptr \<Rightarrow> proc \<Rightarrow> bool \<Rightarrow> (int \<times> proc \<times> main_server) outcome" where
  "accept_user env s p pr is_cookie =
     bind_out (check_multiple_users s p pr) (\<lambda>ret.
     if ret < 0 then Done (ret, pr, s)
     else
       bind_out (open_tun env s pr) (\<lambda>(ret, pr, s).
       if ret < 0 then Done (- 1, pr, s)
       else if \<not> is_cookie then Done (ERR_BAD_COMMAND, pr, s)
       else bind_out (or_crash (user_connected (me_user env) s p pr)) (\<lambda>(ret, s). Done (ret, pr, s))))"

definition handle_cookie_auth_res ::
    "main_env \<Rightarrow> main_server \<Rightarrow> proc_ptr \<Rightarrow> proc \<Rightarrow> bool \<Rightarrow> int \<Rightarrow> (int \<times> proc \<times> main_server) outcome" where
  "handle_cookie_auth_res env s p pr is_cookie result =
     bind_out
       (if result = 0 then
          bind_out (accept_user env s p pr is_cookie) (\<lambda>(ret, pr, s).
          Done (ret, pr\<lparr>p_status := (if ret < 0 then PS_AUTH_FAILED else PS_AUTH_COMPLETED)\<rparr>, s))
        else Done (if result < 0 then result else ERR_BAD_COMMAND, pr\<lparr>p_status := PS_AUTH_FAILED\<rparr>, s))
       (\<lambda>(ret, pr, s).
     if ret = ERR_WAIT_FOR_SCRIPT then Done (0, pr, s)
     else
       bind_out (handle_script_exit env s p pr ret) (\<lambda>(ret, pr, s).
       Done (ret, if ret < 0 then pr\<lparr>p_status := PS_AUTH_FAILED\<rparr> else pr, s)))"

record session_info =
  in_tls_ciphersuite :: "string option"
  in_dtls_ciphersuite :: "string option"
  in_cstp_compr :: "string option"
  in_dtls_compr :: "string option"
  in_user_agent :: "string option"
  in_device_type :: "string option"
  in_hostname :: "string option"
  in_remote_addr :: "bytes option"
  in_our_addr :: "bytes option"

text \<open>A command with its decoded payload, \<^term>\<open>None\<close> when the payload cannot be decoded; and what arrives
  on the socket of a worker.\<close>

datatype worker_cmd =
  CMD_BAN_IP "(string \<times> u32) option"
| CMD_TUN_MTU "u32 option"
| CMD_SESSION_INFO "session_info option"
| AUTH_COOKIE_REQ "bytes option"
| CMD_OTHER

datatype worker_in = No_Header int | No_Memory | Short_Payload | Message worker_cmd

definition set_tun_mtu :: "main_env \<Rightarrow> proc \<Rightarrow> u32 \<Rightarrow> int \<times> proc" where
  "set_tun_mtu env pr mtu =
     (if p_tun_name pr = [] then (- 1, pr)
      else if \<not> me_mtu_sock env then (- 1, pr)
      else if \<not> me_mtu env then (- 1, pr)
      else (0, pr\<lparr>p_mtu := mtu\<rparr>))"

definition ban_ip_cmd :: "main_env \<Rightarrow> main_server \<Rightarrow> proc_ptr \<Rightarrow> string \<Rightarrow> u32 \<Rightarrow> int \<times> main_server" where
  "ban_ip_cmd env s p ip score =
     (case add_str_ip_to_ban_list (me_hash env) (me_pton6 env) (me_ban_alloc env) (se_now (me_session env)) (s_ban s)
             (Some ip) score of
        (ret, ban) \<Rightarrow>
          (case send_to_worker env (Ban_Reply p (ret \<ge> 0)) (s\<lparr>s_ban := ban\<rparr>) of
             (ret, s) \<Rightarrow> (if ret < 0 then ERR_BAD_COMMAND else 0, s)))"

definition copy_info :: "session_info \<Rightarrow> proc \<Rightarrow> proc" where
  "copy_info m pr =
     pr\<lparr>p_tls_ciphersuite := opt_copy 64 (in_tls_ciphersuite m) (p_tls_ciphersuite pr),
        p_dtls_ciphersuite := opt_copy 64 (in_dtls_ciphersuite m) (p_dtls_ciphersuite pr),
        p_cstp_compr := opt_copy 8 (in_cstp_compr m) (p_cstp_compr pr),
        p_dtls_compr := opt_copy 8 (in_dtls_compr m) (p_dtls_compr pr),
        p_user_agent :=
          (case (in_user_agent m, in_device_type m) of
             (Some u, None) \<Rightarrow> strlcpy 64 u
           | (Some u, Some d) \<Rightarrow> take 63 (u @ '' / '' @ d)
           | (None, _) \<Rightarrow> p_user_agent pr)\<rparr>"

definition info_hostname ::
    "main_env \<Rightarrow> main_server \<Rightarrow> proc_ptr \<Rightarrow> proc \<Rightarrow> session_info \<Rightarrow> (proc \<times> main_server) outcome" where
  "info_hostname env s p pr m =
     (case in_hostname m of
        None \<Rightarrow> Done (pr, s)
      | Some h \<Rightarrow> or_crash (user_hostname_update (me_user env) s p (pr\<lparr>p_hostname := strlcpy MAX_USERNAME_SIZE h\<rparr>)))"

text \<open>The address that a proxy reported; the object is read back after \<open>proc_table_update_ip\<close> stored it.\<close>

definition info_remote_addr ::
    "main_env \<Rightarrow> main_server \<Rightarrow> proc_ptr \<Rightarrow> proc \<Rightarrow> session_info \<Rightarrow> (proc \<times> main_server) outcome" where
  "info_remote_addr env s p pr m =
     (case in_remote_addr m of
        None \<Rightarrow> Done (pr, s)
      | Some a \<Rightarrow>
          if length a \<le> 128 then
            bind_out (or_crash (proc_table_update_ip (me_table env) (put_proc p pr s) p pr a)) (\<lambda>(_, s).
            bind_out (or_crash (s_heap s p)) (\<lambda>pr.
            case check_if_banned (me_hash env) (me_ban_alloc env) (se_now (me_session env)) (se_now (me_session env))
                   (s_ban s) (p_remote_addr pr) (p_remote_addr_len pr) of
              (banned, ban) \<Rightarrow>
                (let s = s\<lparr>s_ban := ban\<rparr>
                 in Done (if banned \<noteq> 0 \<and> p_pid pr \<noteq> - 1 \<and> p_pid pr \<noteq> 0 then kill_proc pr s else (pr, s)))))
          else Done (pr, s))"

definition info_our_addr :: "session_info \<Rightarrow> proc \<Rightarrow> proc" where
  "info_our_addr m pr =
     (case in_our_addr m of
        Some a \<Rightarrow>
          if length a \<le> 128 \<and> length a > 0
          then pr\<lparr>p_our_addr := blit 0 a (p_our_addr pr), p_our_addr_len := length a\<rparr> else pr
      | None \<Rightarrow> pr)"

definition session_info_cmd ::
    "main_env \<Rightarrow> main_server \<Rightarrow> proc_ptr \<Rightarrow> proc \<Rightarrow> session_info \<Rightarrow> (proc \<times> main_server) outcome" where
  "session_info_cmd env s p pr m =
     bind_out (info_hostname env s p (copy_info m pr) m) (\<lambda>(pr, s).
     if cf_listen_proxy_proto (getconfig s) then
       bind_out (info_remote_addr env s p pr m) (\<lambda>(pr, s). Done (info_our_addr m pr, s))
     else Done (pr, s))"

definition cookie_cmd ::
    "main_env \<Rightarrow> main_server \<Rightarrow> proc_ptr \<Rightarrow> proc \<Rightarrow> bytes \<Rightarrow> (int \<times> proc \<times> main_server) outcome" where
  "cookie_cmd env s p pr cookie =
     bind_out (handle_auth_cookie_req env s p pr cookie) (\<lambda>(ret, pr, s).
     handle_cookie_auth_res env s p pr True ret)"

definition handle_worker_commands ::
    "main_env \<Rightarrow> main_server \<Rightarrow> proc_ptr \<Rightarrow> proc \<Rightarrow> worker_in \<Rightarrow> (int \<times> proc \<times> main_server) outcome" where
  "handle_worker_commands env s p pr inp =
     (case inp of
        No_Header e \<Rightarrow> Done (e, pr, s)
      | No_Memory \<Rightarrow> Done (ERR_MEM, pr, s)
      | Short_Payload \<Rightarrow> Done (ERR_BAD_COMMAND, pr, s)
      | Message cmd \<Rightarrow>
          (case cmd of
             CMD_BAN_IP m \<Rightarrow>
               (case m of
                  None \<Rightarrow> Done (ERR_BAD_COMMAND, pr, s)
                | Some (ip, score) \<Rightarrow> (case ban_ip_cmd env s p ip score of (ret, s) \<Rightarrow> Done (ret, pr, s)))
           | CMD_TUN_MTU m \<Rightarrow>
               if p_status pr \<noteq> PS_AUTH_COMPLETED then Done (ERR_BAD_COMMAND, pr, s)
               else
                 (case m of
                    None \<Rightarrow> Done (ERR_BAD_COMMAND, pr, s)
                  | Some mtu \<Rightarrow> Done (0, snd (set_tun_mtu env pr mtu), s))
           | CMD_SESSION_INFO m \<Rightarrow>
               (case m of
                  None \<Rightarrow> Done (ERR_BAD_COMMAND, pr, s)
                | Some m \<Rightarrow> bind_out (session_info_cmd env s p pr m) (\<lambda>(pr, s). Done (0, pr, s)))
           | AUTH_COOKIE_REQ m \<Rightarrow>
               if p_status pr \<noteq> PS_AUTH_INACTIVE then Done (ERR_BAD_COMMAND, pr, s)
               else
                 (case m of
                    None \<Rightarrow> Done (ERR_BAD_COMMAND, pr, s)
                  | Some cookie \<Rightarrow> cookie_cmd env s p pr cookie)
           | CMD_OTHER \<Rightarrow> Done (ERR_BAD_COMMAND, pr, s)))"

section \<open>The event loop\<close>

definition cmd_watcher_cb :: "main_env \<Rightarrow> main_server \<Rightarrow> proc_ptr \<Rightarrow> worker_in \<Rightarrow> main_server outcome" where
  "cmd_watcher_cb env s p inp =
     bind_out (or_crash (s_heap s p)) (\<lambda>pr.
     bind_out (handle_worker_commands env s p pr inp) (\<lambda>(ret, pr, s).
     let s = put_proc p pr s in
     if ret < 0 then remove_proc env s p pr (ret \<noteq> ERR_PEER_TERMINATED) False else Done s))"

text \<open>The entry of the script is taken off the list before the handler runs. The status of a script that
  a signal ended is 1.\<close>

definition script_child_watcher_cb :: "main_env \<Rightarrow> main_server \<Rightarrow> int \<Rightarrow> proc_ptr \<Rightarrow> int \<Rightarrow> main_server outcome" where
  "script_child_watcher_cb env s pid p estatus =
     (let s = s\<lparr>s_script_list := remove1 (pid, p) (s_script_list s)\<rparr> in
      bind_out (or_crash (s_heap s p)) (\<lambda>pr.
      bind_out (handle_script_exit env s p pr estatus) (\<lambda>(ret, pr, s).
      let s = put_proc p pr s in
      if ret < 0 then remove_proc env s p pr True False else Done s)))"

fun kill_children_loop :: "main_env \<Rightarrow> main_server \<Rightarrow> proc_ptr list \<Rightarrow> main_server outcome" where
  "kill_children_loop env s [] = Done s"
| "kill_children_loop env s (p # ps) =
     bind_out (or_crash (s_heap s p)) (\<lambda>pr.
     bind_out (if p_pid pr \<noteq> - 1 then remove_proc env s p pr True True else Done s) (\<lambda>s.
     kill_children_loop env s ps))"

definition kill_children :: "main_env \<Rightarrow> main_server \<Rightarrow> int \<Rightarrow> main_server outcome" where
  "kill_children env s sec_mod_pid =
     bind_out (kill_children_loop env s (s_proc_list s)) (\<lambda>s. Done (emit (Kill sec_mod_pid) s))"

end
