(* ===== verification/MainInv.thy ===== *)
theory MainInv
  imports MainServer
begin

text \<open>
  The invariant of the main process, and that every handler keeps it and never follows a bad pointer.

  \<open>post b m Q\<close> is a Hoare triple for a handler: when it ends its result satisfies \<open>Q\<close>, and it does not
  crash provided \<open>b\<close> holds. The flag \<open>b\<close> collects what must be assumed of the environment for that:
  memory for the arrays of routes, and addresses from a worker that are as long as their family says.
\<close>

section \<open>Triples\<close>

definition post :: "bool \<Rightarrow> 'a outcome \<Rightarrow> ('a \<Rightarrow> bool) \<Rightarrow> bool" where
  "post b m Q \<longleftrightarrow> (case m of Done x \<Rightarrow> Q x | Crash \<Rightarrow> \<not> b | _ \<Rightarrow> True)"

lemma post_Done [simp]: "post b (Done x) Q \<longleftrightarrow> Q x"
  and post_Exit [simp]: "post b (Main_Exit n) Q"
  by (simp_all add: post_def)

lemma post_bind: "post b m P \<Longrightarrow> (\<And>x. P x \<Longrightarrow> post b (f x) Q) \<Longrightarrow> post b (bind_out m f) Q"
  by (cases m) (simp_all add: post_def)

lemma post_mono: "post b m P \<Longrightarrow> (\<And>x. P x \<Longrightarrow> Q x) \<Longrightarrow> post b m Q"
  by (cases m) (simp_all add: post_def)

lemma post_crash: "(\<And>x. m = Some x \<Longrightarrow> Q x) \<Longrightarrow> (b \<Longrightarrow> m \<noteq> None) \<Longrightarrow> post b (or_crash m) Q"
  by (cases m) (auto simp: or_crash_def post_def)

lemma post_hang: "(\<And>x. m = Some x \<Longrightarrow> Q x) \<Longrightarrow> post b (or_hang m) Q"
  by (cases m) (auto simp: or_hang_def post_def)

lemma post_DoneD: "post b m Q \<Longrightarrow> m = Done x \<Longrightarrow> Q x"
  and post_no_crash: "post True m Q \<Longrightarrow> m \<noteq> Crash"
  by (auto simp: post_def)

section \<open>The invariant\<close>

definition script_procs :: "main_server \<Rightarrow> proc_ptr set" where
  "script_procs s = snd ` set (s_script_list s)"

text \<open>A process has a worker. A process before its login has no addresses and is in no table; a process with a session or a
  configuration knows its virtual host; one that is logged in, or whose connect script is running,
  has a configuration.\<close>

definition proc_wf :: "main_server \<Rightarrow> proc_ptr \<Rightarrow> proc \<Rightarrow> bool" where
  "proc_wf s p pr \<longleftrightarrow>
     length (p_ipv4_seed pr) = 4 \<and> length (p_sid pr) = SID_SIZE \<and> p_pid pr \<noteq> - 1 \<and>
     (p_status pr = PS_AUTH_INACTIVE \<longrightarrow> idle pr \<and> p \<notin> all_ptrs s \<and> p \<notin> script_procs s) \<and>
     (p_active_sid pr \<or> p_config pr \<noteq> None \<longrightarrow> p_vhost pr \<noteq> None) \<and>
     (\<forall>i. p_vhost pr = Some i \<longrightarrow> i < length (s_vconfig s)) \<and>
     (p_status pr = PS_AUTH_COMPLETED \<or> p \<in> script_procs s \<longrightarrow> p_config pr \<noteq> None)"

text \<open>The configurations up to their usage counts, which are all that the handlers change of them.\<close>

definition strip_use :: "main_vhost \<Rightarrow> main_vhost" where
  "strip_use v = v\<lparr>mv_config := (mv_config v)\<lparr>cf_usage_count := 0\<rparr>\<rparr>"

definition cfg_of :: "main_server \<Rightarrow> main_vhost list" where
  "cfg_of s = map strip_use (s_vconfig s)"

definition max_clients_of :: "main_vhost list \<Rightarrow> u32" where
  "max_clients_of vs = cf_max_clients (mv_config (last vs))"

text \<open>The count of the clients is that of the processes, modulo the width of the counter, and within
  the limit when there is one.\<close>

definition count_ok :: "main_server \<Rightarrow> bool" where
  "count_ok s \<longleftrightarrow> st_active_clients (s_stats s) = of_nat (length (s_proc_list s)) \<and>
     (max_clients_of (cfg_of s) > 0 \<longrightarrow> length (s_proc_list s) \<le> unat (max_clients_of (cfg_of s)))"

definition main_inv :: "(bytes \<Rightarrow> u64) \<Rightarrow> (bytes \<Rightarrow> u64) \<Rightarrow> main_server \<Rightarrow> bool" where
  "main_inv H L s \<longleftrightarrow>
     tables_ok H s \<and> lease_inv L (s_ip_leases s) (s_heap s) \<and>
     distinct (s_proc_list s) \<and> set (s_proc_list s) = dom (s_heap s) \<and>
     distinct (map snd (s_script_list s)) \<and> script_procs s \<subseteq> dom (s_heap s) \<and> s_vconfig s \<noteq> [] \<and> count_ok s \<and>
     (\<forall>p pr. s_heap s p = Some pr \<longrightarrow> proc_wf s p pr)"

text \<open>The state with the object of \<open>p\<close> stored.\<close>

definition inv_at :: "(bytes \<Rightarrow> u64) \<Rightarrow> (bytes \<Rightarrow> u64) \<Rightarrow> main_server \<Rightarrow> proc_ptr \<Rightarrow> proc \<Rightarrow> bool" where
  "inv_at H L s p pr \<longleftrightarrow> main_inv H L (put_proc p pr s)"

definition env_ok :: "(bytes \<Rightarrow> u64) \<Rightarrow> (bytes \<Rightarrow> u64) \<Rightarrow> main_env \<Rightarrow> bool" where
  "env_ok H L env \<longleftrightarrow> me_hash env = H \<and> le_hash (me_lease env) = L \<and> lease_env_ok (me_lease env)"

text \<open>What most operations leave alone.\<close>

definition links_eq :: "main_server \<Rightarrow> main_server \<Rightarrow> bool" where
  "links_eq s s' \<longleftrightarrow> s_heap s' = s_heap s \<and> s_ip_leases s' = s_ip_leases s \<and> s_proc_list s' = s_proc_list s \<and>
     s_script_list s' = s_script_list s \<and> s_db_ip s' = s_db_ip s \<and> s_db_dtls_ip s' = s_db_dtls_ip s \<and>
     s_db_dtls_id s' = s_db_dtls_id s \<and> s_db_sid s' = s_db_sid s \<and> length (s_vconfig s') = length (s_vconfig s) \<and>
     cfg_of s' = cfg_of s \<and> st_active_clients (s_stats s') = st_active_clients (s_stats s)"

definition core_eq :: "proc \<Rightarrow> proc \<Rightarrow> bool" where
  "core_eq pr pr' \<longleftrightarrow> p_pid pr' = p_pid pr \<and> p_ipv4 pr' = p_ipv4 pr \<and> p_ipv6 pr' = p_ipv6 pr \<and> p_remote_addr pr' = p_remote_addr pr \<and>
     p_remote_addr_len pr' = p_remote_addr_len pr \<and> p_dtls_remote_addr pr' = p_dtls_remote_addr pr \<and>
     p_dtls_remote_addr_len pr' = p_dtls_remote_addr_len pr \<and> p_sid pr' = p_sid pr \<and>
     p_dtls_session_id pr' = p_dtls_session_id pr \<and> p_ipv4_seed pr' = p_ipv4_seed pr \<and> p_status pr' = p_status pr \<and>
     p_active_sid pr' = p_active_sid pr \<and> p_config pr' = p_config pr \<and> p_vhost pr' = p_vhost pr"

lemma links_refl [simp]: "links_eq s s" and core_refl [simp]: "core_eq pr pr"
  by (simp_all add: links_eq_def core_eq_def)

lemma links_trans: "links_eq a b \<Longrightarrow> links_eq b c \<Longrightarrow> links_eq a c"
  by (simp add: links_eq_def)

lemma cfg_of_simps [simp]: "cfg_of (emits xs s) = cfg_of s" "cfg_of (put_proc p pr s) = cfg_of s"
  "cfg_of (s\<lparr>s_stats := st\<rparr>) = cfg_of s" "cfg_of (s\<lparr>s_ban := bn\<rparr>) = cfg_of s" "cfg_of (s\<lparr>s_heap := h\<rparr>) = cfg_of s"
  "cfg_of (s\<lparr>s_out := os\<rparr>) = cfg_of s"
  "cfg_of (s\<lparr>s_proc_list := ps\<rparr>) = cfg_of s" "cfg_of (s\<lparr>s_script_list := ls\<rparr>) = cfg_of s" "cfg_of (s\<lparr>s_ip_leases := db\<rparr>) = cfg_of s"
  by (simp_all add: cfg_of_def emits_def)

lemma cfg_of_vconfig: "s_vconfig s' = s_vconfig s \<Longrightarrow> cfg_of s' = cfg_of s"
  by (simp add: cfg_of_def)

lemma getconfig_cfg:
  assumes "s_vconfig s \<noteq> []"
  shows "(getconfig s)\<lparr>cf_usage_count := 0\<rparr> = mv_config (last (cfg_of s))"
  using assms by (simp add: getconfig_def cfg_of_def last_map strip_use_def)

lemma count_ok_cong:
  "s_proc_list s' = s_proc_list s \<Longrightarrow> cfg_of s' = cfg_of s \<Longrightarrow>
   st_active_clients (s_stats s') = st_active_clients (s_stats s) \<Longrightarrow> count_ok s' = count_ok s"
  by (simp add: count_ok_def)

lemma count_ok_simps [simp]: "count_ok (put_proc p pr s) = count_ok s" "count_ok (s\<lparr>s_ip_leases := db\<rparr>) = count_ok s"
  "count_ok (s\<lparr>s_script_list := ls\<rparr>) = count_ok s"
  by (simp_all add: count_ok_def)

lemma links_emit [simp]: "links_eq s (emit x s)" "links_eq s (emits xs s)"
  "links_eq s (s\<lparr>s_stats := st\<rparr>) \<longleftrightarrow> st_active_clients st = st_active_clients (s_stats s)" "links_eq s (s\<lparr>s_ban := bn\<rparr>)"
  by (auto simp: links_eq_def emits_def)

lemma rest_count: "same_rest s s' \<Longrightarrow> count_ok s' = count_ok s"
  by (rule count_ok_cong) (simp_all add: same_rest_def cfg_of_def)

lemma links_count: "links_eq s s' \<Longrightarrow> count_ok s' = count_ok s"
  by (rule count_ok_cong) (simp_all add: links_eq_def)

lemma all_ptrs_put [simp]: "all_ptrs (put_proc p pr s) = all_ptrs s" "main_ptrs (put_proc p pr s) = main_ptrs s"
  "script_procs (put_proc p pr s) = script_procs s"
  by (simp_all add: all_ptrs_def main_ptrs_def script_procs_def)

lemma links_ptrs: "links_eq s s' \<Longrightarrow> all_ptrs s' = all_ptrs s \<and> script_procs s' = script_procs s"
  by (simp add: links_eq_def all_ptrs_def main_ptrs_def script_procs_def)

lemma put_put [simp]: "put_proc p pr' (put_proc p pr s) = put_proc p pr' s"
  by (simp add: put_proc_def)

lemma main_inv_put: "s_heap s p = Some pr \<Longrightarrow> inv_at H L s p pr \<longleftrightarrow> main_inv H L s"
  by (simp add: inv_at_def put_proc_def fun_upd_idem)

lemma inv_at_put [simp]: "inv_at H L (put_proc p x s) p pr \<longleftrightarrow> inv_at H L s p pr"
  by (simp add: inv_at_def)

lemma inv_at_main: "inv_at H L s p pr \<Longrightarrow> main_inv H L (put_proc p pr s)"
  by (simp add: inv_at_def)

section \<open>Frame rules\<close>

lemma proc_wf_put [simp]: "proc_wf (put_proc q x s) p pr \<longleftrightarrow> proc_wf s p pr"
  by (simp add: proc_wf_def)

lemma proc_wf_links: "links_eq s s' \<Longrightarrow> proc_wf s' p pr \<longleftrightarrow> proc_wf s p pr"
  using links_ptrs [of s s'] by (simp add: proc_wf_def links_eq_def)

definition keys_eq :: "proc \<Rightarrow> proc \<Rightarrow> bool" where
  "keys_eq pr pr' \<longleftrightarrow> p_remote_addr pr' = p_remote_addr pr \<and> p_remote_addr_len pr' = p_remote_addr_len pr \<and>
     p_dtls_remote_addr pr' = p_dtls_remote_addr pr \<and> p_dtls_remote_addr_len pr' = p_dtls_remote_addr_len pr \<and>
     p_sid pr' = p_sid pr \<and> p_dtls_session_id pr' = p_dtls_session_id pr"

lemma keys_eq_rehash:
  "keys_eq pr pr' \<Longrightarrow> rehash_ip H pr' = rehash_ip H pr \<and> rehash_dtls_ip H pr' = rehash_dtls_ip H pr \<and>
     rehash_dtls_id H pr' = rehash_dtls_id H pr \<and> rehash_sid H pr' = rehash_sid H pr"
  by (simp add: keys_eq_def rehash_ip_def rehash_dtls_ip_def rehash_dtls_id_def rehash_sid_def)

lemma tables_ok_upd:
  assumes "tables_ok H s" and "s_heap s p = Some pr" and "p \<in> all_ptrs s \<Longrightarrow> keys_eq pr pr'"
  shows "tables_ok H (put_proc p pr' s)"
proof -
  have k: "p \<in> all_ptrs s \<Longrightarrow> rehash_ip H pr' = rehash_ip H pr \<and> rehash_dtls_ip H pr' = rehash_dtls_ip H pr \<and>
     rehash_dtls_id H pr' = rehash_dtls_id H pr \<and> rehash_sid H pr' = rehash_sid H pr"
    using assms(3) keys_eq_rehash by blast
  have m: "p \<in> all_ptrs s" if "p \<in> ptrs (s_db_ip s) \<or> p \<in> ptrs (s_db_dtls_ip s) \<or> p \<in> ptrs (s_db_dtls_id s) \<or> p \<in> ptrs (s_db_sid s)"
    using that by (auto simp: all_ptrs_def main_ptrs_def)
  have "\<exists>qr. ((s_heap s)(p \<mapsto> pr')) q = Some qr \<and> p_dtls_remote_addr_len qr \<noteq> 0" if "q \<in> ptrs (s_db_dtls_ip s)" for q
  proof (cases "q = p")
    case True
    then show ?thesis using assms that m by (force simp: tables_ok_def keys_eq_def)
  next
    case False
    then show ?thesis using assms(1) that by (simp add: tables_ok_def)
  qed
  then show ?thesis
    using assms(1,2) k m unfolding tables_ok_def by (auto intro!: tbl_ok_upd)
qed

lemma tables_ok_links: "links_eq s s' \<Longrightarrow> tables_ok H s' \<longleftrightarrow> tables_ok H s"
  by (simp add: tables_ok_def links_eq_def)

lemma inv_at_update:
  assumes inv: "inv_at H L s p pr" and l: "links_eq s s'" and "p_ipv4 pr' = p_ipv4 pr" and "p_ipv6 pr' = p_ipv6 pr"
    and k: "p \<in> all_ptrs s \<Longrightarrow> keys_eq pr pr'" and wf: "proc_wf s p pr'"
  shows "inv_at H L s' p pr'"
proof -
  note I = inv [unfolded inv_at_def main_inv_def]
  have t: "tables_ok H (put_proc p pr' (put_proc p pr s))"
    using I k tables_ok_upd [of H "put_proc p pr s" p pr pr'] by simp
  have s': "links_eq (put_proc p pr' s) (put_proc p pr' s')" using l by (simp add: links_eq_def)
  have "lease_inv L (s_ip_leases s) ((s_heap s)(p \<mapsto> pr, p \<mapsto> pr'))"
    using I assms(3,4) lease_inv_frame [of L "s_ip_leases s" "(s_heap s)(p \<mapsto> pr)" p pr pr'] by simp
  moreover have "tables_ok H (put_proc p pr' s')" using t tables_ok_links [OF s', of H] by simp
  moreover have "proc_wf (put_proc p pr' s') q qr" if "s_heap (put_proc p pr' s') q = Some qr" for q qr
    using that I wf l by (cases "q = p") (auto simp: links_eq_def proc_wf_links [OF l])
  ultimately show ?thesis
    using I l links_ptrs [OF l] links_count [OF l] by (auto simp: inv_at_def main_inv_def links_eq_def)
qed

lemma core_wf: "core_eq pr pr' \<Longrightarrow> proc_wf s p pr' \<longleftrightarrow> proc_wf s p pr"
  by (simp add: core_eq_def proc_wf_def idle_def)

lemma inv_at_wf: "inv_at H L s p pr \<Longrightarrow> proc_wf s p pr"
  by (simp add: inv_at_def main_inv_def)

lemma inv_at_frame:
  assumes "inv_at H L s p pr" and "links_eq s s'" and "core_eq pr pr'"
  shows "inv_at H L s' p pr'"
  using assms(3)
  by (intro inv_at_update [OF assms(1,2)])
    (auto simp: core_eq_def keys_eq_def core_wf [OF assms(3)] inv_at_wf [OF assms(1)])

lemma core_trans: "core_eq a b \<Longrightarrow> core_eq b c \<Longrightarrow> core_eq a c"
  by (simp add: core_eq_def)

section \<open>Operations that keep the links\<close>

lemma use_config_links [simp]: "links_eq s (use_config i d s)"
  by (cases "i < length (s_vconfig s)")
    (simp_all add: links_eq_def use_config_def Let_def cfg_of_def map_update strip_use_def list_update_same_conv list_update_beyond)

lemma update_auth_failures_links [simp]: "links_eq s (update_auth_failures s n)"
  by (simp add: update_auth_failures_def Let_def)

lemma send_to_worker_links: "send_to_worker env x s = (ret, s') \<Longrightarrow> links_eq s s'"
  by (auto simp: send_to_worker_def)

lemma send_cookie_links: "send_cookie_auth_reply env s p pr k = (ret, s') \<Longrightarrow> links_eq s s'"
  by (auto simp: send_cookie_auth_reply_def split: prod.splits dest: send_to_worker_links)

lemma cgroup_loop_links: "links_eq s (cgroup_loop env s name pid ps)"
  by (induction env s name pid ps rule: cgroup_loop.induct) (auto intro: links_trans [OF links_emit(2)])

lemma put_into_cgroup_links [simp]: "links_eq s (put_into_cgroup env s cg pid)"
  by (simp add: put_into_cgroup_def Let_def cgroup_loop_links split: option.split)

lemma route_links: "route_adddel env s pat r dev = Some (ret, s') \<Longrightarrow> links_eq s s'"
  by (auto simp: route_adddel_def route_call_script_def split: option.splits prod.splits if_splits exec_result.splits)

lemma del_routes_links: "del_routes env s dev rs = Some s' \<Longrightarrow> links_eq s s'"
proof (induction env s dev rs rule: del_routes.induct)
  case (2 env s dev r rs)
  then show ?case by (auto simp: route_del_def split: option.splits dest!: route_links intro: links_trans)
qed simp

lemma add_routes_links: "add_routes env s dev ap rs = Some (ret, s') \<Longrightarrow> links_eq s s'"
proof (induction env s dev ap rs rule: add_routes.induct)
  case (2 env s dev ap r rs)
  then obtain r1 s1 where a: "route_add env s r dev = Some (r1, s1)" by (auto split: option.splits)
  then have "links_eq s s1" by (auto simp: route_add_def dest: route_links)
  with 2 a show ?case by (auto split: if_splits dest!: del_routes_links intro: links_trans)
qed simp

lemma apply_iroutes_links:
  "apply_iroutes env s pr gc = Some (ret, pr', s') \<Longrightarrow> links_eq s s' \<and> core_eq pr pr'"
  by (auto simp: apply_iroutes_def core_eq_def split: if_splits option.splits dest: add_routes_links)

lemma remove_iroutes_links: "remove_iroutes env s pr = Some (pr', s') \<Longrightarrow> links_eq s s' \<and> core_eq pr pr'"
  by (auto simp: remove_iroutes_def core_eq_def split: if_splits option.splits dest: del_routes_links)

lemma close_tun_links: "close_tun s pr = (pr', s') \<Longrightarrow> links_eq s s' \<and> core_eq pr pr'"
  by (auto simp: close_tun_def core_eq_def split: if_splits)

lemma call_script_links:
  "call_script env s p pr t = Some (ret, s') \<Longrightarrow> t \<noteq> SCRIPT_CONNECT \<Longrightarrow> links_eq s s'"
  by (auto simp: call_script_def Let_def split: option.splits prod.splits if_splits)

lemma choose_script_Some: "t = SCRIPT_HOST_UPDATE \<or> p_config pr \<noteq> None \<Longrightarrow> choose_script cf pr t \<noteq> None"
  by (auto simp: choose_script_def Let_def split: option.splits)

lemma call_script_Some:
  assumes "t = SCRIPT_HOST_UPDATE \<or> p_config pr \<noteq> None"
  shows "call_script env s p pr t \<noteq> None"
proof -
  obtain sc nx where "choose_script (getconfig s) pr t = Some (sc, nx)"
    using choose_script_Some [OF assms, of "getconfig s"] by auto
  then show ?thesis by (cases sc) (auto simp: call_script_def Let_def)
qed

section \<open>Sessions\<close>

lemma append_routes_Some: "de_routes env \<Longrightarrow> de_no_routes env \<Longrightarrow> append_routes env cf gc \<noteq> None"
  by (simp add: append_routes_def Let_def)

lemma apply_default_config_Some: "de_routes env \<Longrightarrow> de_no_routes env \<Longrightarrow> apply_default_config env v gc \<noteq> None"
  using append_routes_Some by (simp add: apply_default_config_def Let_def)

definition dup_ok :: "main_env \<Rightarrow> bool" where
  "dup_ok env \<longleftrightarrow> de_routes (se_dup (me_session env)) \<and> de_no_routes (se_dup (me_session env))"

text \<open>What opening a session changes in a process.\<close>

definition proc_opened :: "proc \<Rightarrow> proc \<Rightarrow> bool" where
  "proc_opened pr pr' \<longleftrightarrow> keys_eq pr pr' \<and> p_ipv4 pr' = p_ipv4 pr \<and> p_ipv6 pr' = p_ipv6 pr \<and> p_status pr' = p_status pr \<and>
     p_active_sid pr' = p_active_sid pr"

lemma session_opened_inv:
  assumes "inv_at H L s p pr" and "session_opened env s pr msg = Some (ret, pr', s')"
  shows "inv_at H L s' p pr' \<and> links_eq s s' \<and> proc_opened pr pr' \<and> (ret \<ge> 0 \<longrightarrow> p_config pr' \<noteq> None)"
proof -
  note wf = inv_at_wf [OF assms(1)]
  have ne: "s_vconfig s \<noteq> []" using assms(1) by (simp add: inv_at_def main_inv_def)
  define pr1 where "pr1 u = (case rp_groupname msg of None \<Rightarrow> pr\<lparr>p_username := strlcpy MAX_USERNAME_SIZE u\<rparr>
    | Some g \<Rightarrow> pr\<lparr>p_username := strlcpy MAX_USERNAME_SIZE u, p_groupname := strlcpy MAX_GROUPNAME_SIZE g\<rparr>)" for u
  have core: "core_eq pr (pr1 u)" for u by (simp add: pr1_def core_eq_def split: option.split)
  define pr2 where "pr2 u gc = (pr1 u)\<lparr>p_ipv4_seed := le_bytes (rp_ipv4_seed msg), p_config := Some gc,
      p_vhost := Some (main_find_vhost (s_vconfig s) (rp_vhost msg)), p_counted := True\<rparr>" for u gc
  have o: "proc_opened pr (pr2 u gc)" "proc_wf s p (pr2 u gc)" for u gc
    using core [of u] wf main_find_vhost_bound [OF ne, of "rp_vhost msg"]
    by (auto simp: proc_opened_def keys_eq_def core_eq_def pr2_def proc_wf_def idle_def le_bytes_def)
  have "inv_at H L (use_config i 1 s) p (pr2 u gc)" for i u gc
    using o [of u gc] by (intro inv_at_update [OF assms(1)]) (auto simp: proc_opened_def)
  moreover have "inv_at H L x p (pr1 u)" "inv_at H L x p pr" if "links_eq s x" for u x
    using inv_at_frame [OF assms(1) that] core by auto
  moreover have "proc_opened pr (pr1 u)" "proc_opened pr pr" for u
    using core [of u] by (auto simp: proc_opened_def core_eq_def keys_eq_def)
  moreover have "p_config (pr2 u gc) = Some gc" for u gc by (simp add: pr2_def)
  ultimately show ?thesis
    using assms(2) o(1) unfolding session_opened_def
    by (auto simp: Let_def pr1_def [symmetric] pr2_def [symmetric] split: option.splits if_splits)
qed

lemma session_open_post:
  assumes "inv_at H L s p pr" and "b \<Longrightarrow> dup_ok env"
  shows "post b (or_crash (session_open (me_session env) s pr c))
    (\<lambda>(ret, pr', s'). inv_at H L s' p pr' \<and> links_eq s s' \<and> proc_opened pr pr' \<and> (ret \<ge> 0 \<longrightarrow> p_config pr' \<noteq> None))"
proof (rule post_crash, clarify)
  fix ret pr' s'
  assume "session_open (me_session env) s pr c = Some (ret, pr', s')"
  then show "inv_at H L s' p pr' \<and> links_eq s s' \<and> proc_opened pr pr' \<and> (ret \<ge> 0 \<longrightarrow> p_config pr' \<noteq> None)"
    using assms(1) session_opened_inv [OF assms(1)]
    by (auto simp: session_open_def proc_opened_def keys_eq_def split: option.splits if_splits answer.splits)
next
  assume b
  then have "apply_default_config (se_dup (me_session env)) v gc = None \<Longrightarrow> False" for v gc
    using assms(2) apply_default_config_Some [of "se_dup (me_session env)" v gc] by (simp add: dup_ok_def)
  then show "session_open (me_session env) s pr c \<noteq> None"
    by (auto simp: session_open_def session_opened_def Let_def split: option.splits answer.splits)
qed

section \<open>Login\<close>

text \<open>During a login the object still has the status it had before; the invariant holds for it with the
  status that a failed login gets. No script of the process is running.\<close>

definition login_inv :: "(bytes \<Rightarrow> u64) \<Rightarrow> (bytes \<Rightarrow> u64) \<Rightarrow> main_server \<Rightarrow> proc_ptr \<Rightarrow> proc \<Rightarrow> bool" where
  "login_inv H L s p pr \<longleftrightarrow>
     inv_at H L s p (pr\<lparr>p_status := PS_AUTH_FAILED\<rparr>) \<and> p \<notin> script_procs s \<and> s_heap s p \<noteq> None"

lemma login_of_inactive:
  assumes "inv_at H L s p pr" and "p_status pr = PS_AUTH_INACTIVE" and "s_heap s p \<noteq> None"
  shows "login_inv H L s p pr"
proof -
  note wf = inv_at_wf [OF assms(1)]
  have "inv_at H L s p (pr\<lparr>p_status := PS_AUTH_FAILED\<rparr>)"
    using wf by (intro inv_at_update [OF assms(1)]) (auto simp: keys_eq_def proc_wf_def idle_def)
  then show ?thesis using wf assms(2,3) by (simp add: login_inv_def proc_wf_def)
qed

lemma login_frame:
  assumes "login_inv H L s p pr" and "links_eq s s'" and "core_eq pr pr'"
  shows "login_inv H L s' p pr'"
  using assms(3) inv_at_frame [of H L s p "pr\<lparr>p_status := PS_AUTH_FAILED\<rparr>" s' "pr'\<lparr>p_status := PS_AUTH_FAILED\<rparr>"]
    assms(1,2) links_ptrs [OF assms(2)]
  by (auto simp: login_inv_def core_eq_def links_eq_def)

lemma inv_at_other:
  assumes "inv_at H L s p pr" and "s_heap s q = Some old" and "q \<noteq> p"
  shows "s_heap (put_proc p pr s) q = Some old" and "proc_wf s q old"
  using assms by (auto simp: inv_at_def main_inv_def)

text \<open>A store to another process that keeps its keys.\<close>

lemma take_over_inv:
  assumes inv: "inv_at H L s p pr" and q: "s_heap s q = Some old" "q \<noteq> p" and id: "idle pr"
    and ns: "p_status pr \<noteq> PS_AUTH_INACTIVE" and to: "take_over s q old pr = (pr', s')"
  shows "inv_at H L s' p pr'"
proof -
  note I = inv [unfolded inv_at_def main_inv_def]
  define old1 where "old1 = old\<lparr>p_ipv4 := None, p_ipv6 := None\<rparr>"
  define pr1 where "pr1 = pr\<lparr>p_ipv4 := p_ipv4 old, p_ipv6 := p_ipv6 old\<rparr>"
  have st: "steal_ip_leases old pr = (old1, pr1)" by (simp add: steal_ip_leases_def old1_def pr1_def)
  define old2 where "old2 = (if p_pid old1 > 0 then old1\<lparr>p_pid_killed := True\<rparr> else old1)"
  define s1 where "s1 = (if p_pid old1 > 0 then emits [Kill (p_pid old1)] s else s)"
  have r: "pr' = pr1" "s' = put_proc q old2 s1"
    using to st by (auto simp: take_over_def kill_proc_def old2_def s1_def split: if_splits)
  have l1: "links_eq s s1" by (simp add: s1_def)
  have keys: "keys_eq pr pr1" "keys_eq old old2" "p_ipv4 old2 = p_ipv4 old1" "p_ipv6 old2 = p_ipv6 old1"
    by (simp_all add: keys_eq_def old2_def pr1_def old1_def)
  have wf: "proc_wf s p pr1" "proc_wf s q old2"
    using ns inv_at_wf [OF inv] inv_at_other(2) [OF inv q]
    by (simp_all add: proc_wf_def idle_def old2_def old1_def pr1_def)
  have tw: "f(p \<mapsto> x, q \<mapsto> y, p \<mapsto> z) = f(p \<mapsto> z, q \<mapsto> y)" for f :: "proc_ptr \<rightharpoonup> proc" and x y z
    using q(2) by (auto simp: fun_eq_iff)
  have h: "((s_heap s)(p \<mapsto> pr)) q = Some old" using q by simp
  have "lease_inv L (s_ip_leases s) ((s_heap s)(p \<mapsto> pr, q \<mapsto> old1, p \<mapsto> pr1))"
    using I steal_ip_leases_inv [of L "s_ip_leases s" "(s_heap s)(p \<mapsto> pr)" q old p pr old1 pr1] h q(2) id st by simp
  then have "lease_inv L (s_ip_leases s) ((s_heap s)(p \<mapsto> pr1, q \<mapsto> old1))" unfolding tw .
  then have "lease_inv L (s_ip_leases s) ((s_heap s)(p \<mapsto> pr1, q \<mapsto> old1, q \<mapsto> old2))"
    using keys(3,4) lease_inv_frame [of L "s_ip_leases s" "(s_heap s)(p \<mapsto> pr1, q \<mapsto> old1)" q old1 old2] by simp
  then have lease: "lease_inv L (s_ip_leases s) ((s_heap s)(p \<mapsto> pr1, q \<mapsto> old2))" by simp
  have com: "put_proc p x (put_proc q y t) = put_proc q y (put_proc p x t)" for x y t
    using q(2) by (simp add: put_proc_def fun_upd_twist)
  have "tables_ok H (put_proc p pr1 (put_proc p pr s))"
    using I keys(1) tables_ok_upd [of H "put_proc p pr s" p pr pr1] by simp
  then have "tables_ok H (put_proc q old2 (put_proc p pr1 s))"
    using q keys(2) tables_ok_upd [of H "put_proc p pr1 s" q old old2] by simp
  then have tab: "tables_ok H (put_proc q old2 (put_proc p pr1 s1))"
    using l1 by (simp add: tables_ok_def links_eq_def)
  have wfs: "proc_wf s x xr" if "((s_heap s)(p \<mapsto> pr1, q \<mapsto> old2)) x = Some xr" for x xr
    using that wf I by (cases "x = q"; cases "x = p") auto
  have dom: "dom ((s_heap s)(p \<mapsto> pr1, q \<mapsto> old2)) = dom ((s_heap s)(p \<mapsto> pr))" using q by auto
  have fld: "s_heap s1 = s_heap s" "s_ip_leases s1 = s_ip_leases s" "s_proc_list s1 = s_proc_list s"
    "s_script_list s1 = s_script_list s" "s_vconfig s1 = s_vconfig s" "script_procs s1 = script_procs s"
    by (simp_all add: s1_def emits_def script_procs_def)
  show ?thesis
    using I tab lease wfs links_count [OF l1] unfolding inv_at_def main_inv_def r com
    by (simp add: fld proc_wf_links [OF l1] dom del: dom_fun_upd)
qed

lemma login_register:
  assumes inv: "login_inv H L s p pr" and np: "p \<notin> all_ptrs s" and e: "env_ok H L env"
    and add: "proc_table_add (me_table env) (put_proc p pr s) p pr = (ret, s')"
  shows "login_inv H L s' p pr"
proof -
  let ?F = "pr\<lparr>p_status := PS_AUTH_FAILED\<rparr>"
  note I = inv [unfolded login_inv_def inv_at_def main_inv_def]
  have H: "te_hash (me_table env) = H" using e by (simp add: env_ok_def)
  have "keys_eq ?F pr" by (simp add: keys_eq_def)
  then have t0: "tables_ok (te_hash (me_table env)) (put_proc p pr s)"
    using I tables_ok_upd [of H "put_proc p ?F s" p ?F pr] H by simp
  have np': "p \<notin> main_ptrs (put_proc p pr s)" using np by (simp add: all_ptrs_def)
  note A = proc_table_add_ok [OF t0 _ np' add, simplified]
  have sub: "all_ptrs s' \<subseteq> insert p (all_ptrs s)" using A(3,5) by (auto simp: all_ptrs_def)
  have "keys_eq pr ?F" by (simp add: keys_eq_def)
  then have "tables_ok H (put_proc p ?F s')"
    using tables_ok_upd [of H s' p pr ?F] A(1,2) H by simp
  moreover have "proc_wf s' q qr" if "((s_heap s)(p \<mapsto> ?F)) q = Some qr" for q qr
  proof -
    have "proc_wf s q qr" using that I by auto
    moreover have "p_status qr = PS_AUTH_INACTIVE \<Longrightarrow> q \<noteq> p" using that by auto
    ultimately show ?thesis
      using sub A(4) by (auto simp: proc_wf_def same_rest_def script_procs_def)
  qed
  ultimately show ?thesis
    using I A(2,4) rest_count [OF A(4)] unfolding login_inv_def inv_at_def main_inv_def
    by (auto simp: same_rest_def script_procs_def)
qed

lemma login_sid:
  assumes "login_inv H L s p pr" and "p \<notin> all_ptrs s" and "length cookie = SID_SIZE" and "p_vhost pr \<noteq> None"
  shows "login_inv H L s p (pr\<lparr>p_sid := cookie, p_active_sid := True\<rparr>)"
proof -
  have i: "inv_at H L s p (pr\<lparr>p_status := PS_AUTH_FAILED\<rparr>)" using assms(1) by (simp add: login_inv_def)
  have "inv_at H L s p (pr\<lparr>p_sid := cookie, p_active_sid := True, p_status := PS_AUTH_FAILED\<rparr>)"
    using assms(2-4) inv_at_wf [OF i] by (intro inv_at_update [OF i]) (auto simp: proc_wf_def)
  then show ?thesis using assms(1) by (simp add: login_inv_def)
qed

lemma all_ptrs_take_over: "take_over s q old pr = (pr', s') \<Longrightarrow> all_ptrs s' = all_ptrs s \<and> script_procs s' = script_procs s"
  by (auto simp: take_over_def kill_proc_def emits_def all_ptrs_def main_ptrs_def script_procs_def put_proc_def
      split: prod.splits if_splits)

lemma take_over_heap: "take_over s q old pr = (pr', s') \<Longrightarrow> s_heap s p \<noteq> None \<Longrightarrow> s_heap s' p \<noteq> None"
  by (auto simp: take_over_def kill_proc_def emits_def put_proc_def split: prod.splits if_splits)

lemma take_over_proc: "take_over s q old pr = (pr', s') \<Longrightarrow> p_vhost pr' = p_vhost pr \<and> p_config pr' = p_config pr"
  by (auto simp: take_over_def steal_ip_leases_def split: prod.splits if_splits)

lemma take_over_status:
  "take_over s q old pr = (pr', s') \<Longrightarrow> take_over s q old (pr\<lparr>p_status := x\<rparr>) = (pr'\<lparr>p_status := x\<rparr>, s')"
  by (auto simp: take_over_def steal_ip_leases_def split: prod.splits if_splits)

lemma enter_tables_inv:
  assumes "login_inv H L s p pr" and "p \<notin> all_ptrs s" and "env_ok H L env" and "length cookie = SID_SIZE"
    and "p_config pr \<noteq> None" and "enter_tables env s p pr cookie = (ret, pr', s')"
  shows "login_inv H L s' p pr' \<and> p_config pr' \<noteq> None"
proof -
  have "proc_wf s p (pr\<lparr>p_status := PS_AUTH_FAILED\<rparr>)" using assms(1) inv_at_wf by (auto simp: login_inv_def)
  then have "p_vhost pr \<noteq> None" using assms(5) by (simp add: proc_wf_def)
  then have "login_inv H L s p (pr\<lparr>p_sid := cookie, p_active_sid := True\<rparr>)" using login_sid [OF assms(1,2,4)] by simp
  from login_register [OF this assms(2,3)] show ?thesis
    using assms(5,6) by (auto simp: enter_tables_def Let_def split: prod.splits)
qed

lemma join_session_post:
  assumes inv: "inv_at H L s p pr" and "p_status pr = PS_AUTH_INACTIVE" and hp: "s_heap s p = Some pr"
    and e: "env_ok H L env" and ck: "length cookie = SID_SIZE" and c: "p_config pr \<noteq> None"
  shows "post b (join_session env s p pr cookie)
    (\<lambda>(ret, pr', s'). login_inv H L s' p pr' \<and> (ret \<ge> 0 \<longrightarrow> p_config pr' \<noteq> None))"
proof -
  have li: "login_inv H L s p pr" using login_of_inactive [OF assms(1,2)] hp by simp
  have np: "p \<notin> all_ptrs s" "idle pr" using inv_at_wf [OF inv] assms(2) by (simp_all add: proc_wf_def)
  show ?thesis
  proof (cases "proc_search_sid (me_hash env) s cookie")
    case None
    then show ?thesis
      using enter_tables_inv [OF li np(1) e ck c] by (auto simp: join_session_def)
  next
    case (Some q)
    then obtain old where q: "q \<in> all_ptrs s" "s_heap s q = Some old"
      by (auto simp: proc_search_sid_def all_ptrs_def main_ptrs_def dest!: find_procD)
    then have qp: "q \<noteq> p" using np(1) by auto
    obtain pr1 s1 where t: "take_over s q old pr = (pr1, s1)" by (cases "take_over s q old pr")
    have "inv_at H L s p (pr\<lparr>p_status := PS_AUTH_FAILED\<rparr>)" using li by (simp add: login_inv_def)
    from take_over_inv [OF this q(2) qp _ _ take_over_status [OF t]]
    have "inv_at H L s1 p (pr1\<lparr>p_status := PS_AUTH_FAILED\<rparr>)" using np(2) by (simp add: idle_def)
    then have l1: "login_inv H L s1 p pr1" using li all_ptrs_take_over [OF t] take_over_heap [OF t, of p] by (simp add: login_inv_def)
    have np1: "p \<notin> all_ptrs s1" using np(1) all_ptrs_take_over [OF t] by simp
    have c1: "p_config pr1 \<noteq> None" using c take_over_proc [OF t] by simp
    show ?thesis
      using Some q t li enter_tables_inv [OF l1 np1 e ck c1] by (auto simp: join_session_def or_crash_def)
  qed
qed

lemma handle_auth_cookie_req_post:
  assumes inv: "inv_at H L s p pr" and st: "p_status pr = PS_AUTH_INACTIVE" and e: "env_ok H L env" and "b \<Longrightarrow> dup_ok env"
    and hp: "s_heap s p \<noteq> None"
  shows "post b (handle_auth_cookie_req env s p pr cookie)
    (\<lambda>(ret, pr', s'). login_inv H L s' p pr' \<and> (ret \<ge> 0 \<longrightarrow> p_config pr' \<noteq> None))"
proof (cases "length cookie \<noteq> SID_SIZE \<or> me_rnd env = None")
  case True
  then show ?thesis
    using login_of_inactive [OF inv st hp] by (auto simp: handle_auth_cookie_req_def split: option.split)
next
  case False
  then obtain rnd where ck: "length cookie = SID_SIZE" "me_rnd env = Some rnd" by auto
  have np: "p \<notin> all_ptrs s" using inv_at_wf [OF inv] st by (simp add: proc_wf_def)
  have i1: "inv_at H L s p (pr\<lparr>p_dtls_session_id := rnd\<rparr>)"
    using inv_at_wf [OF inv] np by (intro inv_at_update [OF inv]) (auto simp: proc_wf_def idle_def)
  have join: "post b (join_session env (put_proc p pr1 s2) p pr1 cookie)
      (\<lambda>(ret, pr', s'). login_inv H L s' p pr' \<and> (ret \<ge> 0 \<longrightarrow> p_config pr' \<noteq> None))"
    if "inv_at H L s1 p pr1" "links_eq s1 s2" "p_status pr1 = PS_AUTH_INACTIVE" "p_config pr1 \<noteq> None" for s1 s2 pr1
    using that inv_at_frame [OF that(1,2) core_refl] by (intro join_session_post e ck(1)) simp_all
  have rest: "post b (if ret < 0 then Done (- 1, pr1, s1)
      else bind_out (or_crash (p_config pr1)) (\<lambda>gc.
             join_session env (put_proc p pr1 (if gc_cgroup gc \<noteq> None then put_into_cgroup env s1 (gc_cgroup gc) (p_pid pr1)
               else s1)) p pr1 cookie))
      (\<lambda>(ret, pr', s'). login_inv H L s' p pr' \<and> (ret \<ge> 0 \<longrightarrow> p_config pr' \<noteq> None))"
    if "inv_at H L s1 p pr1" "links_eq s s1" "proc_opened (pr\<lparr>p_dtls_session_id := rnd\<rparr>) pr1" "0 \<le> ret \<longrightarrow> p_config pr1 \<noteq> None"
    for ret :: int and s1 pr1
  proof -
    have "p_status pr1 = PS_AUTH_INACTIVE" "s_heap s1 p \<noteq> None"
      using that(2,3) st hp by (simp_all add: proc_opened_def links_eq_def)
    then show ?thesis
      using that login_of_inactive [of H L s1 p pr1] join [OF that(1)]
      by (cases "p_config pr1") (auto simp: or_crash_def)
  qed
  have eq: "handle_auth_cookie_req env s p pr cookie =
      bind_out (or_crash (session_open (me_session env) s (pr\<lparr>p_dtls_session_id := rnd\<rparr>) (Some cookie)))
        (\<lambda>(ret, pr1, s1). if ret < 0 then Done (- 1, pr1, s1)
          else bind_out (or_crash (p_config pr1)) (\<lambda>gc.
             join_session env (put_proc p pr1 (if gc_cgroup gc \<noteq> None then put_into_cgroup env s1 (gc_cgroup gc) (p_pid pr1)
               else s1)) p pr1 cookie))"
    using ck unfolding handle_auth_cookie_req_def Let_def by simp
  show ?thesis
    unfolding eq
  proof (rule post_bind [OF session_open_post [OF i1 assms(4)]], assumption, goal_cases)
    case (1 x)
    obtain ret pr1 s1 where x: "x = (ret, pr1, s1)" by (cases x)
    show ?case using 1 rest [of s1 pr1 ret] unfolding x prod.case by blast
  qed
qed

section \<open>The tunnel device\<close>

lemma login_wf: "login_inv H L s p pr \<Longrightarrow> proc_wf s p (pr\<lparr>p_status := PS_AUTH_FAILED\<rparr>)"
  using inv_at_wf by (auto simp: login_inv_def)

lemma login_leases:
  assumes "login_inv H L s p pr" and "pr' = pr\<lparr>p_ipv4 := a, p_ipv6 := b\<rparr>" and "lease_inv L db ((s_heap s)(p \<mapsto> pr'))"
  shows "login_inv H L (s\<lparr>s_ip_leases := db\<rparr>) p pr'"
proof -
  let ?F = "pr\<lparr>p_status := PS_AUTH_FAILED\<rparr>" and ?G = "pr'\<lparr>p_status := PS_AUTH_FAILED\<rparr>"
  note I = assms(1) [unfolded login_inv_def inv_at_def main_inv_def]
  have "keys_eq ?F ?G" using assms(2) by (simp add: keys_eq_def)
  then have "tables_ok H (put_proc p ?G s)"
    using I tables_ok_upd [of H "put_proc p ?F s" p ?F ?G] by simp
  then have t: "tables_ok H (put_proc p ?G (s\<lparr>s_ip_leases := db\<rparr>))" by (simp add: tables_ok_def)
  have l: "lease_inv L db ((s_heap s)(p \<mapsto> pr', p \<mapsto> ?G))"
    using assms(3) lease_inv_frame [of L db "(s_heap s)(p \<mapsto> pr')" p pr' ?G] by simp
  have w0: "proc_wf s p ?G" using login_wf [OF assms(1)] assms(2) by (simp add: proc_wf_def)
  have ws: "proc_wf (s\<lparr>s_ip_leases := db\<rparr>) q qr \<longleftrightarrow> proc_wf s q qr" for q qr
    by (simp add: proc_wf_def all_ptrs_def main_ptrs_def script_procs_def)
  have "proc_wf s q qr" if "((s_heap s)(p \<mapsto> ?G)) q = Some qr" for q qr
    using that w0 I by (cases "q = p") auto
  then show ?thesis
    using I t l unfolding login_inv_def inv_at_def main_inv_def
    by (simp add: ws script_procs_def)
qed

lemma login_lease_inv: "login_inv H L s p pr \<Longrightarrow> lease_inv L (s_ip_leases s) ((s_heap s)(p \<mapsto> pr))"
  using lease_inv_frame [of L "s_ip_leases s" "(s_heap s)(p \<mapsto> pr\<lparr>p_status := PS_AUTH_FAILED\<rparr>)" p
      "pr\<lparr>p_status := PS_AUTH_FAILED\<rparr>" pr]
  by (simp add: login_inv_def inv_at_def main_inv_def)

lemma get_leases_login:
  assumes "login_inv H L s p pr" and "env_ok H L env"
    and "get_ip_leases (me_lease env) gc net (s_ip_leases s) pr = (ret, db, pr')"
  shows "login_inv H L (s\<lparr>s_ip_leases := db\<rparr>) p pr' \<and> p_config pr' = p_config pr"
proof -
  have "length (p_ipv4_seed pr) = 4" using login_wf [OF assms(1)] by (simp add: proc_wf_def)
  with get_ip_leases_inv [of "me_lease env" "s_ip_leases s" "(s_heap s)(p \<mapsto> pr)" p pr, OF _ _ _ _ assms(3)]
  have "lease_inv L db ((s_heap s)(p \<mapsto> pr'))" and ex: "\<exists>a b. pr' = pr\<lparr>p_ipv4 := a, p_ipv6 := b\<rparr>"
    using assms(2) login_lease_inv [OF assms(1)] by (simp_all add: env_ok_def)
  then show ?thesis using login_leases [OF assms(1)] by auto
qed

lemma drop_ipv6_login:
  assumes "login_inv H L s p pr" and "env_ok H L env" and "drop_ipv6 env s pr = (pr', s')"
  shows "login_inv H L s' p pr' \<and> p_config pr' = p_config pr"
proof (cases "pr' = pr \<and> s' = s")
  case True
  then show ?thesis using assms(1) by simp
next
  case False
  then obtain l where l: "p_ipv6 pr = Some l" "pr' = pr\<lparr>p_ipv6 := None\<rparr>"
    "s' = s\<lparr>s_ip_leases := free_lease L (Some l) (s_ip_leases s)\<rparr>"
    using assms(2,3) by (auto simp: drop_ipv6_def remove_ip_lease_def env_ok_def split: option.splits if_splits)
  have "lease_inv L (free_lease L (slot Inet6 pr) (s_ip_leases s)) ((s_heap s)(p \<mapsto> pr, p \<mapsto> set_slot Inet6 None pr))"
    using login_lease_inv [OF assms(1)] by (intro lease_inv_free) simp_all
  then have "lease_inv L (free_lease L (Some l) (s_ip_leases s)) ((s_heap s)(p \<mapsto> pr'))" using l by simp
  moreover have "pr' = pr\<lparr>p_ipv4 := p_ipv4 pr, p_ipv6 := None\<rparr>" using l(2) by simp
  ultimately show ?thesis using login_leases [OF assms(1)] l by fastforce
qed

lemma set_network_info_login:
  assumes "login_inv H L s p pr" and "env_ok H L env" and "set_network_info env s pr = (ret, pr', s')"
  shows "login_inv H L s' p pr' \<and> p_config pr' = p_config pr"
  using assms(1,3) drop_ipv6_login [OF assms(1,2)]
  by (auto simp: set_network_info_def Let_def split: if_splits prod.splits)

lemma login_core: "login_inv H L s p pr \<Longrightarrow> core_eq pr pr' \<Longrightarrow> login_inv H L s p pr'"
  by (rule login_frame [OF _ links_refl])

lemma login_emit: "login_inv H L s p pr \<Longrightarrow> login_inv H L (emits xs s) p pr"
  by (rule login_frame [OF _ links_emit(2) core_refl])

lemma open_tun_post:
  assumes inv: "login_inv H L s p pr" and e: "env_ok H L env" and c: "p_config pr \<noteq> None"
  shows "post b (open_tun env s pr) (\<lambda>(ret, pr', s'). login_inv H L s' p pr' \<and> p_config pr' \<noteq> None)"
proof -
  obtain gc where gc: "p_config pr = Some gc" using c by auto
  have "p_vhost pr \<noteq> None" using login_wf [OF inv] c by (simp add: proc_wf_def)
  then obtain net where net: "proc_network s pr = Some net" by (auto simp: proc_network_def)
  obtain ret db pr1 where g: "get_ip_leases (me_lease env) gc net (s_ip_leases s) pr = (ret, db, pr1)"
    by (metis prod_cases3)
  obtain fd name where tun: "me_tun env = (fd, name)" by (cases "me_tun env")
  let ?s1 = "s\<lparr>s_ip_leases := db\<rparr>" and ?pr2 = "pr1\<lparr>p_tun_name := name\<rparr>"
  have 1: "login_inv H L ?s1 p pr1" "p_config pr1 \<noteq> None" using get_leases_login [OF inv e g] c by simp_all
  then have 2: "login_inv H L ?s1 p ?pr2" by (elim login_core) (simp add: core_eq_def)
  obtain r3 pr3 s3 where n: "set_network_info env ?s1 ?pr2 = (r3, pr3, s3)" by (metis prod_cases3)
  have 3: "login_inv H L s3 p pr3" "p_config pr3 \<noteq> None" using set_network_info_login [OF 2 e n] 1(2) by simp_all
  have 4: "login_inv H L s3 p (pr3\<lparr>p_tun_fd := fd\<rparr>)" using 3(1) by (rule login_core) (simp add: core_eq_def)
  show ?thesis
    using 1 2 3 4 by (auto simp: open_tun_def gc net g tun n or_crash_def Let_def intro: login_emit)
qed

lemma count_users_post: "set qs \<subseteq> dom (s_heap s) \<Longrightarrow> post b (count_users s p user mx n qs) (\<lambda>_. True)"
proof (induction s p user mx n qs rule: count_users.induct)
  case (2 s p user mx n q qs)
  then obtain c where "s_heap s q = Some c" by auto
  then show ?case using 2 by (simp add: or_crash_def)
qed simp

lemma login_proc_list: "login_inv H L s p pr \<Longrightarrow> set (s_proc_list s) = dom (s_heap s)"
  by (auto simp: login_inv_def inv_at_def main_inv_def)

lemma check_multiple_users_post:
  "login_inv H L s p pr \<Longrightarrow> p_config pr \<noteq> None \<Longrightarrow> post b (check_multiple_users s p pr) (\<lambda>_. True)"
  using count_users_post [of "s_proc_list s" s b p "p_username pr"] login_proc_list [of H L s p pr]
  by (auto simp: check_multiple_users_def or_crash_def Let_def)

section \<open>Scripts and the end of a login\<close>

lemma inv_at_status:
  assumes "inv_at H L s p pr" and "x \<noteq> PS_AUTH_INACTIVE" and "x = PS_AUTH_COMPLETED \<Longrightarrow> p_config pr \<noteq> None"
  shows "inv_at H L s p (pr\<lparr>p_status := x\<rparr>)"
  using inv_at_wf [OF assms(1)] assms(2,3)
  by (intro inv_at_update [OF assms(1) links_refl]) (auto simp: keys_eq_def proc_wf_def)

lemma inv_at_script:
  assumes "inv_at H L s p pr" and "p \<notin> script_procs s" and "p_config pr \<noteq> None" and "p_status pr \<noteq> PS_AUTH_INACTIVE"
  shows "inv_at H L (s\<lparr>s_script_list := (pid, p) # s_script_list s\<rparr>) p pr"
proof -
  let ?s = "s\<lparr>s_script_list := (pid, p) # s_script_list s\<rparr>"
  note I = assms(1) [unfolded inv_at_def main_inv_def]
  have sp: "script_procs ?s = insert p (script_procs s)" by (simp add: script_procs_def)
  have "tables_ok H (put_proc p pr ?s)" using I by (simp add: tables_ok_def)
  moreover have "proc_wf ?s q qr" if "((s_heap s)(p \<mapsto> pr)) q = Some qr" for q qr
  proof -
    have "proc_wf s q qr" using that I by auto
    then show ?thesis
      using that assms(3,4) sp by (cases "q = p") (auto simp: proc_wf_def all_ptrs_def main_ptrs_def)
  qed
  moreover have "p \<notin> snd ` set (s_script_list s)" using assms(2) by (simp add: script_procs_def)
  ultimately show ?thesis
    using I sp unfolding inv_at_def main_inv_def by auto
qed

lemma user_connected_post:
  assumes "login_inv H L s p pr" and "p_config pr \<noteq> None"
  shows "post b (or_crash (user_connected env s p pr))
    (\<lambda>(ret, s'). inv_at H L s' p (pr\<lparr>p_status := PS_AUTH_FAILED\<rparr>) \<and> s_heap s' = s_heap s \<and> ret \<le> 0)"
proof (rule post_crash, clarify)
  let ?F = "pr\<lparr>p_status := PS_AUTH_FAILED\<rparr>"
  fix ret s'
  assume r: "user_connected env s p pr = Some (ret, s')"
  have i: "inv_at H L s p ?F" "p \<notin> script_procs s" using assms(1) by (simp_all add: login_inv_def)
  have e: "inv_at H L (emits xs s) p ?F" for xs using inv_at_frame [OF i(1)] by simp
  have k: "inv_at H L ((emits xs s)\<lparr>s_script_list := (pid, p) # s_script_list (emits xs s)\<rparr>) p ?F" for xs pid
    using assms(2) i(2) by (intro inv_at_script [OF e]) (simp_all add: script_procs_def emits_def)
  show "inv_at H L s' p ?F \<and> s_heap s' = s_heap s \<and> ret \<le> 0"
    using r i(1) e k
    by (auto simp: user_connected_def call_script_def add_to_script_list_def Let_def emits_def
        split: option.splits prod.splits if_splits)
next
  show "user_connected env s p pr \<noteq> None"
    using call_script_Some [of SCRIPT_CONNECT pr env s p] assms(2)
    by (auto simp: user_connected_def split: option.splits if_splits)
qed

lemma accept_user_post:
  assumes inv: "login_inv H L s p pr" and e: "env_ok H L env" and c: "p_config pr \<noteq> None"
  shows "post b (accept_user env s p pr k)
    (\<lambda>(ret, pr', s'). inv_at H L s' p (pr'\<lparr>p_status := PS_AUTH_FAILED\<rparr>) \<and> s_heap s' p \<noteq> None \<and> ret \<le> 0 \<and>
       p_config pr' \<noteq> None)"
  unfolding accept_user_def
proof (rule post_bind [OF check_multiple_users_post [OF inv c]], goal_cases)
  case (1 ret)
  have i: "inv_at H L s p (pr\<lparr>p_status := PS_AUTH_FAILED\<rparr>) \<and> s_heap s p \<noteq> None" using inv by (simp add: login_inv_def)
  show ?case
  proof (cases "ret < 0")
    case False
    have "post b (bind_out (open_tun env s pr) (\<lambda>(ret, pr, s).
        if ret < 0 then Done (- 1, pr, s)
        else if \<not> k then Done (ERR_BAD_COMMAND, pr, s)
        else bind_out (or_crash (user_connected (me_user env) s p pr)) (\<lambda>(ret, s). Done (ret, pr, s))))
      (\<lambda>(ret, pr', s'). inv_at H L s' p (pr'\<lparr>p_status := PS_AUTH_FAILED\<rparr>) \<and> s_heap s' p \<noteq> None \<and> ret \<le> 0 \<and>
       p_config pr' \<noteq> None)"
    proof (rule post_bind [OF open_tun_post [OF inv e c]], clarify, goal_cases)
      case (1 r pr1 s1 gc)
      have u: "post b (bind_out (or_crash (user_connected (me_user env) s1 p pr1)) (\<lambda>(ret, s). Done (ret, pr1, s)))
        (\<lambda>(ret, pr', s'). inv_at H L s' p (pr'\<lparr>p_status := PS_AUTH_FAILED\<rparr>) \<and> s_heap s' p \<noteq> None \<and> ret \<le> 0 \<and>
          p_config pr' \<noteq> None)"
        using 1 by (intro post_bind [OF user_connected_post]) (auto simp: login_inv_def)
      show ?case using 1 u by (auto simp: login_inv_def)
    qed
    then show ?thesis using False by simp
  qed (use i c in simp)
qed

lemma links_heap: "links_eq s s' \<Longrightarrow> s_heap s' = s_heap s"
  by (simp add: links_eq_def)

lemma apply_iroutes_post:
  assumes "inv_at H L s p pr" and "p_config pr = Some gc"
  shows "post b (bind_out (or_hang (apply_iroutes env s pr gc)) (\<lambda>(ret, pr, s).
      if ret < 0 then Done (ERR_BAD_COMMAND, pr, s) else Done (0, pr\<lparr>p_status := PS_AUTH_COMPLETED\<rparr>, s)))
    (\<lambda>(ret, pr', s'). inv_at H L s' p pr' \<and> s_heap s' = s_heap s)"
proof (rule post_bind [OF post_hang], assumption, clarify)
  fix ret pr1 s1
  assume a: "apply_iroutes env s pr gc = Some (ret, pr1, s1)"
  note l = apply_iroutes_links [OF a]
  have i: "inv_at H L s1 p pr1" using inv_at_frame [OF assms(1)] l by blast
  have "p_config pr1 \<noteq> None" using l assms(2) by (simp add: core_eq_def)
  then have "inv_at H L s1 p (pr1\<lparr>p_status := PS_AUTH_COMPLETED\<rparr>)" using inv_at_status [OF i, of PS_AUTH_COMPLETED] by simp
  then show "post b (if ret < 0 then Done (ERR_BAD_COMMAND, pr1, s1) else Done (0, pr1\<lparr>p_status := PS_AUTH_COMPLETED\<rparr>, s1))
      (\<lambda>(ret, pr', s'). inv_at H L s' p pr' \<and> s_heap s' = s_heap s)"
    using i l by (simp add: links_heap)
qed

lemma handle_script_exit_post:
  assumes inv: "inv_at H L s p pr" and c: "code = 0 \<Longrightarrow> p_config pr \<noteq> None"
  shows "post b (handle_script_exit env s p pr code) (\<lambda>(ret, pr', s'). inv_at H L s' p pr' \<and> s_heap s' = s_heap s)"
  unfolding handle_script_exit_def
proof (rule post_bind [where P = "\<lambda>(ret, pr', s'). inv_at H L s' p pr' \<and> s_heap s' = s_heap s"], goal_cases)
  case 1
  obtain r s1 where snd: "send_cookie_auth_reply env s p pr (code = 0) = (r, s1)"
    by (cases "send_cookie_auth_reply env s p pr (code = 0)")
  note l = send_cookie_links [OF snd]
  have i: "inv_at H L s1 p pr" using inv_at_frame [OF inv l core_refl] .
  show ?case
  proof (cases "code = 0")
    case True
    then obtain gc where gc: "p_config pr = Some gc" using c by auto
    show ?thesis
      using True snd i l apply_iroutes_post [OF i gc, of b "me_route env"]
      by (simp add: gc or_crash_def links_heap)
  next
    case False
    then show ?thesis using snd i l by (simp add: links_heap)
  qed
next
  case (2 x)
  obtain r pr1 s1 where x: "x = (r, pr1, s1)" by (cases x)
  obtain pr2 s2 where ct: "close_tun s1 pr1 = (pr2, s2)" by (cases "close_tun s1 pr1")
  note l = close_tun_links [OF ct]
  have "core_eq pr1 (pr2\<lparr>p_tun_fd := - 1\<rparr>)" using l by (simp add: core_eq_def)
  then show ?case
    using 2 l ct inv_at_frame [of H L s1 p pr1 s2 "pr2\<lparr>p_tun_fd := - 1\<rparr>"] by (simp add: x links_heap [of s1 s2])
qed

lemma handle_cookie_auth_res_post:
  assumes inv: "login_inv H L s p pr" and e: "env_ok H L env" and c: "result = 0 \<Longrightarrow> p_config pr \<noteq> None"
  shows "post b (handle_cookie_auth_res env s p pr k result) (\<lambda>(ret, pr', s'). inv_at H L s' p pr' \<and> s_heap s' p \<noteq> None)"
  unfolding handle_cookie_auth_res_def
proof (rule post_bind [where P = "\<lambda>(ret, pr', s'). inv_at H L s' p pr' \<and> s_heap s' p \<noteq> None \<and>
    (ret = 0 \<longrightarrow> p_config pr' \<noteq> None)"], goal_cases)
  case 1
  show ?case
  proof (cases "result = 0")
    case True
    have "post b (bind_out (accept_user env s p pr k) (\<lambda>(ret, pr, s).
        Done (ret, pr\<lparr>p_status := (if ret < 0 then PS_AUTH_FAILED else PS_AUTH_COMPLETED)\<rparr>, s)))
      (\<lambda>(ret, pr', s'). inv_at H L s' p pr' \<and> s_heap s' p \<noteq> None \<and> (ret = 0 \<longrightarrow> p_config pr' \<noteq> None))"
    proof (rule post_bind [OF accept_user_post [OF inv e c [OF True]]], clarify, goal_cases)
      case (1 r pr1 s1 gc)
      then have "inv_at H L s1 p (pr1\<lparr>p_status := PS_AUTH_COMPLETED\<rparr>)"
        using inv_at_status [of H L s1 p "pr1\<lparr>p_status := PS_AUTH_FAILED\<rparr>" PS_AUTH_COMPLETED] by simp
      then show ?case using 1 by simp
    qed
    then show ?thesis using True by simp
  next
    case False
    then show ?thesis using inv by (simp add: login_inv_def)
  qed
next
  case (2 x)
  obtain r pr1 s1 where x: "x = (r, pr1, s1)" by (cases x)
  have i: "inv_at H L s1 p pr1" "s_heap s1 p \<noteq> None" "r = 0 \<longrightarrow> p_config pr1 \<noteq> None" using 2 by (simp_all add: x)
  have "post b (bind_out (handle_script_exit env s1 p pr1 r) (\<lambda>(ret, pr, s).
      Done (ret, if ret < 0 then pr\<lparr>p_status := PS_AUTH_FAILED\<rparr> else pr, s)))
    (\<lambda>(ret, pr', s'). inv_at H L s' p pr' \<and> s_heap s' p \<noteq> None)"
  proof (rule post_bind [OF handle_script_exit_post [OF i(1)]], use i in blast, clarify, goal_cases)
    case (1 ret pr2 s2)
    then have "inv_at H L s2 p (pr2\<lparr>p_status := PS_AUTH_FAILED\<rparr>)"
      using inv_at_status [of H L s2 p pr2 PS_AUTH_FAILED] by simp
    then show ?case using 1 i(2) by simp
  qed
  then show ?case using i by (simp add: x)
qed

lemma cookie_cmd_post:
  assumes "inv_at H L s p pr" and "p_status pr = PS_AUTH_INACTIVE" and e: "env_ok H L env" and "b \<Longrightarrow> dup_ok env"
    and "s_heap s p \<noteq> None"
  shows "post b (cookie_cmd env s p pr cookie) (\<lambda>(ret, pr', s'). inv_at H L s' p pr' \<and> s_heap s' p \<noteq> None)"
  unfolding cookie_cmd_def
proof (rule post_bind [OF handle_auth_cookie_req_post [OF assms]], assumption, clarify, goal_cases)
  case (1 r pr1 s1)
  then show ?case using handle_cookie_auth_res_post [OF _ e, of s1 p pr1 r b True] by auto
qed

section \<open>Commands of a worker\<close>

lemma copy_info_core [simp]: "core_eq pr (copy_info m pr)"
  by (simp add: core_eq_def copy_info_def)

lemma info_our_addr_core [simp]: "core_eq pr (info_our_addr m pr)"
  by (simp add: core_eq_def info_our_addr_def split: option.split)

lemma info_hostname_post:
  assumes "inv_at H L s p pr"
  shows "post b (info_hostname env s p pr m) (\<lambda>(pr', s'). inv_at H L s' p pr' \<and> s_heap s' = s_heap s)"
proof (cases "in_hostname m")
  case (Some h)
  let ?pr = "pr\<lparr>p_hostname := strlcpy MAX_USERNAME_SIZE h\<rparr>"
  have "post b (or_crash (user_hostname_update (me_user env) s p ?pr))
      (\<lambda>(pr', s'). inv_at H L s' p pr' \<and> s_heap s' = s_heap s)"
  proof (rule post_crash, clarify)
    fix pr' s'
    assume "user_hostname_update (me_user env) s p ?pr = Some (pr', s')"
    then have "links_eq s s'" "core_eq pr pr'"
      by (auto simp: user_hostname_update_def core_eq_def split: if_splits option.splits dest: call_script_links)
    then show "inv_at H L s' p pr' \<and> s_heap s' = s_heap s" using inv_at_frame [OF assms] by (simp add: links_heap)
  next
    show "user_hostname_update (me_user env) s p ?pr \<noteq> None"
      using call_script_Some [of SCRIPT_HOST_UPDATE ?pr "me_user env" s p]
      by (auto simp: user_hostname_update_def split: option.splits)
  qed
  then show ?thesis by (simp add: info_hostname_def Some)
qed (simp add: info_hostname_def assms)

text \<open>An update of the addresses of a process, whose pointer may only enter a table when it already is in
  one.\<close>

lemma inv_at_addr:
  assumes inv: "inv_at H L s p pr" and t: "tables_ok H s'" and r: "same_rest (put_proc p pr s) s'"
    and a: "all_ptrs s' \<subseteq> all_ptrs s" and h: "s_heap s' = (s_heap s)(p \<mapsto> pr')" and sb: "same_but_addr pr pr'"
  shows "main_inv H L s'"
proof -
  note I = inv [unfolded inv_at_def main_inv_def]
  have l: "lease_inv L (s_ip_leases s) ((s_heap s)(p \<mapsto> pr, p \<mapsto> pr'))"
    using I same_but_addrD(3,4) [OF sb] lease_inv_frame [of L "s_ip_leases s" "(s_heap s)(p \<mapsto> pr)" p pr pr'] by simp
  have "p_pid pr' = p_pid pr" "p_active_sid pr' = p_active_sid pr" "p_config pr' = p_config pr" "p_vhost pr' = p_vhost pr"
    by (subst sb [unfolded same_but_addr_def], simp)+
  then have w: "proc_wf s p pr'"
    using inv_at_wf [OF inv] same_but_addrD [OF sb] by (simp add: proc_wf_def idle_def)
  have sp: "script_procs s' = script_procs s" using r by (simp add: same_rest_def script_procs_def)
  have "proc_wf s' q qr" if "((s_heap s)(p \<mapsto> pr')) q = Some qr" for q qr
  proof -
    have "proc_wf s q qr" using that w I by (cases "q = p") auto
    then show ?thesis using a sp r by (auto simp: proc_wf_def same_rest_def)
  qed
  then show ?thesis
    using I t l r sp rest_count [OF r] unfolding main_inv_def h by (auto simp: same_rest_def)
qed

definition addr_ok :: "session_info \<Rightarrow> bool" where
  "addr_ok m \<longleftrightarrow> (case in_remote_addr m of None \<Rightarrow> True | Some a \<Rightarrow> length a = SIZEOF_SIN \<or> length a \<ge> 24)"

lemma update_ip_Some: "length a = SIZEOF_SIN \<or> length a \<ge> 24 \<Longrightarrow> proc_table_update_ip env s p pr a \<noteq> None"
  by (auto simp: proc_table_update_ip_def Let_def human_addr2_faults_def generic_faults_def)

lemma info_remote_addr_post:
  assumes inv: "inv_at H L s p pr" and e: "env_ok H L env" and ok: "b \<Longrightarrow> addr_ok m" and hp: "s_heap s p \<noteq> None"
  shows "post b (info_remote_addr env s p pr m) (\<lambda>(pr', s'). inv_at H L s' p pr' \<and> s_heap s' p \<noteq> None)"
proof (cases "\<exists>a. in_remote_addr m = Some a \<and> length a \<le> 128")
  case False
  then show ?thesis using assms by (auto simp: info_remote_addr_def split: option.split)
next
  case True
  then obtain a where a: "in_remote_addr m = Some a" "length a \<le> 128" by blast
  have t: "tables_ok (te_hash (me_table env)) (put_proc p pr s)"
    using inv e by (simp add: inv_at_def main_inv_def env_ok_def)
  let ?rest = "\<lambda>s. bind_out (or_crash (s_heap s p)) (\<lambda>pr.
      case check_if_banned (me_hash env) (me_ban_alloc env) (se_now (me_session env)) (se_now (me_session env))
             (s_ban s) (p_remote_addr pr) (p_remote_addr_len pr) of
        (banned, ban) \<Rightarrow>
          (let s = s\<lparr>s_ban := ban\<rparr>
           in Done (if banned \<noteq> 0 \<and> p_pid pr \<noteq> - 1 \<and> p_pid pr \<noteq> 0 then kill_proc pr s else (pr, s))))"
  have rest: "post b (?rest s1) (\<lambda>(pr', s'). inv_at H L s' p pr' \<and> s_heap s' p \<noteq> None)"
    if u: "proc_table_update_ip (me_table env) (put_proc p pr s) p pr a = Some (r, s1)" for r s1
  proof -
    obtain pr1 where f: "tables_ok (te_hash (me_table env)) s1" "same_rest (put_proc p pr s) s1" "all_ptrs s1 \<subseteq> all_ptrs s"
      "s_heap s1 = (s_heap s)(p \<mapsto> pr1)" "same_but_addr pr pr1"
      using proc_table_update_ip_ok [OF t _ u] by (auto simp: all_ptrs_def)
    have "main_inv H L s1" using inv_at_addr [OF inv _ f(2-5)] f(1) e by (simp add: env_ok_def)
    then have i: "inv_at H L s1 p pr1" using f(4) main_inv_put [of s1 p pr1] by simp
    then have "inv_at H L (s1\<lparr>s_ban := bn\<rparr>) p pr1" "inv_at H L (emits xs (s1\<lparr>s_ban := bn\<rparr>)) p (pr1\<lparr>p_pid_killed := k\<rparr>)" for bn xs k
      by (auto intro!: inv_at_frame [OF i] simp: core_eq_def links_eq_def emits_def)
    then show ?thesis using f(4) by (auto simp: or_crash_def Let_def kill_proc_def emits_def split: prod.split)
  qed
  have "post b (bind_out (or_crash (proc_table_update_ip (me_table env) (put_proc p pr s) p pr a)) (\<lambda>(_, s). ?rest s))
      (\<lambda>(pr', s'). inv_at H L s' p pr' \<and> s_heap s' p \<noteq> None)"
  proof (rule post_bind [OF post_crash], assumption)
    assume b
    then show "proc_table_update_ip (me_table env) (put_proc p pr s) p pr a \<noteq> None"
      using ok a(1) by (intro update_ip_Some) (simp add: addr_ok_def)
  qed (use rest in auto)
  then show ?thesis using a by (simp add: info_remote_addr_def)
qed

lemma session_info_cmd_post:
  assumes inv: "inv_at H L s p pr" and e: "env_ok H L env" and ok: "b \<Longrightarrow> addr_ok m" and hp: "s_heap s p \<noteq> None"
  shows "post b (session_info_cmd env s p pr m) (\<lambda>(pr', s'). inv_at H L s' p pr' \<and> s_heap s' p \<noteq> None)"
  unfolding session_info_cmd_def
proof (rule post_bind [OF info_hostname_post], rule inv_at_frame [OF inv], simp, simp, clarify, goal_cases)
  case (1 pr1 s1)
  have "post b (bind_out (info_remote_addr env s1 p pr1 m) (\<lambda>(pr, s). Done (info_our_addr m pr, s)))
      (\<lambda>(pr', s'). inv_at H L s' p pr' \<and> s_heap s' p \<noteq> None)"
    using 1 hp by (intro post_bind [OF info_remote_addr_post [OF _ e ok]]) (auto intro: inv_at_frame [OF _ links_refl info_our_addr_core])
  then show ?case using 1 hp by simp
qed

definition benign :: "main_env \<Rightarrow> worker_in \<Rightarrow> bool" where
  "benign env inp \<longleftrightarrow> dup_ok env \<and>
     (case inp of Message (CMD_SESSION_INFO (Some m)) \<Rightarrow> addr_ok m | _ \<Rightarrow> True)"

lemma set_tun_mtu_core: "core_eq pr (snd (set_tun_mtu env pr mtu))"
  by (simp add: set_tun_mtu_def core_eq_def)

lemma ban_ip_cmd_links: "ban_ip_cmd env s p ip score = (ret, s') \<Longrightarrow> links_eq s s'"
  by (auto simp: ban_ip_cmd_def split: prod.splits dest!: send_to_worker_links intro: links_trans [OF links_emit(4)])

lemma handle_worker_commands_post:
  assumes inv: "inv_at H L s p pr" and e: "env_ok H L env" and ok: "b \<Longrightarrow> benign env inp" and hp: "s_heap s p \<noteq> None"
  shows "post b (handle_worker_commands env s p pr inp) (\<lambda>(ret, pr', s'). inv_at H L s' p pr' \<and> s_heap s' p \<noteq> None)"
proof -
  have ban: "post b (case ban_ip_cmd env s p ip score of (ret, s) \<Rightarrow> Done (ret, pr, s))
      (\<lambda>(ret, pr', s'). inv_at H L s' p pr' \<and> s_heap s' p \<noteq> None)" for ip score
    using inv_at_frame [OF inv _ core_refl] hp ban_ip_cmd_links [of env s p ip score]
    by (auto split: prod.split simp: links_heap)
  have mtu: "inv_at H L s p (snd (set_tun_mtu env pr mtu))" for mtu
    by (rule inv_at_frame [OF inv links_refl set_tun_mtu_core])
  have info: "post b (bind_out (session_info_cmd env s p pr m) (\<lambda>(pr, s). Done (0, pr, s)))
      (\<lambda>(ret, pr', s'). inv_at H L s' p pr' \<and> s_heap s' p \<noteq> None)"
    if "inp = Message (CMD_SESSION_INFO (Some m))" for m
    using ok hp that by (intro post_bind [OF session_info_cmd_post [OF inv e]]) (auto simp: benign_def)
  have ck: "post b (cookie_cmd env s p pr c) (\<lambda>(ret, pr', s'). inv_at H L s' p pr' \<and> s_heap s' p \<noteq> None)"
    if "p_status pr = PS_AUTH_INACTIVE" for c
    using ok hp that by (intro cookie_cmd_post [OF inv _ e]) (simp_all add: benign_def)
  show ?thesis
    unfolding handle_worker_commands_def
    using inv hp mtu ban info ck by (auto split: worker_in.split worker_cmd.split option.split)
qed

end
