(* ===== verification/MainUdp.thy ===== *)
theory MainUdp
  imports MainServer
begin

text \<open>
  The dispatch of datagrams in the main process (\<^verbatim>\<open>src/src/main.c\<close>, \<open>get_session_id\<close> and
  \<open>forward_udp_to_owner\<close>): a DTLS client hello is searched for the identifier of a session, in the
  application identifier extension or in the legacy session identifier, and the socket is handed to the
  worker that owns the session.

  The buffer of the server, \<^verbatim>\<open>msg_buffer\<close>, is longer than the datagram it holds: the model keeps the
  whole buffer and the size of the datagram, since the code reads beyond the datagram at some places.
\<close>

section \<open>The identifier of a client hello\<close>

abbreviation MSG_BUFFER_SIZE :: nat where "MSG_BUFFER_SIZE \<equiv> 16 * 1024"
abbreviation TLS_EXT_APP_ID :: nat where "TLS_EXT_APP_ID \<equiv> 48018"
abbreviation RECORD_PAYLOAD_POS :: nat where "RECORD_PAYLOAD_POS \<equiv> 13"
abbreviation HANDSHAKE_SESSION_ID_POS :: nat where "HANDSHAKE_SESSION_ID_POS \<equiv> 46"
abbreviation GNUTLS_MAX_SESSION_ID :: nat where "GNUTLS_MAX_SESSION_ID \<equiv> 32"
abbreviation UDP_FD_RESEND_TIME :: time_t where "UDP_FD_RESEND_TIME \<equiv> 3"

definition get16 :: "bytes \<Rightarrow> nat \<Rightarrow> nat" where
  "get16 buf pos = unat (buf ! pos) * 256 + unat (buf ! (pos + 1))"

text \<open>The position after a vector, or \<^term>\<open>None\<close> for the jump to the label \<^verbatim>\<open>fallback\<close>.\<close>

definition SKIP16 :: "bytes \<Rightarrow> nat \<Rightarrow> nat \<Rightarrow> nat option" where
  "SKIP16 buf pos tot =
     (if pos + 2 > tot then None
      else if pos + 2 + get16 buf pos > tot then None
      else Some (pos + 2 + get16 buf pos))"

definition SKIP8 :: "bytes \<Rightarrow> nat \<Rightarrow> nat \<Rightarrow> nat option" where
  "SKIP8 buf pos tot =
     (if pos + 1 > tot then None
      else if pos + 1 + unat (buf ! pos) > tot then None
      else Some (pos + 1 + unat (buf ! pos)))"

text \<open>The loop over the extensions. \<open>Bad_Read\<close> is a read outside of the buffer: the length of the
  identifier is read without a check that there is a byte left.\<close>

datatype ext_scan = Fallback | Invalid | Bad_Read | Found nat nat

definition read_app_id :: "bytes \<Rightarrow> nat \<Rightarrow> nat \<Rightarrow> ext_scan" where
  "read_app_id buf n pos =
     (if pos + 2 > n then Invalid
      else if pos + 2 + get16 buf pos > n then Invalid
      else
        (let pos = pos + 2 in
         if pos \<ge> length buf then Bad_Read
         else if pos + 1 + unat (buf ! pos) > n then Invalid
         else Found (pos + 1) (unat (buf ! pos))))"

function ext_loop :: "bytes \<Rightarrow> nat \<Rightarrow> nat \<Rightarrow> ext_scan" where
  "ext_loop buf n pos =
     (if pos < n then
        if pos + 4 > n then Fallback
        else if get16 buf pos \<noteq> TLS_EXT_APP_ID then
          (case SKIP16 buf (pos + 2) n of None \<Rightarrow> Fallback | Some pos \<Rightarrow> ext_loop buf n pos)
        else read_app_id buf n (pos + 2)
      else Fallback)"
  by pat_completeness auto
termination
  by (relation "measure (\<lambda>(buf, n, pos). n - pos)") (auto simp: SKIP16_def split: if_splits)

declare ext_loop.simps [simp del]

definition hello_scan :: "bytes \<Rightarrow> nat \<Rightarrow> ext_scan" where
  "hello_scan buf n =
     (case SKIP8 buf (RECORD_PAYLOAD_POS + HANDSHAKE_SESSION_ID_POS) n of None \<Rightarrow> Fallback
      | Some pos \<Rightarrow> (case SKIP8 buf pos n of None \<Rightarrow> Fallback
      | Some pos \<Rightarrow> (case SKIP16 buf pos n of None \<Rightarrow> Fallback
      | Some pos \<Rightarrow> (case SKIP8 buf pos n of None \<Rightarrow> Fallback
      | Some pos \<Rightarrow> if pos + 2 > n then Fallback else ext_loop buf n (pos + 2)))))"

datatype hello_id = No_Id | Hello_Id bytes | Hello_Bad_Read

definition get_session_id :: "main_server \<Rightarrow> bytes \<Rightarrow> nat \<Rightarrow> hello_id" where
  "get_session_id s buf n =
     (let fallback = Hello_Id (bslice (RECORD_PAYLOAD_POS + HANDSHAKE_SESSION_ID_POS + 1)
                        (unat (buf ! (RECORD_PAYLOAD_POS + HANDSHAKE_SESSION_ID_POS))) buf)
      in if n < RECORD_PAYLOAD_POS + HANDSHAKE_SESSION_ID_POS + GNUTLS_MAX_SESSION_ID + 2 then No_Id
         else if \<not> cf_dtls_psk (getconfig s) then fallback
         else (case hello_scan buf n of
                 Fallback \<Rightarrow> fallback
               | Invalid \<Rightarrow> No_Id
               | Bad_Read \<Rightarrow> Hello_Bad_Read
               | Found pos k \<Rightarrow> Hello_Id (bslice pos k buf)))"

section \<open>Forwarding\<close>

text \<open>A datagram: the result of \<^verbatim>\<open>recvfrom\<close>, the contents of the buffer after it, the address of the client,
  the time, and the outcome of \<^verbatim>\<open>socket\<close> and \<^verbatim>\<open>connect\<close>.\<close>

record udp_in =
  ui_ret :: int
  ui_buf :: bytes
  ui_cli_addr :: sockaddr
  ui_cli_addr_size :: nat
  ui_now :: time_t
  ui_sfd :: int
  ui_connect :: bool

definition bad_version :: "bytes \<Rightarrow> bool" where
  "bad_version b \<longleftrightarrow> b ! 1 \<noteq> 254 \<and> (b ! 1 \<noteq> 1 \<and> b ! 2 \<noteq> 0) \<and>
     b ! RECORD_PAYLOAD_POS \<noteq> 254 \<and> (b ! RECORD_PAYLOAD_POS \<noteq> 0 \<and> b ! (RECORD_PAYLOAD_POS + 1) \<noteq> 0)"

definition default_mv :: "main_server \<Rightarrow> main_vhost" where
  "default_mv s = last (s_vconfig s)"

text \<open>The search for the process, and whether it is by the address only.\<close>

datatype udp_target = Drop | Over_Read | To "proc_ptr option" bool

definition udp_target_of :: "main_env \<Rightarrow> main_server \<Rightarrow> udp_in \<Rightarrow> udp_target" where
  "udp_target_of env s u =
     (let b = ui_buf u; n = nat (ui_ret u) in
      if ui_ret u < int RECORD_PAYLOAD_POS then Drop
      else if bad_version b then Drop
      else if b ! 0 \<noteq> 22 then
        if mv_unix_conn_file (default_mv s) then Drop
        else To (proc_search_single_ip (me_hash env) s (ui_cli_addr u) (ui_cli_addr_size u)) True
      else (case get_session_id s b n of
              No_Id \<Rightarrow> Drop
            | Hello_Bad_Read \<Rightarrow> Over_Read
            | Hello_Id i \<Rightarrow> To (proc_search_dtls_id (me_hash env) s i) False))"

definition pass_socket :: "main_env \<Rightarrow> main_server \<Rightarrow> udp_in \<Rightarrow> proc_ptr \<Rightarrow> proc \<Rightarrow> bool \<Rightarrow> main_server outcome" where
  "pass_socket env s u p pr match_ip_only =
     (if ui_now u - p_udp_fd_receive_time pr \<le> UDP_FD_RESEND_TIME then Done s
      else if ui_sfd u < 0 then Done s
      else if \<not> ui_connect u then Done (emit (Close_Fd (ui_sfd u)) s)
      else
        (let s = (if match_ip_only then s
                  else snd (proc_table_update_dtls_ip (me_table env) s p pr (ui_cli_addr u) (ui_cli_addr_size u)));
             (ret, s) = send_to_worker env (Udp_Fd p (take (nat (ui_ret u)) (ui_buf u)) (\<not> match_ip_only)) s
         in if ret < 0 then Done (emit (Close_Fd (ui_sfd u)) s)
            else bind_out (or_crash (s_heap s p)) (\<lambda>pr.
              Done (emit (Close_Fd (ui_sfd u)) (put_proc p (pr\<lparr>p_udp_fd_receive_time := ui_now u\<rparr>) s)))))"

definition forward_udp_to_owner :: "main_env \<Rightarrow> main_server \<Rightarrow> udp_in \<Rightarrow> (int \<times> main_server) outcome" where
  "forward_udp_to_owner env s u =
     (if ui_ret u < 0 then Done (- 1, s)
      else (case udp_target_of env s u of
              Drop \<Rightarrow> Done (0, s)
            | Over_Read \<Rightarrow> Crash
            | To None _ \<Rightarrow> Done (0, s)
            | To (Some p) ip_only \<Rightarrow>
                bind_out (or_crash (s_heap s p)) (\<lambda>pr.
                bind_out (pass_socket env s u p pr ip_only) (\<lambda>s. Done (0, s)))))"

section \<open>Reading a hello\<close>

definition be16 :: "nat \<Rightarrow> bytes" where
  "be16 k = [of_nat (k div 256), of_nat (k mod 256)]"

definition vec8 :: "bytes \<Rightarrow> bytes" where
  "vec8 x = of_nat (length x) # x"

definition vec16 :: "bytes \<Rightarrow> bytes" where
  "vec16 x = be16 (length x) @ x"

lemma length_vec [simp]: "length (be16 k) = 2" "length (vec8 x) = Suc (length x)" "length (vec16 x) = length x + 2"
  by (simp_all add: be16_def vec8_def vec16_def)

lemma get16_be16: "k < 65536 \<Longrightarrow> get16 (pre @ be16 k @ rest) (length pre) = k"
  by (simp add: get16_def be16_def nth_append unat_of_nat)

lemma SKIP8_vec: "length x < 256 \<Longrightarrow> length pre + Suc (length x) \<le> n \<Longrightarrow>
    SKIP8 (pre @ vec8 x @ rest) (length pre) n = Some (length (pre @ vec8 x))"
  by (simp add: SKIP8_def vec8_def nth_append unat_of_nat)

lemma SKIP16_vec: "length x < 65536 \<Longrightarrow> length pre + (length x + 2) \<le> n \<Longrightarrow>
    SKIP16 (pre @ vec16 x @ rest) (length pre) n = Some (length (pre @ vec16 x))"
  using get16_be16 [of "length x" pre "x @ rest"] by (simp add: SKIP16_def vec16_def)

text \<open>The extensions before the identifier.\<close>

definition ext_bytes :: "nat \<times> bytes \<Rightarrow> bytes" where
  "ext_bytes e = be16 (fst e) @ vec16 (snd e)"

definition ext_ok :: "nat \<times> bytes \<Rightarrow> bool" where
  "ext_ok e \<longleftrightarrow> fst e < 65536 \<and> fst e \<noteq> TLS_EXT_APP_ID \<and> length (snd e) < 65536"

lemma ext_loop_skip:
  assumes "list_all ext_ok es" and "length (pre @ concat (map ext_bytes es)) \<le> n"
  shows "ext_loop (pre @ concat (map ext_bytes es) @ rest) n (length pre) =
    ext_loop (pre @ concat (map ext_bytes es) @ rest) n (length (pre @ concat (map ext_bytes es)))"
  using assms
proof (induction es arbitrary: pre)
  case (Cons e es)
  obtain t x where e: "e = (t, x)" by (cases e)
  have ok: "t < 65536" "t \<noteq> TLS_EXT_APP_ID" "length x < 65536" using Cons.prems(1) by (simp_all add: ext_ok_def e)
  let ?buf = "pre @ concat (map ext_bytes (e # es)) @ rest"
  let ?pre = "pre @ ext_bytes e"
  have g: "get16 ?buf (length pre) = t"
    using get16_be16 [OF ok(1), of pre "vec16 x @ concat (map ext_bytes es) @ rest"] by (simp add: ext_bytes_def e)
  have s: "SKIP16 ?buf (length pre + 2) n = Some (length ?pre)"
    using SKIP16_vec [OF ok(3), of "pre @ be16 t" n "concat (map ext_bytes es) @ rest"] Cons.prems(2)
    by (simp add: ext_bytes_def e)
  have "ext_loop ?buf n (length pre) = ext_loop ?buf n (length ?pre)"
    using Cons.prems(2) g s ok(2) by (subst ext_loop.simps) (simp add: ext_bytes_def e)
  also have "\<dots> = ext_loop ?buf n (length (pre @ concat (map ext_bytes (e # es))))"
    using Cons.IH [of ?pre] Cons.prems by simp
  finally show ?case .
qed simp

text \<open>A hello: the record and handshake headers with the version and the random, the vectors, and the
  extensions.\<close>

record hello =
  h_head :: bytes
  h_sid :: bytes
  h_cookie :: bytes
  h_suites :: bytes
  h_compr :: bytes
  h_ext_len :: nat
  h_exts :: "(nat \<times> bytes) list"
  h_app_id :: bytes
  h_more :: bytes

definition hello_bytes :: "hello \<Rightarrow> bytes" where
  "hello_bytes h = h_head h @ vec8 (h_sid h) @ vec8 (h_cookie h) @ vec16 (h_suites h) @ vec8 (h_compr h) @
     be16 (h_ext_len h) @ concat (map ext_bytes (h_exts h)) @ be16 TLS_EXT_APP_ID @ vec16 (vec8 (h_app_id h)) @ h_more h"

definition hello_ok :: "hello \<Rightarrow> bool" where
  "hello_ok h \<longleftrightarrow> length (h_head h) = 59 \<and> length (h_sid h) < 256 \<and> length (h_cookie h) < 256 \<and>
     length (h_suites h) < 65536 \<and> length (h_compr h) < 256 \<and> list_all ext_ok (h_exts h) \<and> length (h_app_id h) < 256"

lemma read_app_id_eq:
  assumes "length x < 256" and "length (pre @ vec16 (vec8 x)) \<le> n"
  shows "read_app_id (pre @ vec16 (vec8 x) @ rest) n (length pre) = Found (length pre + 3) (length x)"
proof -
  have g: "get16 (pre @ vec16 (vec8 x) @ rest) (length pre) = Suc (length x)"
    using get16_be16 [of "Suc (length x)" pre "vec8 x @ rest"] assms(1) by (simp add: vec16_def)
  have "(pre @ vec16 (vec8 x) @ rest) ! (length pre + 2) = of_nat (length x)"
    by (simp add: vec16_def vec8_def be16_def nth_append)
  then show ?thesis using assms by (simp add: read_app_id_def g Let_def unat_of_nat)
qed

lemma hello_scan_eq:
  assumes ok: "hello_ok h"
  shows "\<exists>pos. hello_scan (hello_bytes h @ stale) (length (hello_bytes h)) = Found pos (length (h_app_id h)) \<and>
    bslice pos (length (h_app_id h)) (hello_bytes h @ stale) = h_app_id h"
proof -
  define buf where "buf = hello_bytes h @ stale"
  define n where "n = length (hello_bytes h)"
  define p1 where "p1 = h_head h @ vec8 (h_sid h)"
  define p2 where "p2 = p1 @ vec8 (h_cookie h)"
  define p3 where "p3 = p2 @ vec16 (h_suites h)"
  define p4 where "p4 = p3 @ vec8 (h_compr h)"
  define p5 where "p5 = p4 @ be16 (h_ext_len h)"
  define p6 where "p6 = p5 @ concat (map ext_bytes (h_exts h))"
  define p7 where "p7 = p6 @ be16 TLS_EXT_APP_ID"
  let ?a = "vec16 (vec8 (h_app_id h))"
  note p = p1_def p2_def p3_def p4_def p5_def p6_def p7_def
  have b: "buf = p7 @ ?a @ h_more h @ stale" by (simp add: p buf_def hello_bytes_def)
  have n: "n = length p7 + length ?a + length (h_more h)" by (simp add: p n_def hello_bytes_def)
  note O = ok [unfolded hello_ok_def]
  have "SKIP8 buf 59 n = Some (length p1)"
    using SKIP8_vec [of "h_sid h" "h_head h" n] O by (simp add: b n p)
  moreover have "SKIP8 buf (length p1) n = Some (length p2)"
    using SKIP8_vec [of "h_cookie h" p1 n] O by (simp add: b n p)
  moreover have "SKIP16 buf (length p2) n = Some (length p3)"
    using SKIP16_vec [of "h_suites h" p2 n] O by (simp add: b n p)
  moreover have "SKIP8 buf (length p3) n = Some (length p4)"
    using SKIP8_vec [of "h_compr h" p3 n] O by (simp add: b n p)
  moreover have "ext_loop buf n (length p5) = ext_loop buf n (length p6)"
    using ext_loop_skip [of "h_exts h" p5 n "be16 TLS_EXT_APP_ID @ ?a @ h_more h @ stale"] O n by (simp add: b p7_def p6_def)
  moreover have "ext_loop buf n (length p6) = read_app_id buf n (length p7)"
    using get16_be16 [of TLS_EXT_APP_ID p6 "?a @ h_more h @ stale"] n
    by (subst ext_loop.simps) (simp add: b p7_def)
  moreover have "read_app_id buf n (length p7) = Found (length p7 + 3) (length (h_app_id h))"
    using read_app_id_eq [of "h_app_id h" p7 n] O n by (simp add: b)
  moreover have "length p5 = length p4 + 2" "length p4 + 2 \<le> n" using n by (simp_all add: p)
  ultimately have "hello_scan buf n = Found (length p7 + 3) (length (h_app_id h))"
    by (simp add: hello_scan_def)
  moreover have "bslice (length p7 + 3) (length (h_app_id h)) buf = h_app_id h"
    by (simp add: b bslice_def vec16_def vec8_def be16_def)
  ultimately show ?thesis unfolding buf_def n_def by blast
qed

text \<open>C19. The application identifier of a client hello is read back exactly: for every well-formed hello
  with that extension, whatever other extensions come before and whatever follows it in the buffer, a
  server with PSK negotiation finds the identifier.\<close>

theorem app_id_round_trip:
  assumes "hello_ok h" and "cf_dtls_psk (getconfig s)" and "length (hello_bytes h) \<ge> 93"
  shows "get_session_id s (hello_bytes h @ stale) (length (hello_bytes h)) = Hello_Id (h_app_id h)"
  using hello_scan_eq [OF assms(1), of stale] assms(2,3) by (auto simp: get_session_id_def Let_def)

text \<open>The PSK identity of a hello without other extensions.\<close>

definition demo_hello :: hello where
  "demo_hello = \<lparr>h_head = replicate 59 3, h_sid = [], h_cookie = [1, 2], h_suites = [192, 43], h_compr = [0], h_ext_len = 44,
     h_exts = [(10, [0, 2, 0, 23])], h_app_id = replicate 32 5, h_more = []\<rparr>"

theorem app_id_round_trip_witness:
  "get_session_id demo_main (hello_bytes demo_hello @ [9]) (length (hello_bytes demo_hello)) = Hello_Id (replicate 32 5)"
proof -
  have "hello_ok demo_hello" by (simp add: hello_ok_def demo_hello_def ext_ok_def)
  moreover have "cf_dtls_psk (getconfig demo_main)" by (simp add: getconfig_def demo_main_def MainTypes.demo_vhost_def MainTypes.demo_cfg_def)
  moreover have "length (hello_bytes demo_hello) \<ge> 93" by (simp add: hello_bytes_def demo_hello_def ext_bytes_def)
  ultimately show ?thesis using app_id_round_trip [of demo_hello demo_main "[9]"] by (simp add: demo_hello_def)
qed

section \<open>Safety of the reads\<close>

lemma ext_loop_found:
  "(ext_loop buf n pos = Found q k \<longrightarrow> q + k \<le> n) \<and> (n < length buf \<longrightarrow> ext_loop buf n pos \<noteq> Bad_Read)"
proof (induction buf n pos rule: ext_loop.induct)
  case (1 buf n pos)
  have r: "(read_app_id buf n (pos + 2) = Found q k \<longrightarrow> q + k \<le> n) \<and> (n < length buf \<longrightarrow> read_app_id buf n (pos + 2) \<noteq> Bad_Read)"
    by (auto simp: read_app_id_def Let_def)
  show ?case using 1 r by (subst (1 2) ext_loop.simps) (auto split: option.split)
qed

lemma hello_scan_found:
  "hello_scan buf n = Found q k \<Longrightarrow> q + k \<le> n" "n < length buf \<Longrightarrow> hello_scan buf n \<noteq> Bad_Read"
  using ext_loop_found by (auto simp: hello_scan_def split: option.splits if_splits)

section \<open>The owner of a datagram\<close>

lemma update_dtls_ip_out: "s_out (snd (proc_table_update_dtls_ip env s p pr a k)) = s_out s"
  by (simp add: proc_table_update_dtls_ip_def Let_def)

lemma pass_socket_out:
  assumes "pass_socket env s u p pr m = Done s'"
  shows "\<exists>outs. s_out s' = s_out s @ outs \<and>
    (\<forall>q d h. Udp_Fd q d h \<in> set outs \<longrightarrow>
       q = p \<and> d = take (nat (ui_ret u)) (ui_buf u) \<and> h = (\<not> m) \<and> ui_now u - p_udp_fd_receive_time pr > UDP_FD_RESEND_TIME)"
  using assms
  by (auto simp: pass_socket_def send_to_worker_def emits_def update_dtls_ip_out Let_def bind_out_Done split: if_splits)

lemma udp_target_ip:
  "udp_target_of env s u = To (Some p) True \<Longrightarrow>
   \<exists>pr. s_heap s p = Some pr \<and> local_ip_cmp pr (ui_cli_addr u) (ui_cli_addr_size u)"
  by (auto simp: udp_target_of_def Let_def proc_search_single_ip_def split: if_splits hello_id.splits option.splits dest!: find_procD)

lemma udp_target_id:
  "udp_target_of env s u = To (Some p) False \<Longrightarrow>
   \<exists>pr. s_heap s p = Some pr \<and> get_session_id s (ui_buf u) (nat (ui_ret u)) = Hello_Id (p_dtls_session_id pr)"
  by (auto simp: udp_target_of_def Let_def proc_search_dtls_id_def dtls_id_cmp_def memcmp_eq_0_iff
      split: if_splits hello_id.splits dest!: find_procD)

text \<open>C20. A datagram and its socket are only handed to the process that owns them: a client hello to a
  live process whose DTLS session identifier is the one the hello carries, any other packet to a process
  whose client has the source address, and in both cases not within three seconds of the last time.\<close>

theorem udp_forwarded_to_owner:
  assumes "forward_udp_to_owner env s u = Done (ret, s')"
    and "Udp_Fd p d hello \<in> set (drop (length (s_out s)) (s_out s'))"
  shows "d = take (nat (ui_ret u)) (ui_buf u) \<and>
    (\<exists>pr. s_heap s p = Some pr \<and> ui_now u - p_udp_fd_receive_time pr > UDP_FD_RESEND_TIME \<and>
      (if hello then get_session_id s (ui_buf u) (nat (ui_ret u)) = Hello_Id (p_dtls_session_id pr)
       else local_ip_cmp pr (ui_cli_addr u) (ui_cli_addr_size u)))"
proof -
  have "\<exists>q m pr. udp_target_of env s u = To (Some q) m \<and> s_heap s q = Some pr \<and> pass_socket env s u q pr m = Done s'"
    using assms by (auto simp: forward_udp_to_owner_def bind_out_Done split: if_splits udp_target.splits option.splits)
  then obtain q m pr where t: "udp_target_of env s u = To (Some q) m" "s_heap s q = Some pr" "pass_socket env s u q pr m = Done s'"
    by blast
  obtain outs where "s_out s' = s_out s @ outs" and o: "\<And>q' d h. Udp_Fd q' d h \<in> set outs \<Longrightarrow>
      q' = q \<and> d = take (nat (ui_ret u)) (ui_buf u) \<and> h = (\<not> m) \<and> ui_now u - p_udp_fd_receive_time pr > UDP_FD_RESEND_TIME"
    using pass_socket_out [OF t(3)] by blast
  then have "Udp_Fd p d hello \<in> set outs" using assms(2) by simp
  note f = o [OF this]
  show ?thesis
    using f t udp_target_ip [of env s u p] udp_target_id [of env s u p] by (cases m) auto
qed

lemma search_dtls_id_unique:
  assumes t: "tables_ok H s" and p: "p \<in> ptrs (s_db_dtls_id s)" and h: "s_heap s p = Some pr"
    and u: "\<And>q qr. q \<in> ptrs (s_db_dtls_id s) \<Longrightarrow> s_heap s q = Some qr \<Longrightarrow> p_dtls_session_id qr = p_dtls_session_id pr \<Longrightarrow> q = p"
  shows "proc_search_dtls_id H s (p_dtls_session_id pr) = Some p"
proof -
  let ?i = "p_dtls_session_id pr"
  have "(rehash_dtls_id H pr, p) \<in> set (s_db_dtls_id s)"
    using t p h by (auto simp: tables_ok_def tbl_ok_def ptrs_def)
  then have e: "(H ?i, p) \<in> set (s_db_dtls_id s)" by (simp add: rehash_dtls_id_def)
  have "proc_search_dtls_id H s ?i \<noteq> None"
    using htable_get_None [OF _ e] h by (fastforce simp: proc_search_dtls_id_def find_proc_def dtls_id_cmp_def memcmp_eq_0_iff)
  then obtain q where q: "proc_search_dtls_id H s ?i = Some q" by blast
  then have "q = p"
    using u by (auto simp: proc_search_dtls_id_def dtls_id_cmp_def memcmp_eq_0_iff dest!: find_procD)
  with q show ?thesis by simp
qed

lemma update_dtls_ip_proc:
  assumes "tables_ok (te_hash env) s" and "s_heap s p = Some pr"
  shows "\<exists>pr'. s_heap (snd (proc_table_update_dtls_ip env s p pr a k)) p = Some pr'"
  using proc_table_update_dtls_ip_ok [OF assms, of a k] by (cases "proc_table_update_dtls_ip env s p pr a k") auto

lemma hello_target:
  assumes "hello_ok h" and "cf_dtls_psk (getconfig s)" and "length (hello_bytes h) \<ge> 93"
    and "h_head h ! 0 = 22" and "h_head h ! 1 = 254"
    and "ui_buf u = hello_bytes h @ stale" and "ui_ret u = int (length (hello_bytes h))"
    and "proc_search_dtls_id (me_hash env) s (h_app_id h) = Some p"
  shows "udp_target_of env s u = To (Some p) False"
proof -
  have "length (h_head h) = 59" using assms(1) by (simp add: hello_ok_def)
  then have "ui_buf u ! 0 = 22" "ui_buf u ! 1 = 254" using assms(4-6) by (simp_all add: hello_bytes_def nth_append)
  moreover have "get_session_id s (ui_buf u) (length (hello_bytes h)) = Hello_Id (h_app_id h)"
    using hello_scan_eq [OF assms(1), of stale] assms(2,3,6) by (auto simp: get_session_id_def Let_def)
  ultimately show ?thesis using assms(3,7,8) by (simp add: udp_target_of_def bad_version_def)
qed

lemma forward_delivers:
  assumes "udp_target_of env s u = To (Some p) False" and "tables_ok (me_hash env) s" and "s_heap s p = Some pr" and "ui_ret u \<ge> 0"
    and "ui_now u - p_udp_fd_receive_time pr > UDP_FD_RESEND_TIME" and "ui_sfd u \<ge> 0" and "ui_connect u"
    and "me_send env (Udp_Fd p (take (nat (ui_ret u)) (ui_buf u)) True) \<ge> 0"
  shows "\<exists>s' pr'. forward_udp_to_owner env s u = Done (0, s') \<and>
    s_out s' = s_out s @ [Udp_Fd p (take (nat (ui_ret u)) (ui_buf u)) True, Close_Fd (ui_sfd u)] \<and>
    s_heap s' p = Some pr' \<and> p_udp_fd_receive_time pr' = ui_now u"
proof -
  let ?s = "snd (proc_table_update_dtls_ip (me_table env) s p pr (ui_cli_addr u) (ui_cli_addr_size u))"
  obtain pr1 where pr1: "s_heap ?s p = Some pr1" using update_dtls_ip_proc [OF assms(2,3)] by blast
  then show ?thesis
    using assms
    by (simp add: forward_udp_to_owner_def or_crash_def pass_socket_def send_to_worker_def emits_def update_dtls_ip_out Let_def)
qed

text \<open>C18. A client hello reaches the worker of its session: when the application identifier is that of
  exactly one process of the table, and the last socket was handed over more than three seconds ago, the
  worker of the process gets the socket and the whole datagram, and the time is noted.\<close>

theorem hello_reaches_owner:
  assumes "hello_ok h" and "cf_dtls_psk (getconfig s)" and "length (hello_bytes h) \<ge> 93"
    and "h_head h ! 0 = 22" and "h_head h ! 1 = 254"
    and "ui_buf u = hello_bytes h @ stale" and "ui_ret u = int (length (hello_bytes h))"
    and "tables_ok (me_hash env) s" and "p \<in> ptrs (s_db_dtls_id s)" and "s_heap s p = Some pr"
    and "p_dtls_session_id pr = h_app_id h"
    and "\<And>q qr. q \<in> ptrs (s_db_dtls_id s) \<Longrightarrow> s_heap s q = Some qr \<Longrightarrow> p_dtls_session_id qr = h_app_id h \<Longrightarrow> q = p"
    and "ui_now u - p_udp_fd_receive_time pr > UDP_FD_RESEND_TIME" and "ui_sfd u \<ge> 0" and "ui_connect u"
    and "me_send env (Udp_Fd p (hello_bytes h) True) \<ge> 0"
  shows "\<exists>s' pr'. forward_udp_to_owner env s u = Done (0, s') \<and>
    s_out s' = s_out s @ [Udp_Fd p (hello_bytes h) True, Close_Fd (ui_sfd u)] \<and>
    s_heap s' p = Some pr' \<and> p_udp_fd_receive_time pr' = ui_now u"
proof -
  have "proc_search_dtls_id (me_hash env) s (h_app_id h) = Some p"
    using search_dtls_id_unique [OF assms(8-10)] assms(11,12) by simp
  then show ?thesis
    using forward_delivers [OF hello_target [OF assms(1-7)] assms(8,10) _ assms(13-15)] assms(6,7,16) by simp
qed

section \<open>A server with one client\<close>

definition demo_main_env :: main_env where
  "demo_main_env = \<lparr>me_session = \<lparr>se_open = (\<lambda>_. Send_Failed), se_close = (\<lambda>_. Send_Failed),
        se_dup = \<lparr>de_routes = True, de_no_routes = True, de_dup = (\<lambda>_ _. True)\<rparr>, se_ntop6 = (\<lambda>_. ''fd00::5''), se_now = 100\<rparr>,
     me_route = demo_route_env, me_user = demo_user_env, me_lease = demo_lease_env,
     me_table = \<lparr>te_hash = (\<lambda>_. 0), te_add_ip = True, te_add_dtls_ip = True, te_add_dtls_id = True, te_add_sid = True\<rparr>,
     me_rnd = Some (replicate 32 5), me_send = (\<lambda>_. 0), me_cgroup = (\<lambda>_. True), me_tun = (7, ''vpns0''), me_sock4 = True,
     me_addr4 = True, me_addr6 = 0, me_mtu_sock = True, me_mtu = True, me_wait = None, me_talloc = True,
     me_ban_alloc = \<lparr>talloc_ok = True, htable_add_ok = True\<rparr>, me_pton6 = (\<lambda>_. None)\<rparr>"

definition demo_owner :: proc where
  "demo_owner = demo_proc\<lparr>p_dtls_session_id := replicate 32 5\<rparr>"

definition demo_one :: main_server where
  "demo_one = demo_main\<lparr>s_heap := [7 \<mapsto> demo_owner], s_proc_list := [7], s_db_dtls_id := [(0, 7)]\<rparr>"

definition demo_client_hello :: hello where
  "demo_client_hello = demo_hello\<lparr>h_head := [22, 254] @ replicate 57 3\<rparr>"

definition demo_udp :: udp_in where
  "demo_udp = \<lparr>ui_ret = int (length (hello_bytes demo_client_hello)), ui_buf = hello_bytes demo_client_hello @ [9],
     ui_cli_addr = zero_ss, ui_cli_addr_size = 16, ui_now = 100, ui_sfd = 9, ui_connect = True\<rparr>"

lemma demo_one_simps:
  "hello_ok demo_client_hello" "cf_dtls_psk (getconfig demo_one)" "length (hello_bytes demo_client_hello) = 116"
  "tables_ok (me_hash demo_main_env) demo_one" "ptrs (s_db_dtls_id demo_one) = {7}" "s_heap demo_one = [7 \<mapsto> demo_owner]"
  "p_dtls_session_id demo_owner = replicate 32 5" "h_app_id demo_client_hello = replicate 32 5"
  "p_udp_fd_receive_time demo_owner = 0" "h_head demo_client_hello = [22, 254] @ replicate 57 3" "s_out demo_one = []"
  by (simp_all add: hello_ok_def demo_client_hello_def demo_hello_def ext_ok_def getconfig_def demo_one_def demo_main_def
      MainTypes.demo_vhost_def MainTypes.demo_cfg_def hello_bytes_def ext_bytes_def tables_ok_def rehash_dtls_id_def
      demo_main_env_def demo_owner_def demo_proc_def)

lemma demo_udp_simps:
  "ui_buf demo_udp = hello_bytes demo_client_hello @ [9]" "ui_ret demo_udp = int (length (hello_bytes demo_client_hello))"
  "ui_now demo_udp = 100" "ui_sfd demo_udp = 9" "ui_connect demo_udp" "me_send demo_main_env = (\<lambda>_. 0)"
  by (simp_all add: demo_udp_def demo_main_env_def)

theorem hello_reaches_owner_witness:
  "\<exists>s' pr'. forward_udp_to_owner demo_main_env demo_one demo_udp = Done (0, s') \<and>
    s_out s' = [Udp_Fd 7 (hello_bytes demo_client_hello) True, Close_Fd 9] \<and>
    s_heap s' 7 = Some pr' \<and> p_udp_fd_receive_time pr' = 100"
proof -
  note u = demo_udp_simps
  have "\<exists>s' pr'. forward_udp_to_owner demo_main_env demo_one demo_udp = Done (0, s') \<and>
      s_out s' = s_out demo_one @ [Udp_Fd 7 (hello_bytes demo_client_hello) True, Close_Fd (ui_sfd demo_udp)] \<and>
      s_heap s' 7 = Some pr' \<and> p_udp_fd_receive_time pr' = ui_now demo_udp"
    by (rule hello_reaches_owner [OF demo_one_simps(1,2) _ _ _ u(1,2) demo_one_simps(4), where pr = demo_owner])
      (simp_all add: demo_one_simps(3,5-11) u)
  then show ?thesis by (simp add: u demo_one_simps(11))
qed

theorem udp_forwarded_to_owner_witness:
  "\<exists>s' pr. forward_udp_to_owner demo_main_env demo_one demo_udp = Done (0, s') \<and>
    Udp_Fd 7 (hello_bytes demo_client_hello) True \<in> set (drop (length (s_out demo_one)) (s_out s')) \<and>
    s_heap demo_one 7 = Some pr \<and>
    get_session_id demo_one (ui_buf demo_udp) (nat (ui_ret demo_udp)) = Hello_Id (p_dtls_session_id pr)"
proof -
  have "proc_search_dtls_id (me_hash demo_main_env) demo_one (p_dtls_session_id demo_owner) = Some 7"
    by (rule search_dtls_id_unique [OF demo_one_simps(4)]) (simp_all add: demo_one_simps(5,6) split: if_splits)
  then have "proc_search_dtls_id (me_hash demo_main_env) demo_one (h_app_id demo_client_hello) = Some 7"
    by (simp only: demo_one_simps(7,8))
  then have t: "udp_target_of demo_main_env demo_one demo_udp = To (Some 7) False"
    by (intro hello_target [OF demo_one_simps(1,2) _ _ _ demo_udp_simps(1,2)]) (simp_all add: demo_one_simps(3,10))
  have "\<exists>s' pr'. forward_udp_to_owner demo_main_env demo_one demo_udp = Done (0, s') \<and>
      s_out s' = s_out demo_one @ [Udp_Fd 7 (take (nat (ui_ret demo_udp)) (ui_buf demo_udp)) True, Close_Fd (ui_sfd demo_udp)] \<and>
      s_heap s' 7 = Some pr' \<and> p_udp_fd_receive_time pr' = ui_now demo_udp"
    by (rule forward_delivers [OF t demo_one_simps(4), of demo_owner]) (simp_all add: demo_one_simps(6,9) demo_udp_simps)
  then obtain s' where s': "forward_udp_to_owner demo_main_env demo_one demo_udp = Done (0, s')"
    "s_out s' = s_out demo_one @ [Udp_Fd 7 (take (nat (ui_ret demo_udp)) (ui_buf demo_udp)) True, Close_Fd (ui_sfd demo_udp)]"
    by blast
  have "take (nat (ui_ret demo_udp)) (ui_buf demo_udp) = hello_bytes demo_client_hello" by (simp add: demo_udp_simps)
  then have "Udp_Fd 7 (hello_bytes demo_client_hello) True \<in> set (drop (length (s_out demo_one)) (s_out s'))"
    unfolding s'(2) by simp
  then show ?thesis using s'(1) udp_forwarded_to_owner [OF s'(1), of 7 "hello_bytes demo_client_hello" True] by auto
qed

end
