(* ===== verification/MainLoop.thy ===== *)
theory MainLoop
  imports MainUdp
begin

text \<open>
  The remaining callbacks of the event loop (\<^verbatim>\<open>src/src/main.c\<close>) and the control commands that act on
  clients (\<^verbatim>\<open>src/src/main-ctl-unix.c\<close>): a new connection, the clean-up in the forked child, the
  maintenance, and the removal of a ban or of clients on request of the administrator.
\<close>

section \<open>New connections\<close>

datatype sock_type = SOCK_TYPE_TCP | SOCK_TYPE_UDP | SOCK_TYPE_UNIX

text \<open>The fields of the worker structure that the main process fills in before it forks; they keep what
  the connection before has left.\<close>

record worker_init =
  w_conn_type :: sock_type
  w_remote_addr :: sockaddr
  w_remote_addr_len :: nat
  w_our_addr :: sockaddr
  w_our_addr_len :: nat

text \<open>A connection: the results of \<^verbatim>\<open>accept\<close>, \<^verbatim>\<open>check_tcp_wrapper\<close>, \<^verbatim>\<open>getsockname\<close>, \<^verbatim>\<open>socketpair\<close> and \<^verbatim>\<open>fork\<close> in
  the parent, and the pointer the allocator gives.\<close>

record conn_in =
  ci_fd :: int
  ci_peer :: bytes
  ci_peer_len :: nat
  ci_wrapper :: bool
  ci_name :: "bytes option"
  ci_pair :: "(int \<times> int) option"
  ci_fork :: int
  ci_ptr :: proc_ptr

definition client_limit :: "main_server \<Rightarrow> bool" where
  "client_limit s \<longleftrightarrow> cf_max_clients (getconfig s) > 0 \<and> st_active_clients (s_stats s) \<ge> cf_max_clients (getconfig s)"

text \<open>The check of the ban list, and the local address that is taken with it.\<close>

definition admit_address ::
    "main_env \<Rightarrow> main_server \<Rightarrow> worker_init \<Rightarrow> conn_in \<Rightarrow> bool \<times> worker_init \<times> main_server" where
  "admit_address env s ws ci =
     (if w_conn_type ws \<noteq> SOCK_TYPE_UNIX \<and> \<not> cf_listen_proxy_proto (getconfig s) then
        (let ws = (case ci_name ci of
                     None \<Rightarrow> ws\<lparr>w_our_addr := zero_ss, w_our_addr_len := 0\<rparr>
                   | Some a \<Rightarrow> ws\<lparr>w_our_addr := blit 0 a zero_ss, w_our_addr_len := length a\<rparr>)
         in case check_if_banned (me_hash env) (me_ban_alloc env) (se_now (me_session env)) (se_now (me_session env))
                   (s_ban s) (w_remote_addr ws) (w_remote_addr_len ws) of
              (banned, bn) \<Rightarrow> (banned = 0, ws, s\<lparr>s_ban := bn\<rparr>))
      else (True, ws, s))"

definition fork_client :: "main_env \<Rightarrow> main_server \<Rightarrow> worker_init \<Rightarrow> conn_in \<Rightarrow> int \<Rightarrow> main_server" where
  "fork_client env s ws ci cmd_fd =
     (if ci_fork ci = - 1 then emit (Close_Fd cmd_fd) s
      else
        (case new_proc env s (ci_ptr ci) (ci_fork ci) cmd_fd (w_remote_addr ws) (w_remote_addr_len ws)
                (w_our_addr ws) (w_our_addr_len ws) of
           None \<Rightarrow> emit (Close_Fd cmd_fd) (emit (Kill (ci_fork ci)) s)
         | Some s \<Rightarrow> s))"

definition accept_client :: "main_env \<Rightarrow> main_server \<Rightarrow> worker_init \<Rightarrow> conn_in \<Rightarrow> worker_init \<times> main_server" where
  "accept_client env s ws ci =
     (if ci_fd ci < 0 then (ws\<lparr>w_remote_addr_len := 128\<rparr>, s)
      else
        (let ws = ws\<lparr>w_remote_addr := blit 0 (ci_peer ci) (w_remote_addr ws), w_remote_addr_len := ci_peer_len ci\<rparr>;
             refuse = emit (Close_Fd (ci_fd ci))
         in if client_limit s then (ws, refuse s)
            else if \<not> ci_wrapper ci then (ws, refuse s)
            else (case admit_address env s ws ci of
                    (ok, ws, s) \<Rightarrow>
                      if \<not> ok then (ws, refuse s)
                      else (case ci_pair ci of
                              None \<Rightarrow> (ws, refuse s)
                            | Some (fd0, fd1) \<Rightarrow>
                                (ws, emit (Close_Fd (ci_fd ci)) (emit (Close_Fd fd1) (fork_client env s ws ci fd0)))))))"

definition listen_watcher_cb ::
    "main_env \<Rightarrow> main_server \<Rightarrow> worker_init \<Rightarrow> sock_type \<Rightarrow> conn_in \<Rightarrow> udp_in \<Rightarrow> (worker_init \<times> main_server) outcome" where
  "listen_watcher_cb env s ws ltype ci u =
     (if ltype = SOCK_TYPE_TCP \<or> ltype = SOCK_TYPE_UNIX then Done (accept_client env s ws ci)
      else bind_out (forward_udp_to_owner env s u) (\<lambda>(_, s). Done (ws, s)))"

text \<open>The child of the fork: it closes the descriptors of the listeners and of the other clients and
  forgets them.\<close>

fun clear_procs :: "main_server \<Rightarrow> proc_ptr list \<Rightarrow> main_server outcome" where
  "clear_procs s [] = Done s"
| "clear_procs s (p # ps) =
     bind_out (or_crash (s_heap s p)) (\<lambda>pr.
     let s = (if p_fd pr \<ge> 0 then emit (Close_Fd (p_fd pr)) s else s);
         s = (if p_tun_fd pr \<ge> 0 then emit (Close_Fd (p_tun_fd pr)) s else s)
     in clear_procs (s\<lparr>s_proc_list := remove1 p (s_proc_list s), s_heap := (s_heap s)(p := None)\<rparr>) ps)"

definition clear_lists :: "main_server \<Rightarrow> int list \<Rightarrow> main_server outcome" where
  "clear_lists s listeners =
     bind_out (clear_procs (fold (\<lambda>fd. emit (Close_Fd fd)) listeners s) (s_proc_list s)) (\<lambda>s.
     Done (proc_table_deinit (s\<lparr>s_script_list := [], s_ip_leases := ip_lease_deinit (s_ip_leases s),
                                s_ban := main_ban_db_deinit (s_ban s)\<rparr>)))"

section \<open>Maintenance\<close>

definition perform_maintenance :: "main_env \<Rightarrow> main_server \<Rightarrow> main_server" where
  "perform_maintenance env s = s\<lparr>s_ban := cleanup_banned_entries (se_now (me_session env)) (s_ban s)\<rparr>"

section \<open>Control commands\<close>

text \<open>The result of a command is the status of its reply, none when the request cannot be decoded.\<close>

definition method_unban_ip :: "main_env \<Rightarrow> main_server \<Rightarrow> bytes option \<Rightarrow> bool option \<times> main_server" where
  "method_unban_ip env s req =
     (case req of
        None \<Rightarrow> (None, s)
      | Some ip \<Rightarrow>
          (case remove_ip_from_ban_list (me_hash env) (s_ban s) (Some ip) of
             (ret, bn) \<Rightarrow> (Some (ret \<noteq> 0), s\<lparr>s_ban := bn\<rparr>)))"

fun disconnect_names :: "main_env \<Rightarrow> main_server \<Rightarrow> string \<Rightarrow> bool \<Rightarrow> proc_ptr list \<Rightarrow> (bool \<times> main_server) outcome" where
  "disconnect_names env s user rep [] = Done (rep, s)"
| "disconnect_names env s user rep (p # ps) =
     bind_out (or_crash (s_heap s p)) (\<lambda>pr.
     if p_username pr = user then
       bind_out (terminate_proc env s p pr) (\<lambda>s. disconnect_names env s user True ps)
     else disconnect_names env s user rep ps)"

definition method_disconnect_user_name :: "main_env \<Rightarrow> main_server \<Rightarrow> string option \<Rightarrow> (bool option \<times> main_server) outcome" where
  "method_disconnect_user_name env s req =
     (case req of
        None \<Rightarrow> Done (None, s)
      | Some user \<Rightarrow>
          bind_out (disconnect_names env s user False (s_proc_list s)) (\<lambda>(st, s). Done (Some st, s)))"

fun disconnect_ids :: "main_env \<Rightarrow> main_server \<Rightarrow> int \<Rightarrow> bool \<Rightarrow> proc_ptr list \<Rightarrow> (bool \<times> main_server) outcome" where
  "disconnect_ids env s i rep [] = Done (rep, s)"
| "disconnect_ids env s i rep (p # ps) =
     bind_out (or_crash (s_heap s p)) (\<lambda>pr.
     if p_pid pr = i then
       bind_out (terminate_proc env s p pr) (\<lambda>s.
         if i \<noteq> - 1 then Done (True, s) else disconnect_ids env s i True ps)
     else disconnect_ids env s i rep ps)"

definition method_disconnect_user_id :: "main_env \<Rightarrow> main_server \<Rightarrow> int option \<Rightarrow> (bool option \<times> main_server) outcome" where
  "method_disconnect_user_id env s req =
     (case req of
        None \<Rightarrow> Done (None, s)
      | Some i \<Rightarrow>
          bind_out (disconnect_ids env s i False (s_proc_list s)) (\<lambda>(st, s). Done (Some st, s)))"

end
