(* ===== verification/MainStep.thy ===== *)
theory MainStep
  imports MainInv MainLoop
begin

text \<open>
  The life of the main process: a process is forked for every connection, its worker sends commands,
  its connect script ends, its address changes, and it is removed. The removal of a process takes it
  off every list and table and frees its leases; every step of the main loop keeps the invariant, so
  it holds in every state the server reaches from an empty one.
\<close>

section \<open>Removal\<close>

text \<open>The state in which the process is off the lists but still in the tables and on the heap.\<close>

definition off_list :: "proc_ptr \<Rightarrow> main_server \<Rightarrow> main_server" where
  "off_list p s = s\<lparr>s_proc_list := remove1 p (s_proc_list s),
     s_stats := (s_stats s)\<lparr>st_active_clients := st_active_clients (s_stats s) - 1\<rparr>\<rparr>"

definition unlisted :: "proc_ptr \<Rightarrow> main_server \<Rightarrow> main_server \<Rightarrow> bool" where
  "unlisted p s s' \<longleftrightarrow>
     links_eq ((off_list p s)\<lparr>s_script_list := filter (\<lambda>e. snd e \<noteq> p) (s_script_list s)\<rparr>) s'"

lemma unlisted_links: "unlisted p s s' \<Longrightarrow> links_eq s' s'' \<Longrightarrow> unlisted p s s''"
  unfolding unlisted_def by (rule links_trans)

lemma remove_script_eq:
  "distinct (map snd l) \<Longrightarrow>
     fst (remove_script l p) = filter (\<lambda>e. snd e \<noteq> p) l \<and> (snd (remove_script l p) > 0 \<longrightarrow> p \<in> snd ` set l)"
proof (induction l)
  case (Cons e l)
  obtain pid q ls r where e: "e = (pid, q)" "remove_script l p = (ls, r)" by (cases e, cases "remove_script l p")
  have "q = p \<Longrightarrow> filter (\<lambda>e. snd e \<noteq> p) l = l" using Cons.prems by (auto simp: e filter_id_conv)
  then show ?case using Cons by (simp add: e)
qed simp

lemma session_close_Some: "p_vhost pr \<noteq> None \<Longrightarrow> session_close env s pr \<noteq> None"
  by (auto simp: session_close_def Let_def split: answer.split option.split)

lemma count_active: "st_active_clients (reset_stats t st) = st_active_clients st"
  "st_active_clients (count_reason r st) = st_active_clients st" "st_active_clients (count_mtu m st) = st_active_clients st"
  "st_active_clients (count_minutes d st) = st_active_clients st"
  by (simp_all add: reset_stats_def count_reason_def count_mtu_def count_minutes_def Let_def)

lemma update_stats_active [simp]: "st_active_clients (update_main_stats t v pr st) = st_active_clients st"
  unfolding update_main_stats_def Let_def if_distrib [of st_active_clients] count_active by (simp add: count_active)

lemma session_close_links: "session_close env s pr = Some (ret, pr', s') \<Longrightarrow> links_eq s s' \<and> core_eq pr pr'"
  by (auto simp: session_close_def Let_def core_eq_def split: answer.splits option.splits)

lemma close_pending_post:
  assumes "proc_wf s0 p pr"
  shows "post b (close_pending env quit s pr) (\<lambda>(pr', s'). links_eq s s' \<and> core_eq pr pr')"
proof (cases "p_active_sid pr \<and> \<not> quit")
  case True
  then have v: "p_vhost pr \<noteq> None" using assms by (simp add: proc_wf_def)
  have "post b (bind_out (or_crash (session_close (me_session env) s pr))
      (\<lambda>(ret, pr, s). if ret < 0 then Main_Exit 1 else Done (pr, s))) (\<lambda>(pr', s'). links_eq s s' \<and> core_eq pr pr')"
    using session_close_Some [OF v, of "me_session env" s]
    by (intro post_bind [OF post_crash]) (auto dest: session_close_links)
  then show ?thesis using True by (simp add: close_pending_def)
qed (auto simp: close_pending_def)

lemma user_disconnected_post:
  assumes "p_config pr \<noteq> None"
  shows "post b (or_crash (user_disconnected env s p pr)) (links_eq s)"
  using call_script_Some [of SCRIPT_DISCONNECT pr env s p] assms
  by (intro post_crash) (auto simp: user_disconnected_def dest: call_script_links)

lemma run_disconnect_post:
  assumes inv: "inv_at H L s p pr" and l: "links_eq (off_list p s) s1" and c: "core_eq pr pr1"
  shows "post b (run_disconnect env s1 p pr1) (unlisted p s)"
proof -
  obtain ls pid where r: "remove_script (s_script_list s) p = (ls, pid)" by (cases "remove_script (s_script_list s) p")
  have sl: "s_script_list s1 = s_script_list s" using l by (simp add: links_eq_def off_list_def)
  have d: "distinct (map snd (s_script_list s))" using inv by (simp add: inv_at_def main_inv_def)
  note f = remove_script_eq [OF d, of p, unfolded r, simplified]
  obtain s2 where s2: "remove_from_script_list s1 p = (pid, s2)" by (simp add: remove_from_script_list_def sl r)
  have u: "unlisted p s s2" using s2 f l by (auto simp: remove_from_script_list_def sl r unlisted_def off_list_def links_eq_def emits_def)
  have cfg: "p_config pr1 \<noteq> None" if "p_status pr1 = PS_AUTH_COMPLETED \<or> pid > 0"
    using that inv_at_wf [OF inv] f c by (auto simp: proc_wf_def core_eq_def script_procs_def)
  have "post b (or_crash (user_disconnected (me_user env) s2 p pr1)) (unlisted p s)"
    if "p_status pr1 = PS_AUTH_COMPLETED \<or> pid > 0"
    using post_mono [OF user_disconnected_post [OF cfg [OF that], of b "me_user env" s2 p]] unlisted_links [OF u] by blast
  then show ?thesis using u by (auto simp: run_disconnect_def s2 split: option.split)
qed

lemma release_config_links [simp]: "links_eq s (release_config s pr)"
  by (simp add: release_config_def split: option.split)

lemma table_del_put: "proc_table_del H (put_proc p x s) q pr = put_proc p x (proc_table_del H s q pr)"
  "s_heap (proc_table_del H s q pr) = s_heap s"
  by (simp_all add: proc_table_del_def put_proc_def Let_def)

lemma release_config_put: "release_config (put_proc p x s) pr = put_proc p x (release_config s pr)"
  by (simp add: release_config_def use_config_def put_proc_def Let_def split: option.split)

lemma links_set_heap: "links_eq s s' \<Longrightarrow> links_eq (s\<lparr>s_heap := h\<rparr>) (s'\<lparr>s_heap := h\<rparr>)"
  by (simp add: links_eq_def)

lemma tables_ok_free:
  assumes "tables_ok H s" and "p \<notin> all_ptrs s"
  shows "tables_ok H (s\<lparr>s_heap := (s_heap s)(p := None)\<rparr>)"
  using assms by (auto simp: tables_ok_def all_ptrs_def main_ptrs_def intro!: tbl_ok_free)

lemma count_ok_off:
  assumes "count_ok s" and "p \<in> set (s_proc_list s)" and "s_proc_list s' = remove1 p (s_proc_list s)"
    and "st_active_clients (s_stats s') = st_active_clients (s_stats s) - 1" and "cfg_of s' = cfg_of s"
  shows "count_ok s'"
proof -
  obtain n where n: "length (s_proc_list s) = Suc n" using assms(2) by (cases "length (s_proc_list s)") auto
  then have "length (s_proc_list s') = n" using assms(2,3) by (simp add: length_remove1)
  then show ?thesis using assms(1,4,5) n by (auto simp: count_ok_def)
qed

definition removed :: "proc_ptr \<Rightarrow> main_server \<Rightarrow> main_server \<Rightarrow> bool" where
  "removed p s s' \<longleftrightarrow> s_heap s' = (s_heap s)(p := None) \<and> s_proc_list s' = remove1 p (s_proc_list s) \<and> cfg_of s' = cfg_of s"

text \<open>What the removal leaves: the heap without the process, the tables without its pointers, and the
  invariant.\<close>

lemma release_proc_post:
  assumes inv: "inv_at H L s p pr" and u: "unlisted p s s1" and c: "core_eq pr pr1" and e: "env_ok H L env"
  shows "post b (release_proc env s1 p pr1)
    (\<lambda>s'. main_inv H L s' \<and> removed p s s')"
proof -
  let ?s = "if p_fd pr1 \<ge> 0 then emit (Close_Fd (p_fd pr1)) s1 else s1"
  let ?pr = "pr1\<lparr>p_fd := - 1, p_pid := - 1\<rparr>"
  have u0: "unlisted p s ?s" and c0: "core_eq (pr\<lparr>p_pid := - 1\<rparr>) ?pr" using unlisted_links [OF u] c by (simp_all add: core_eq_def)
  have main: "main_inv H L s' \<and> removed p s s'"
    if r: "remove_iroutes (me_route env) ?s ?pr = Some (pr2, s2)"
      and db: "(if p_ipv4 pr2 \<noteq> None \<or> p_ipv6 pr2 \<noteq> None then remove_ip_leases (le_hash (me_lease env)) (s_ip_leases s2) pr2
                else (s_ip_leases s2, pr2)) = (db, pr3)"
      and ct: "close_tun (s2\<lparr>s_ip_leases := db\<rparr>) pr3 = (pr4, s4)"
      and s': "s' = (release_config (proc_table_del (me_hash env) s4 p pr4) pr4)\<lparr>s_heap :=
        (s_heap (release_config (proc_table_del (me_hash env) s4 p pr4) pr4))(p := None)\<rparr>"
    for pr2 s2 db pr3 pr4 s4 s'
  proof -
    note I = inv [unfolded inv_at_def main_inv_def]
    have u2: "unlisted p s s2" and c2: "core_eq (pr\<lparr>p_pid := - 1\<rparr>) pr2"
      using remove_iroutes_links [OF r] unlisted_links [OF u0] core_trans [OF c0] by auto
    have h2: "s_heap s2 = s_heap s" "s_ip_leases s2 = s_ip_leases s" using u2 by (auto simp: unlisted_def off_list_def links_eq_def)
    have l2: "lease_inv L (s_ip_leases s) ((s_heap s)(p \<mapsto> pr2))"
      using I c2 lease_inv_frame [of L "s_ip_leases s" "(s_heap s)(p \<mapsto> pr)" p pr pr2] by (simp add: core_eq_def)
    have l3: "lease_inv L db ((s_heap s)(p \<mapsto> pr3)) \<and> idle pr3 \<and> keys_eq pr2 pr3"
    proof (cases "p_ipv4 pr2 \<noteq> None \<or> p_ipv6 pr2 \<noteq> None")
      case True
      then have d: "remove_ip_leases L (s_ip_leases s) pr2 = (db, pr3)" using db e h2 by (simp add: env_ok_def)
      then show ?thesis
        using remove_ip_leases_inv [of L "s_ip_leases s" "(s_heap s)(p \<mapsto> pr2)" p, OF l2 _ d] by (auto simp: remove_ip_leases_def idle_def keys_eq_def)
    next
      case False
      then show ?thesis using db l2 h2 by (auto simp: idle_def keys_eq_def)
    qed
    have l4: "links_eq (s2\<lparr>s_ip_leases := db\<rparr>) s4" "core_eq pr3 pr4" using close_tun_links [OF ct] by auto
    have k: "keys_eq pr pr4" using c2 l3 l4(2) by (simp add: core_eq_def keys_eq_def)
    have g: "s_heap s4 = s_heap s" "s_ip_leases s4 = db" "s_proc_list s4 = remove1 p (s_proc_list s)"
      "s_script_list s4 = filter (\<lambda>e. snd e \<noteq> p) (s_script_list s)" "s_db_ip s4 = s_db_ip s" "s_db_dtls_ip s4 = s_db_dtls_ip s"
      "s_db_dtls_id s4 = s_db_dtls_id s" "s_db_sid s4 = s_db_sid s" "length (s_vconfig s4) = length (s_vconfig s)"
      "st_active_clients (s_stats s4) = st_active_clients (s_stats s) - 1" "cfg_of s4 = cfg_of s"
      using u2 l4(1) by (simp_all add: unlisted_def off_list_def links_eq_def)
    have t: "tables_ok H (put_proc p pr4 s4)"
      using I tables_ok_upd [of H "put_proc p pr s" p pr pr4] k g by (simp add: tables_ok_def put_proc_def)
    let ?d = "proc_table_del H (put_proc p pr4 s4) p pr4"
    note del = proc_table_del_ok [OF t, of p pr4, simplified]
    have eq: "s' = (release_config ?d pr4)\<lparr>s_heap := (s_heap s)(p := None)\<rparr>"
      using e g(1) links_heap [OF release_config_links, of "proc_table_del H s4 p pr4" pr4] table_del_put(2) [of H s4 p pr4]
      by (simp add: s' env_ok_def table_del_put(1) release_config_put)
    have free: "tables_ok H (?d\<lparr>s_heap := (s_heap s)(p := None)\<rparr>)"
      using tables_ok_free [OF del(1), of p] del(2,3) g(1) by simp
    have le: "links_eq (?d\<lparr>s_heap := (s_heap s)(p := None)\<rparr>) s'" unfolding eq by (intro links_set_heap) simp
    have t': "tables_ok H s'" "all_ptrs s' = all_ptrs s - {p}"
      using tables_ok_links [OF le] free links_ptrs [OF le] del(3) g by (simp_all add: all_ptrs_def main_ptrs_def)
    have f: "s_heap s' = (s_heap s)(p := None)" "s_ip_leases s' = db" "s_proc_list s' = remove1 p (s_proc_list s)"
      "s_script_list s' = filter (\<lambda>e. snd e \<noteq> p) (s_script_list s)" "length (s_vconfig s') = length (s_vconfig s)"
      "st_active_clients (s_stats s') = st_active_clients (s_stats s) - 1" "cfg_of s' = cfg_of s"
      using le del(4) g cfg_of_vconfig [of ?d "put_proc p pr4 s4"] by (simp_all add: links_eq_def same_rest_def)
    have "lease_inv L db ((s_heap s)(p := None))"
      using lease_inv_gone [of L db "(s_heap s)(p \<mapsto> pr3)" p pr3] l3 by simp
    moreover have sp: "script_procs s' = script_procs s - {p}" by (auto simp: script_procs_def f)
    moreover have "proc_wf s' q qr" if "q \<noteq> p" "s_heap s q = Some qr" for q qr
    proof -
      have "proc_wf s q qr" using I that by simp
      then show ?thesis using sp t'(2) f(5) by (auto simp: proc_wf_def)
    qed
    moreover have "s_vconfig s' \<noteq> []" using I f(5) by auto
    moreover have "count_ok s'" using I count_ok_off [of s p s'] f(3,6,7) by simp
    ultimately show ?thesis
      using I t' unfolding main_inv_def removed_def f(1-4) by (auto simp: f(7) set_remove1_eq distinct_map_filter)
  qed
  have "post b (bind_out (or_hang (remove_iroutes (me_route env) ?s ?pr)) (\<lambda>(pr, s).
         let (db, pr) = (if p_ipv4 pr \<noteq> None \<or> p_ipv6 pr \<noteq> None
                         then remove_ip_leases (le_hash (me_lease env)) (s_ip_leases s) pr
                         else (s_ip_leases s, pr));
             s = s\<lparr>s_ip_leases := db\<rparr>;
             (pr, s) = close_tun s pr;
             s = release_config (proc_table_del (me_hash env) s p pr) pr
         in Done (s\<lparr>s_heap := (s_heap s)(p := None)\<rparr>)))
     (\<lambda>s'. main_inv H L s' \<and> removed p s s')"
    unfolding Let_def
    by (rule post_bind [OF post_hang], assumption) (use main in \<open>simp split: prod.split\<close>)
  then show ?thesis by (simp add: release_proc_def Let_def)
qed

lemma remove_proc_post:
  assumes inv: "inv_at H L s p pr" and e: "env_ok H L env"
  shows "post b (remove_proc env s p pr kill quit)
    (\<lambda>s'. main_inv H L s' \<and> removed p s s')"
proof -
  let ?k = "if kill then kill_worker pr (off_list p s) else off_list p s"
  have k: "links_eq (off_list p s) ?k" by (simp add: kill_worker_def)
  have "post b (bind_out (close_pending env quit ?k pr) (\<lambda>(pr, s).
         bind_out (run_disconnect env s p pr) (\<lambda>s. release_proc env s p pr)))
     (\<lambda>s'. main_inv H L s' \<and> removed p s s')"
  proof (rule post_bind [OF close_pending_post [OF inv_at_wf [OF inv]]], clarify, goal_cases)
    case (1 pr1 s1)
    show ?case
      by (rule post_bind [OF run_disconnect_post [OF inv links_trans [OF k 1(1)] 1(2)]])
        (rule release_proc_post [OF inv _ 1(2) e])
  qed
  then show ?thesis unfolding remove_proc_def off_list_def Let_def .
qed

section \<open>Callbacks\<close>

lemma main_inv_links:
  assumes "main_inv H L s" and l: "links_eq s s'"
  shows "main_inv H L s'"
proof -
  have "s_vconfig s' \<noteq> []" using assms by (auto simp: main_inv_def links_eq_def)
  then show ?thesis
    using assms(1) tables_ok_links [OF l, of H] links_count [OF l] proc_wf_links [OF l] links_ptrs [OF l] l
    unfolding main_inv_def by (simp add: links_eq_def)
qed

lemma terminate_proc_post:
  assumes inv: "main_inv H L s" and h: "s_heap s p = Some pr" and e: "env_ok H L env"
  shows "post b (terminate_proc env s p pr) (\<lambda>s'. main_inv H L s' \<and> (links_eq s s' \<or> removed p s s'))"
proof -
  have i: "inv_at H L s p pr" using inv h main_inv_put by blast
  have "main_inv H L (emit x s)" for x using main_inv_links [OF inv] by simp
  then show ?thesis using remove_proc_post [OF i e, of b True False]
    by (auto simp: terminate_proc_def elim: post_mono)
qed

lemma post_live:
  assumes "main_inv H L s" and "p \<in> dom (s_heap s)" and "\<And>pr. s_heap s p = Some pr \<Longrightarrow> inv_at H L s p pr \<Longrightarrow> post b (f pr) Q"
  shows "post b (bind_out (or_crash (s_heap s p)) f) Q"
  using assms(2,3) main_inv_put [of s p _ H L] assms(1) by (auto simp: or_crash_def)

text \<open>A command that ends with an error removes the process.\<close>

lemma finish_post:
  assumes "inv_at H L s p pr" and "env_ok H L env"
  shows "post b (if ret < 0 then remove_proc env (put_proc p pr s) p pr k False else Done (put_proc p pr s)) (main_inv H L)"
proof -
  have "inv_at H L (put_proc p pr s) p pr" using assms(1) by simp
  from post_mono [OF remove_proc_post [OF this assms(2), of b k False], of "main_inv H L"]
  show ?thesis using inv_at_main [OF assms(1)] by simp
qed

lemma cmd_watcher_post:
  assumes inv: "main_inv H L s" and p: "p \<in> dom (s_heap s)" and e: "env_ok H L env" and ok: "b \<Longrightarrow> benign env inp"
  shows "post b (cmd_watcher_cb env s p inp) (main_inv H L)"
  unfolding cmd_watcher_cb_def
proof (rule post_live [OF inv p], goal_cases)
  case (1 pr)
  show ?case
  proof (rule post_bind [OF handle_worker_commands_post [OF 1(2) e ok]])
    fix x :: "int \<times> proc \<times> main_server"
    assume x: "case x of (ret, pr', s') \<Rightarrow> inv_at H L s' p pr' \<and> s_heap s' p \<noteq> None"
    show "post b (case x of (ret, pr, s) \<Rightarrow> let s = put_proc p pr s in
        if ret < 0 then remove_proc env s p pr (ret \<noteq> ERR_PEER_TERMINATED) False else Done s) (main_inv H L)"
      using x by (cases x) (simp only: prod.case Let_def finish_post [OF _ e])
  qed (use 1 in auto)
qed

lemma inv_script_off:
  assumes inv: "main_inv H L s"
  shows "main_inv H L (s\<lparr>s_script_list := remove1 x (s_script_list s)\<rparr>)"
proof -
  have "script_procs (s\<lparr>s_script_list := remove1 x (s_script_list s)\<rparr>) \<subseteq> script_procs s"
    using set_remove1_subset [of x "s_script_list s"] by (auto simp: script_procs_def)
  moreover have "distinct (map snd (remove1 x l))" if "distinct (map snd l)" for l
    using that set_remove1_subset [of x] by (induction l) fastforce+
  moreover have "proc_wf (s\<lparr>s_script_list := ls\<rparr>) p pr" if "proc_wf s p pr" "script_procs (s\<lparr>s_script_list := ls\<rparr>) \<subseteq> script_procs s" for p pr ls
    using that by (auto simp: proc_wf_def all_ptrs_def main_ptrs_def)
  ultimately show ?thesis using inv unfolding main_inv_def by (auto simp: tables_ok_def)
qed

lemma script_watcher_post:
  assumes inv: "main_inv H L s" and p: "(pid, p) \<in> set (s_script_list s)" and e: "env_ok H L env"
  shows "post b (script_child_watcher_cb env s pid p estatus) (main_inv H L)"
proof -
  let ?s = "s\<lparr>s_script_list := remove1 (pid, p) (s_script_list s)\<rparr>"
  have sp: "p \<in> script_procs s" using p by (force simp: script_procs_def)
  then have d: "p \<in> dom (s_heap ?s)" using inv by (auto simp: main_inv_def)
  show ?thesis
    unfolding script_child_watcher_cb_def Let_def
  proof (rule post_live [OF inv_script_off [OF inv] d], goal_cases)
    case (1 pr)
    have "proc_wf s p pr" using inv 1(1) by (simp add: main_inv_def)
    then have c: "p_config pr \<noteq> None" using sp by (simp add: proc_wf_def)
    show ?case
    proof (rule post_bind [OF handle_script_exit_post [OF 1(2) c]])
      fix x :: "int \<times> proc \<times> main_server"
      assume x: "case x of (ret, pr', s') \<Rightarrow> inv_at H L s' p pr' \<and> s_heap s' = s_heap ?s"
      show "post b (case x of (ret, pr, s) \<Rightarrow>
          if ret < 0 then remove_proc env (put_proc p pr s) p pr True False else Done (put_proc p pr s)) (main_inv H L)"
        using x by (cases x) (simp only: prod.case finish_post [OF _ e])
    qed
  qed
qed

lemma forward_udp_post:
  assumes inv: "main_inv H L s" and e: "env_ok H L env" and ok: "b \<Longrightarrow> nat (ui_ret u) < length (ui_buf u)"
  shows "post b (forward_udp_to_owner env s u) (\<lambda>(ret, s'). main_inv H L s')"
proof -
  have ps: "post b (pass_socket env s u p pr m) (main_inv H L)"
    if t: "udp_target_of env s u = To (Some p) m" and h: "s_heap s p = Some pr" for p pr m
  proof -
    have tb: "tables_ok (te_hash (me_table env)) s" using inv e by (simp add: main_inv_def env_ok_def)
    have i: "inv_at H L s p pr" using inv h main_inv_put by blast
    have p: "p \<in> all_ptrs s"
      using t by (auto simp: udp_target_of_def Let_def proc_search_single_ip_def proc_search_dtls_id_def all_ptrs_def main_ptrs_def
          split: if_splits hello_id.splits option.splits dest!: find_procD)
    define s1 where "s1 = (if m then s else snd (proc_table_update_dtls_ip (me_table env) s p pr (ui_cli_addr u) (ui_cli_addr_size u)))"
    have s1: "main_inv H L s1 \<and> s_heap s1 p \<noteq> None"
    proof (cases m)
      case True
      then show ?thesis using inv h by (simp add: s1_def)
    next
      case False
      then obtain r where "proc_table_update_dtls_ip (me_table env) s p pr (ui_cli_addr u) (ui_cli_addr_size u) = (r, s1)"
        by (simp add: s1_def prod_eq_iff)
      from proc_table_update_dtls_ip_ok [OF tb h this] obtain pr1
        where f: "tables_ok H s1" "same_rest s s1" "main_ptrs s1 = main_ptrs s" "ptrs (s_db_dtls_ip s1) \<subseteq> insert p (ptrs (s_db_dtls_ip s))"
          "s_heap s1 = (s_heap s)(p \<mapsto> pr1)" "same_but_addr pr pr1" using e by (auto simp: env_ok_def)
      have "same_rest (put_proc p pr s) s1" "all_ptrs s1 \<subseteq> all_ptrs s" using f(2-4) p by (auto simp: same_rest_def all_ptrs_def)
      then show ?thesis using inv_at_addr [OF i f(1) _ _ f(5,6)] f(5) by simp
    qed
    have hp: "s_heap (emits xs s') = s_heap s'" for xs s' by (simp add: emits_def)
    have em: "main_inv H L (emits xs s')" if "main_inv H L s'" for xs s'
      using main_inv_links [OF that] by simp
    have up: "main_inv H L (put_proc p (pr'\<lparr>p_udp_fd_receive_time := t\<rparr>) s')" if "main_inv H L s'" "s_heap s' p = Some pr'" for s' pr' t
    proof -
      have "core_eq pr' (pr'\<lparr>p_udp_fd_receive_time := t\<rparr>)" by (simp add: core_eq_def)
      then show ?thesis using inv_at_frame [of H L s' p pr' s'] main_inv_put [OF that(2), of H L] that(1) by (simp add: inv_at_def)
    qed
    show ?thesis
      using s1 em [OF inv] em [of s1] em [OF up [OF em [of s1]]] h inv
      by (auto simp: pass_socket_def send_to_worker_def Let_def or_crash_def s1_def [symmetric] hp)
  qed
  have nr: "b \<Longrightarrow> udp_target_of env s u \<noteq> Over_Read"
    using ok hello_scan_found(2) by (auto simp: udp_target_of_def get_session_id_def Let_def split: if_splits ext_scan.splits)
  have lv: "\<exists>pr. s_heap s p = Some pr" if "udp_target_of env s u = To (Some p) m" for p m
    using that udp_target_ip [of env s u p] udp_target_id [of env s u p] by (cases m) auto
  show ?thesis
  proof (cases "udp_target_of env s u")
    case Over_Read
    then show ?thesis using nr inv by (auto simp: forward_udp_to_owner_def post_def)
  next
    case (To op m)
    show ?thesis
    proof (cases op)
      case (Some p)
      then obtain pr where h: "s_heap s p = Some pr" using lv To by blast
      have "post b (bind_out (pass_socket env s u p pr m) (\<lambda>s. Done (0, s))) (\<lambda>(ret :: int, s'). main_inv H L s')"
        by (rule post_bind [OF ps]) (use To Some h in auto)
      then show ?thesis using inv To Some h by (simp add: forward_udp_to_owner_def or_crash_def)
    qed (simp add: forward_udp_to_owner_def To inv)
  qed (simp add: forward_udp_to_owner_def inv)
qed

lemma max_clients_cfg: "s_vconfig s \<noteq> [] \<Longrightarrow> max_clients_of (cfg_of s) = cf_max_clients (getconfig s)"
  by (simp add: max_clients_of_def flip: getconfig_cfg)

lemma count_ok_new:
  assumes "count_ok s" and "\<not> client_limit s" and "s_vconfig s \<noteq> []" and "s_proc_list s' = p # s_proc_list s"
    and "st_active_clients (s_stats s') = st_active_clients (s_stats s) + 1" and "cfg_of s' = cfg_of s"
  shows "count_ok s'"
proof -
  let ?n = "length (s_proc_list s)" and ?M = "max_clients_of (cfg_of s)"
  have m: "?M = cf_max_clients (getconfig s)"
    by (rule max_clients_cfg [OF assms(3)])
  have "Suc ?n \<le> unat ?M" if "?M > 0"
  proof -
    have le: "?n \<le> unat ?M" using assms(1) that by (simp add: count_ok_def)
    moreover have "unat ?M < 2 ^ LENGTH(32)" by (rule unsigned_less)
    ultimately have "?n < 2 ^ 32" by simp
    then have "unat (st_active_clients (s_stats s)) = ?n" using assms(1) by (simp add: count_ok_def unat_of_nat)
    moreover have "st_active_clients (s_stats s) < ?M" using assms(2) that m by (simp add: client_limit_def)
    ultimately show ?thesis by (simp add: word_less_nat_alt)
  qed
  then show ?thesis using assms(1,4-6) by (auto simp: count_ok_def)
qed

lemma tables_ok_new: "tables_ok H s \<Longrightarrow> s_heap s p = None \<Longrightarrow> tables_ok H (put_proc p pr s)"
  by (force simp: tables_ok_def tbl_ok_def ptrs_def)

lemma all_ptrs_dom: "tables_ok H s \<Longrightarrow> all_ptrs s \<subseteq> dom (s_heap s)"
  using tables_ok_heap by blast

lemma new_proc_inv:
  assumes inv: "main_inv H L s" and f: "s_heap s p = None" and lim: "\<not> client_limit s" and pid: "pid \<noteq> - 1"
    and np: "new_proc env s p pid fd ra rl oa ol = Some s'"
  shows "main_inv H L s'"
proof -
  let ?pr = "fresh_proc (se_now (me_session env)) pid fd ra rl oa ol"
  let ?s = "(put_proc p ?pr s)\<lparr>s_proc_list := p # s_proc_list s,
    s_stats := (s_stats s)\<lparr>st_active_clients := st_active_clients (s_stats s) + 1\<rparr>\<rparr>"
  note I = inv [unfolded main_inv_def]
  have fresh: "p \<notin> all_ptrs s" "p \<notin> script_procs s" using I f all_ptrs_dom [of H s] by auto
  have w: "proc_wf s p ?pr" using pid fresh by (simp add: proc_wf_def fresh_proc_def idle_def)
  have "tables_ok H (put_proc p ?pr s)" using I f tables_ok_new by blast
  then have t: "tables_ok H ?s" by (simp add: tables_ok_def)
  have l: "lease_inv L (s_ip_leases s) ((s_heap s)(p \<mapsto> ?pr))"
    using I f by (intro lease_inv_new) (simp_all add: fresh_proc_def idle_def)
  have c: "count_ok ?s" using I count_ok_new [of s ?s p] lim by (simp add: cfg_of_def)
  have wf: "proc_wf ?s q qr" if "((s_heap s)(p \<mapsto> ?pr)) q = Some qr" for q qr
  proof -
    have "proc_wf s q qr" using that w I by (cases "q = p") auto
    then show ?thesis by (simp add: proc_wf_def all_ptrs_def main_ptrs_def script_procs_def)
  qed
  have "main_inv H L ?s" using I t l c wf fresh f unfolding main_inv_def
    by (auto simp: script_procs_def)
  moreover have "links_eq ?s s'"
  proof -
    let ?t = "(put_proc p ?pr s)\<lparr>s_proc_list := p # s_proc_list s\<rparr>"
    have "s' = (put_into_cgroup env ?t (cf_cgroup (getconfig ?t)) pid)\<lparr>s_stats :=
        (s_stats (put_into_cgroup env ?t (cf_cgroup (getconfig ?t)) pid))\<lparr>st_active_clients :=
           st_active_clients (s_stats (put_into_cgroup env ?t (cf_cgroup (getconfig ?t)) pid)) + 1\<rparr>\<rparr>"
      using np by (simp add: new_proc_def Let_def split: if_splits)
    moreover have "links_eq ?t (put_into_cgroup env ?t (cf_cgroup (getconfig ?t)) pid)" by simp
    ultimately show ?thesis by (simp add: links_eq_def)
  qed
  ultimately show ?thesis by (rule main_inv_links)
qed

lemma admit_links: "admit_address env s ws ci = (ok, ws', s') \<Longrightarrow> links_eq s s' \<and> s_stats s' = s_stats s \<and> s_vconfig s' = s_vconfig s"
  by (auto simp: admit_address_def Let_def split: if_splits prod.splits option.splits)

lemma accept_client_inv:
  assumes inv: "main_inv H L s" and f: "s_heap s (ci_ptr ci) = None" and a: "accept_client env s ws ci = (ws', s')"
  shows "main_inv H L s'"
proof -
  have em: "main_inv H L t \<Longrightarrow> main_inv H L (emits xs t)" for t xs using main_inv_links by simp
  have fork: "main_inv H L (fork_client env t w ci fd)" if t: "main_inv H L t" "s_heap t (ci_ptr ci) = None" "\<not> client_limit t" for t w fd
    using em [OF t(1)] new_proc_inv [OF t] by (auto simp: fork_client_def split: option.split)
  show ?thesis
  proof (cases "ci_fd ci < 0 \<or> client_limit s \<or> \<not> ci_wrapper ci")
    case True
    then show ?thesis using a inv em [OF inv] by (auto simp: accept_client_def Let_def split: if_splits)
  next
    case False
    define w where "w = ws\<lparr>w_remote_addr := blit 0 (ci_peer ci) (w_remote_addr ws), w_remote_addr_len := ci_peer_len ci\<rparr>"
    obtain ok w1 s1 where ad: "admit_address env s w ci = (ok, w1, s1)" by (cases "admit_address env s w ci")
    note l = admit_links [OF ad]
    have i1: "main_inv H L s1" using main_inv_links [OF inv] l by blast
    have "\<not> client_limit s1" "s_heap s1 (ci_ptr ci) = None"
      using False l f by (simp_all add: client_limit_def getconfig_def links_eq_def)
    then show ?thesis
      using a False ad em [OF i1] em [OF fork [OF i1]]
      by (auto simp: accept_client_def Let_def w_def [symmetric] split: if_splits option.splits)
  qed
qed

lemma sec_mod_inv:
  assumes inv: "main_inv H L s" and h: "handle_sec_mod_commands s m = (ret, s')"
  shows "main_inv H L s'"
proof -
  have "links_eq s s'" using h
    by (auto simp: handle_sec_mod_commands_def update_auth_failures_def Let_def links_eq_def emits_def
        split: if_splits option.splits prod.splits)
  then show ?thesis by (rule main_inv_links [OF inv])
qed

text \<open>The loops over a copy of the process list.\<close>

lemma still_live:
  assumes "links_eq s s' \<or> removed p s s'" and "set (p # ps) \<subseteq> dom (s_heap s)" and "distinct (p # ps)"
  shows "set ps \<subseteq> dom (s_heap s')"
  using assms by (auto simp: links_eq_def removed_def)

lemma disconnect_names_post:
  assumes "main_inv H L s" and "set ps \<subseteq> dom (s_heap s)" and "distinct ps" and e: "env_ok H L env"
  shows "post b (disconnect_names env s user rep ps) (\<lambda>(r, s'). main_inv H L s')"
  using assms
proof (induction ps arbitrary: s rep)
  case (Cons p ps)
  have p: "p \<in> dom (s_heap s)" using Cons.prems(2) by simp
  show ?case
    unfolding disconnect_names.simps
  proof (rule post_live [OF Cons.prems(1) p], goal_cases)
    case (1 pr)
    have "post b (bind_out (terminate_proc env s p pr) (\<lambda>s. disconnect_names env s user True ps)) (\<lambda>(r, s'). main_inv H L s')"
    proof (rule post_bind [OF terminate_proc_post [OF Cons.prems(1) 1(1) e]])
      fix s' assume s': "main_inv H L s' \<and> (links_eq s s' \<or> removed p s s')"
      show "post b (disconnect_names env s' user True ps) (\<lambda>(r, s'). main_inv H L s')"
        using Cons.IH [OF _ still_live [OF _ Cons.prems(2,3)] _ e, of s' True] s' Cons.prems(3) by simp
    qed
    moreover have "post b (disconnect_names env s user rep ps) (\<lambda>(r, s'). main_inv H L s')"
      using Cons.IH [OF Cons.prems(1)] Cons.prems(2,3) e by simp
    ultimately show ?case by simp
  qed
qed simp

lemma disconnect_ids_post:
  assumes "main_inv H L s" and "set ps \<subseteq> dom (s_heap s)" and "distinct ps" and e: "env_ok H L env"
  shows "post b (disconnect_ids env s i rep ps) (\<lambda>(r, s'). main_inv H L s')"
  using assms
proof (induction ps arbitrary: s rep)
  case (Cons p ps)
  have p: "p \<in> dom (s_heap s)" using Cons.prems(2) by simp
  show ?case
    unfolding disconnect_ids.simps
  proof (rule post_live [OF Cons.prems(1) p], goal_cases)
    case (1 pr)
    have "post b (if i \<noteq> - 1 then Done (True, s') else disconnect_ids env s' i True ps) (\<lambda>(r, s'). main_inv H L s')"
      if "main_inv H L s'" "links_eq s s' \<or> removed p s s'" for s'
      using that(1) Cons.IH [OF that(1) still_live [OF that(2) Cons.prems(2,3)] _ e, of True] Cons.prems(3) by (cases "i = - 1") simp_all
    then have "post b (bind_out (terminate_proc env s p pr) (\<lambda>s. if i \<noteq> - 1 then Done (True, s) else disconnect_ids env s i True ps))
        (\<lambda>(r, s'). main_inv H L s')"
      by (intro post_bind [OF terminate_proc_post [OF Cons.prems(1) 1(1) e]]) blast
    moreover have "post b (disconnect_ids env s i rep ps) (\<lambda>(r, s'). main_inv H L s')"
      using Cons.IH [OF Cons.prems(1)] Cons.prems(2,3) e by simp
    ultimately show ?case by simp
  qed
qed simp

lemma disconnect_post:
  assumes "main_inv H L s" and "env_ok H L env"
  shows "post b (method_disconnect_user_name env s req) (\<lambda>(r, s'). main_inv H L s')"
    and "post b (method_disconnect_user_id env s ireq) (\<lambda>(r, s'). main_inv H L s')"
proof -
  have l: "set (s_proc_list s) \<subseteq> dom (s_heap s)" "distinct (s_proc_list s)" using assms(1) by (simp_all add: main_inv_def)
  show "post b (method_disconnect_user_name env s req) (\<lambda>(r, s'). main_inv H L s')"
    using post_bind [OF disconnect_names_post [OF assms(1) l assms(2), of b _ False], of "\<lambda>(st, s). Done (Some st, s)"] assms(1)
    by (auto simp: method_disconnect_user_name_def split: option.split)
  show "post b (method_disconnect_user_id env s ireq) (\<lambda>(r, s'). main_inv H L s')"
    using post_bind [OF disconnect_ids_post [OF assms(1) l assms(2), of b _ False], of "\<lambda>(st, s). Done (Some st, s)"] assms(1)
    by (auto simp: method_disconnect_user_id_def split: option.split)
qed

section \<open>Reachable states\<close>

text \<open>The events of the main loop. The watchers of a process and of its script are started when the
  object is put on its list and stopped when it is taken off, so their pointers are live; the allocator
  does not return a pointer in use.\<close>

datatype main_event =
  Connect worker_init conn_in
| Datagram udp_in
| Worker_Cmd proc_ptr worker_in
| Script_End int proc_ptr int
| Secm_Cmd secm_in
| Maintain
| Unban "bytes option"
| Disconnect_Name "string option"
| Disconnect_Id "int option"

fun event_ok :: "main_server \<Rightarrow> main_event \<Rightarrow> bool" where
  "event_ok s (Connect ws ci) = (s_heap s (ci_ptr ci) = None)"
| "event_ok s (Worker_Cmd p inp) = (s_heap s p \<noteq> None)"
| "event_ok s (Script_End pid p st) = ((pid, p) \<in> set (s_script_list s))"
| "event_ok s _ = True"

fun dispatch :: "main_env \<Rightarrow> main_server \<Rightarrow> main_event \<Rightarrow> main_server outcome" where
  "dispatch env s (Connect ws ci) = Done (snd (accept_client env s ws ci))"
| "dispatch env s (Datagram u) = bind_out (forward_udp_to_owner env s u) (\<lambda>(_, s). Done s)"
| "dispatch env s (Worker_Cmd p inp) = cmd_watcher_cb env s p inp"
| "dispatch env s (Script_End pid p st) = script_child_watcher_cb env s pid p st"
| "dispatch env s (Secm_Cmd m) = Done (snd (handle_sec_mod_commands s m))"
| "dispatch env s Maintain = Done (perform_maintenance env s)"
| "dispatch env s (Unban req) = Done (snd (method_unban_ip env s req))"
| "dispatch env s (Disconnect_Name req) = bind_out (method_disconnect_user_name env s req) (\<lambda>(_, s). Done s)"
| "dispatch env s (Disconnect_Id req) = bind_out (method_disconnect_user_id env s req) (\<lambda>(_, s). Done s)"

text \<open>What the absence of crashes needs: memory for the arrays of routes, addresses of the length of their
  family in the messages of a worker, and datagrams that do not fill the whole buffer.\<close>

fun benign_event :: "main_env \<Rightarrow> main_event \<Rightarrow> bool" where
  "benign_event env (Worker_Cmd p inp) = benign env inp"
| "benign_event env (Datagram u) = (nat (ui_ret u) < length (ui_buf u))"
| "benign_event env _ = True"

lemma dispatch_post:
  assumes inv: "main_inv H L s" and e: "env_ok H L env" and ok: "event_ok s ev" and b: "b \<Longrightarrow> benign_event env ev"
  shows "post b (dispatch env s ev) (main_inv H L)"
proof (cases ev)
  case (Connect ws ci)
  then show ?thesis using ok accept_client_inv [OF inv, of ci env ws] by (cases "accept_client env s ws ci") simp
next
  case (Datagram u)
  have "post b (bind_out (forward_udp_to_owner env s u) (\<lambda>(_, s). Done s)) (main_inv H L)"
    using b Datagram by (intro post_bind [OF forward_udp_post [OF inv e]]) auto
  then show ?thesis by (simp add: Datagram)
next
  case (Worker_Cmd p inp)
  then show ?thesis using ok b cmd_watcher_post [OF inv _ e, of p b inp] by auto
next
  case (Script_End pid p st)
  then show ?thesis using ok script_watcher_post [OF inv _ e] by simp
next
  case (Secm_Cmd m)
  then show ?thesis using sec_mod_inv [OF inv, of m] by (cases "handle_sec_mod_commands s m") simp
next
  case Maintain
  then show ?thesis using main_inv_links [OF inv] by (simp add: perform_maintenance_def)
next
  case (Unban req)
  then show ?thesis using main_inv_links [OF inv] inv by (auto simp: method_unban_ip_def split: option.split prod.split)
next
  case (Disconnect_Name req)
  have "post b (bind_out (method_disconnect_user_name env s req) (\<lambda>(_, s). Done s)) (main_inv H L)"
    by (intro post_bind [OF disconnect_post(1) [OF inv e]]) auto
  then show ?thesis by (simp add: Disconnect_Name)
next
  case (Disconnect_Id req)
  have "post b (bind_out (method_disconnect_user_id env s req) (\<lambda>(_, s). Done s)) (main_inv H L)"
    by (intro post_bind [OF disconnect_post(2) [OF inv e]]) auto
  then show ?thesis by (simp add: Disconnect_Id)
qed

text \<open>The server at its start: no clients, no leases, a list of virtual hosts.\<close>

definition started :: "main_server \<Rightarrow> bool" where
  "started s \<longleftrightarrow> s_vconfig s \<noteq> [] \<and> s_heap s = Map.empty \<and> s_proc_list s = [] \<and> s_script_list s = [] \<and> s_ip_leases s = [] \<and>
     s_db_ip s = [] \<and> s_db_dtls_ip s = [] \<and> s_db_dtls_id s = [] \<and> s_db_sid s = [] \<and> st_active_clients (s_stats s) = 0"

inductive reach :: "(bytes \<Rightarrow> u64) \<Rightarrow> (bytes \<Rightarrow> u64) \<Rightarrow> main_server \<Rightarrow> bool" for H L where
  reach_start: "started s \<Longrightarrow> reach H L s"
| reach_step: "reach H L s \<Longrightarrow> env_ok H L env \<Longrightarrow> event_ok s ev \<Longrightarrow> dispatch env s ev = Done s' \<Longrightarrow> reach H L s'"

lemma started_inv: "started s \<Longrightarrow> main_inv H L s"
  by (simp add: started_def main_inv_def tables_ok_def lease_inv_def lease_db_ok_Nil script_procs_def count_ok_def)

lemma reach_inv: "reach H L s \<Longrightarrow> main_inv H L s"
proof (induction rule: reach.induct)
  case (reach_step s env ev s')
  then show ?case using dispatch_post [of H L s env ev False] post_DoneD by fastforce
qed (rule started_inv)

section \<open>Shutdown\<close>

text \<open>The commands that delete the routes of a process return.\<close>

definition routes_ok :: "main_server \<Rightarrow> bool" where
  "routes_ok s \<longleftrightarrow> (\<forall>p pr gc. s_heap s p = Some pr \<longrightarrow> p_config pr = Some gc \<longrightarrow>
     (\<forall>r \<in> set (gc_iroutes gc). route_bounded (cf_route_del_cmd (mv_config (last (cfg_of s)))) (p_tun_name pr) r))"

lemma del_cmd_cfg: "s_vconfig s \<noteq> [] \<Longrightarrow> cf_route_del_cmd (getconfig s) = cf_route_del_cmd (mv_config (last (cfg_of s)))"
  by (simp flip: getconfig_cfg)

lemma run_disconnect_cases: "run_disconnect env s p pr = Crash \<or> (\<exists>s'. run_disconnect env s p pr = Done s')"
  by (cases "remove_from_script_list s p") (simp add: run_disconnect_def or_crash_def split: option.split)

lemma remove_proc_quit:
  assumes inv: "main_inv H L s" and h: "s_heap s p = Some pr" and e: "env_ok H L env" and r: "routes_ok s"
  shows "\<exists>s'. remove_proc env s p pr k True = Done s' \<and> main_inv H L s' \<and> removed p s s'"
proof -
  have i: "inv_at H L s p pr" using inv h main_inv_put by blast
  have v: "s_vconfig s \<noteq> []" using inv by (simp add: main_inv_def)
  let ?k = "if k then kill_worker pr (off_list p s) else off_list p s"
  have l: "links_eq (off_list p s) ?k" by (simp add: kill_worker_def)
  have cp: "close_pending env True ?k pr = Done (pr, ?k)" by (simp add: close_pending_def)
  have rd: "\<exists>s1. run_disconnect env ?k p pr = Done s1"
    using run_disconnect_cases post_no_crash [OF run_disconnect_post [OF i l core_refl, of True env]] by blast
  then obtain s1 where s1: "run_disconnect env ?k p pr = Done s1" by blast
  have u: "unlisted p s s1" by (rule post_DoneD [OF run_disconnect_post [OF i l core_refl, of False env] s1])
  then have c: "s_vconfig s1 \<noteq> []" "cfg_of s1 = cfg_of s" using v by (auto simp: unlisted_def off_list_def links_eq_def)
  let ?s = "if p_fd pr \<ge> 0 then emit (Close_Fd (p_fd pr)) s1 else s1"
  have d: "cf_route_del_cmd (getconfig ?s) = cf_route_del_cmd (mv_config (last (cfg_of s)))"
    using del_cmd_cfg [OF c(1)] c(2) by simp
  have "del_routes (me_route env) ?s (p_tun_name pr) (gc_iroutes gc) \<noteq> None" if "p_config pr = Some gc" for gc
    using del_routes_eq [of "gc_iroutes gc" ?s "p_tun_name pr" "me_route env"] r h that unfolding d routes_ok_def by auto
  then have "remove_iroutes (me_route env) ?s (pr\<lparr>p_fd := - 1, p_pid := - 1\<rparr>) \<noteq> None"
    by (auto simp: remove_iroutes_def split: option.split)
  then obtain pr2 s2 where x: "remove_iroutes (me_route env) ?s (pr\<lparr>p_fd := - 1, p_pid := - 1\<rparr>) = Some (pr2, s2)" by auto
  have "\<exists>s'. release_proc env s1 p pr = Done s'"
    unfolding release_proc_def Let_def x by (simp add: or_hang_def split: prod.split)
  then obtain s' where "remove_proc env s p pr k True = Done s'"
    using cp s1 unfolding remove_proc_def Let_def off_list_def by auto
  with post_DoneD [OF remove_proc_post [OF i e, of False k True]] show ?thesis by blast
qed

lemma kill_children_loop_ok:
  assumes "main_inv H L s" and "env_ok H L env" and "routes_ok s" and "distinct ps" and "set ps \<subseteq> dom (s_heap s)"
  shows "\<exists>s'. kill_children_loop env s ps = Done s' \<and> main_inv H L s' \<and> dom (s_heap s') = dom (s_heap s) - set ps"
  using assms
proof (induction ps arbitrary: s)
  case (Cons p ps)
  obtain pr where h: "s_heap s p = Some pr" using Cons.prems(5) by auto
  have "proc_wf s p pr" using Cons.prems(1) h by (simp add: main_inv_def)
  then have pid: "p_pid pr \<noteq> - 1" by (simp add: proc_wf_def)
  obtain s1 where s1: "remove_proc env s p pr True True = Done s1" "main_inv H L s1" "removed p s s1"
    using remove_proc_quit [OF Cons.prems(1) h Cons.prems(2,3)] by blast
  have "routes_ok s1" using Cons.prems(3) s1(3) by (auto simp: routes_ok_def removed_def)
  moreover have "set ps \<subseteq> dom (s_heap s1)" by (rule still_live [OF disjI2 [OF s1(3)] Cons.prems(5,4)])
  ultimately obtain s' where "kill_children_loop env s1 ps = Done s'" "main_inv H L s'" "dom (s_heap s') = dom (s_heap s1) - set ps"
    using Cons.IH [OF s1(2) Cons.prems(2)] Cons.prems(4) by auto
  then show ?case using h pid s1 by (auto simp: or_crash_def removed_def)
qed simp

lemma no_procs:
  assumes "main_inv H L s" and "dom (s_heap s) = {}"
  shows "s_heap s = Map.empty \<and> s_proc_list s = [] \<and> s_script_list s = [] \<and> s_ip_leases s = [] \<and> s_db_ip s = [] \<and>
    s_db_dtls_ip s = [] \<and> s_db_dtls_id s = [] \<and> s_db_sid s = []"
proof -
  note I = assms(1) [unfolded main_inv_def]
  have "all_ptrs s = {}" using I all_ptrs_dom [of H s] assms(2) by auto
  then have "s_db_ip s = [] \<and> s_db_dtls_ip s = [] \<and> s_db_dtls_id s = [] \<and> s_db_sid s = []"
    by (auto simp: all_ptrs_def main_ptrs_def ptrs_def)
  moreover have "s_ip_leases s = []"
  proof (rule ccontr)
    assume "s_ip_leases s \<noteq> []"
    then obtain h l where "(h, l) \<in> set (s_ip_leases s)" by (cases "s_ip_leases s") auto
    then have "lease_key l \<in> kt_keys lease_key (s_ip_leases s)" by (force simp: kt_keys_def)
    moreover have k: "kt_inv L lease_key (s_ip_leases s)" using I lease_invD(1) lease_db_kt by blast
    ultimately obtain l' where "kt_get L lease_key (s_ip_leases s) (lease_key l) = Some l'"
      using kt_get_None_iff [OF k, of "lease_key l"] by auto
    then obtain q qr f where "s_heap s q = Some qr" using I lease_invD(6) by blast
    then show False using assms(2) by auto
  qed
  ultimately show ?thesis using I assms(2) by (auto simp: script_procs_def)
qed


section \<open>Properties of every reachable state\<close>

text \<open>C9. The heap of the main process is well-typed in every reachable state: the tables and the script
  list point to live processes only, the process list holds each of them once, a process with a session
  or a configuration has a virtual host of the list, a process that is logged in or waits for its connect
  script has a configuration, and a process that is not yet logged in has no address and is in no table.\<close>

theorem heap_well_typed:
  assumes "reach H L s"
  shows "all_ptrs s \<union> script_procs s \<subseteq> dom (s_heap s) \<and> set (s_proc_list s) = dom (s_heap s) \<and> distinct (s_proc_list s) \<and>
    (\<forall>p pr. s_heap s p = Some pr \<longrightarrow>
      (p_active_sid pr \<or> p_config pr \<noteq> None \<longrightarrow> (\<exists>i < length (s_vconfig s). p_vhost pr = Some i)) \<and>
      (p_status pr = PS_AUTH_COMPLETED \<or> p \<in> script_procs s \<longrightarrow> p_config pr \<noteq> None) \<and>
      (p_status pr = PS_AUTH_INACTIVE \<longrightarrow> p_ipv4 pr = None \<and> p_ipv6 pr = None \<and> p \<notin> all_ptrs s))"
proof -
  note I = reach_inv [OF assms, unfolded main_inv_def]
  have "p_active_sid pr \<or> p_config pr \<noteq> None \<Longrightarrow> \<exists>i < length (s_vconfig s). p_vhost pr = Some i" if "proc_wf s p pr" for p pr
    using that by (auto simp: proc_wf_def)
  moreover have "p_status pr = PS_AUTH_COMPLETED \<or> p \<in> script_procs s \<Longrightarrow> p_config pr \<noteq> None" if "proc_wf s p pr" for p pr
    using that by (auto simp: proc_wf_def)
  moreover have "p_status pr = PS_AUTH_INACTIVE \<Longrightarrow> p_ipv4 pr = None \<and> p_ipv6 pr = None \<and> p \<notin> all_ptrs s" if "proc_wf s p pr" for p pr
    using that by (auto simp: proc_wf_def idle_def)
  moreover have "all_ptrs s \<subseteq> dom (s_heap s)" using I all_ptrs_dom by blast
  ultimately show ?thesis using I by blast
qed

text \<open>The addresses that the processes hold from the pool: an IPv4 address, or the subnet of an IPv6
  lease.\<close>

definition pool_leases :: "main_server \<Rightarrow> (proc_ptr \<times> family \<times> bytes) set" where
  "pool_leases s = {(p, f, k). \<exists>pr l. s_heap s p = Some pr \<and> slot f pr = Some l \<and> destr l \<and> lease_key l = k}"

text \<open>C7. An address of the pool belongs to one client: in every reachable state no two processes hold
  leases of the same IPv4 address or of the same IPv6 subnet, across logins, roaming, the hand-over of
  leases to a new connection of the same session, and removals.\<close>

theorem leases_exclusive:
  assumes "reach H L s"
  shows "inj_on (\<lambda>(p, f, k). k) (pool_leases s)"
proof (rule inj_onI)
  have li: "lease_inv L (s_ip_leases s) (s_heap s)" using reach_inv [OF assms] by (simp add: main_inv_def)
  fix x y
  assume x: "x \<in> pool_leases s" and y: "y \<in> pool_leases s" and k: "(\<lambda>(p, f, k). k) x = (\<lambda>(p, f, k). k) y"
  obtain p f pr l where p: "s_heap s p = Some pr" "slot f pr = Some l" "destr l" and px: "x = (p, f, lease_key l)"
    using x by (auto simp: pool_leases_def)
  obtain q g qr m where q: "s_heap s q = Some qr" "slot g qr = Some m" "destr m" and qy: "y = (q, g, lease_key m)"
    using y by (auto simp: pool_leases_def)
  note xy = px qy
  have e: "lease_key l = lease_key m" using k xy by simp
  have "Some l = Some m"
    using lease_invD(4) [OF li p, unfolded e] lease_invD(4) [OF li q] by (rule trans [OF sym])
  then have lm: "l = m" by simp
  have "slot_len f = slot_len g" using lease_invD(2) [OF li p(1,2)] lease_invD(2) [OF li q(1,2), folded lm] by (rule trans [OF sym])
  then have "f = g" by (cases f; cases g) simp_all
  moreover have "p = q" by (rule lease_invD(5) [OF li p(1) q(1) p(2) q(2) [folded lm] p(3)])
  ultimately show "x = y" using xy lm by simp
qed

text \<open>C17. The limit on the number of clients holds: with \<^verbatim>\<open>max-clients\<close> set, a reachable state has at most
  that many processes, and the counter of active clients, which wraps at 32 bits, is their number.\<close>

theorem clients_bounded:
  assumes "reach H L s" and "cf_max_clients (getconfig s) > 0"
  shows "length (s_proc_list s) \<le> unat (cf_max_clients (getconfig s)) \<and>
    unat (st_active_clients (s_stats s)) = length (s_proc_list s)"
proof -
  note I = reach_inv [OF assms(1), unfolded main_inv_def]
  have m: "max_clients_of (cfg_of s) = cf_max_clients (getconfig s)"
    using I max_clients_cfg by blast
  have c: "count_ok s" using I by blast
  then have le: "length (s_proc_list s) \<le> unat (cf_max_clients (getconfig s))" using m assms(2) by (simp add: count_ok_def)
  moreover have "unat (cf_max_clients (getconfig s)) < 2 ^ LENGTH(32)" by (rule unsigned_less)
  ultimately have "length (s_proc_list s) < 2 ^ 32" by simp
  then show ?thesis using c le by (simp add: count_ok_def unat_of_nat)
qed

text \<open>C8. The main process does not crash: no event of the main loop, in any reachable state and whatever
  the outcome of the system calls, follows a null or dangling pointer, provided that the memory for the
  arrays of routes is available, that a worker sends addresses of the length of their family, and that a
  datagram is shorter than the buffer.\<close>

theorem events_never_crash:
  assumes "reach H L s" and "env_ok H L env" and "event_ok s ev" and "benign_event env ev"
  shows "dispatch env s ev \<noteq> Crash"
  using post_no_crash [OF dispatch_post [OF reach_inv [OF assms(1)] assms(2,3), of True]] assms(4) by simp

section \<open>An example run\<close>

text \<open>A client connects and logs in with a cookie that the security module accepts.\<close>

definition demo_start :: main_server where
  "demo_start = demo_main\<lparr>s_ban := demo_ban\<lparr>ban_db := None\<rparr>, s_vconfig := [MainTypes.demo_vhost\<lparr>mv_config :=
     MainTypes.demo_cfg\<lparr>cf_network := demo_net\<lparr>net_ipv4_network := Some ''10.0.0.0'', net_ipv4_netmask := Some ''255.255.255.0''\<rparr>\<rparr>\<rparr>]\<rparr>"

definition demo_session_env :: main_env where
  "demo_session_env = demo_main_env\<lparr>me_session := (me_session demo_main_env)\<lparr>se_open := (\<lambda>_. Answer \<lparr>rp_ok = True,
     rp_config = Some demo_gc, rp_username = Some ''u'', rp_groupname = None, rp_ip = None, rp_ipv4_seed = 1, rp_vhost = None\<rparr>)\<rparr>\<rparr>"

definition demo_ws :: worker_init where
  "demo_ws = \<lparr>w_conn_type = SOCK_TYPE_TCP, w_remote_addr = zero_ss, w_remote_addr_len = 0, w_our_addr = zero_ss, w_our_addr_len = 0\<rparr>"

definition demo_conn :: conn_in where
  "demo_conn = \<lparr>ci_fd = 4, ci_peer = [2, 0, 0, 0, 192, 0, 2, 1, 0, 0, 0, 0, 0, 0, 0, 0], ci_peer_len = 16, ci_wrapper = True, ci_name = None,
     ci_pair = Some (5, 6), ci_fork = 200, ci_ptr = 7\<rparr>"

definition demo_busy :: main_server where
  "demo_busy = snd (accept_client demo_session_env demo_start demo_ws demo_conn)"

definition demo_cookie :: main_event where
  "demo_cookie = Worker_Cmd 7 (Message (AUTH_COOKIE_REQ (Some (replicate 32 1))))"

definition demo_logged :: main_server where
  "demo_logged = (case dispatch demo_session_env demo_busy demo_cookie of Done s \<Rightarrow> s | _ \<Rightarrow> demo_start)"

lemma demo_started: "started demo_start" "s_heap demo_start 7 = None"
  by (simp_all add: started_def demo_start_def demo_main_def zero_main_stats_def)

lemma demo_session_env_ok: "env_ok (\<lambda>_. 0) (\<lambda>_. 0) demo_session_env"
  using demo_lease_env_ok by (simp add: env_ok_def demo_session_env_def demo_main_env_def) (simp add: demo_lease_env_def)

lemma demo_busy_reach: "reach (\<lambda>_. 0) (\<lambda>_. 0) demo_busy"
  by (rule reach_step [OF reach_start [OF demo_started(1)] demo_session_env_ok, of "Connect demo_ws demo_conn"])
    (simp_all add: demo_busy_def demo_started(2) demo_conn_def)

lemma demo_busy_heap: "s_heap demo_busy 7 \<noteq> None"
  by code_simp

text \<open>What the login leaves.\<close>

definition demo_check :: "main_server \<Rightarrow> bool" where
  "demo_check s \<longleftrightarrow> s_proc_list s = [7] \<and> cf_max_clients (getconfig s) = 16 \<and> list_ex (\<lambda>e. snd e = 7) (s_db_sid s) \<and>
     (case s_heap s 7 of
        None \<Rightarrow> False
      | Some pr \<Rightarrow>
          (case p_config pr of None \<Rightarrow> False | Some gc \<Rightarrow> gc_iroutes gc = []) \<and>
          (case p_ipv4 pr of None \<Rightarrow> False | Some l \<Rightarrow> destr l \<and> lease_key l = [10, 0, 0, 5]))"

lemma demo_login_done: "case dispatch demo_session_env demo_busy demo_cookie of Done s \<Rightarrow> demo_check s | _ \<Rightarrow> False"
  by code_simp

lemma demo_logged_facts: "reach (\<lambda>_. 0) (\<lambda>_. 0) demo_logged" "demo_check demo_logged"
proof -
  obtain s where s: "dispatch demo_session_env demo_busy demo_cookie = Done s" "demo_check s"
    using demo_login_done by (cases "dispatch demo_session_env demo_busy demo_cookie") auto
  have "event_ok demo_busy demo_cookie" using demo_busy_heap by (simp add: demo_cookie_def)
  then show "reach (\<lambda>_. 0) (\<lambda>_. 0) demo_logged" "demo_check demo_logged"
    using s reach_step [OF demo_busy_reach demo_session_env_ok _ s(1)] by (simp_all add: demo_logged_def)
qed

theorem heap_well_typed_witness:
  "7 \<in> all_ptrs demo_logged \<and> all_ptrs demo_logged \<subseteq> dom (s_heap demo_logged) \<and> (\<exists>pr. s_heap demo_logged 7 = Some pr \<and>
     (\<exists>i < length (s_vconfig demo_logged). p_vhost pr = Some i))"
proof -
  obtain pr where pr: "s_heap demo_logged 7 = Some pr" "p_config pr \<noteq> None" "list_ex (\<lambda>e. snd e = 7) (s_db_sid demo_logged)"
    using demo_logged_facts(2) by (auto simp: demo_check_def split: option.splits)
  then have "7 \<in> all_ptrs demo_logged" by (force simp: all_ptrs_def main_ptrs_def ptrs_def list_ex_iff)
  then show ?thesis using heap_well_typed [OF demo_logged_facts(1)] pr by blast
qed

theorem leases_exclusive_witness:
  "(7, Inet, [10, 0, 0, 5]) \<in> pool_leases demo_logged \<and> inj_on (\<lambda>(p, f, k). k) (pool_leases demo_logged)"
  using leases_exclusive [OF demo_logged_facts(1)] demo_logged_facts(2)
  by (auto simp: demo_check_def pool_leases_def split: option.splits)

theorem clients_bounded_witness:
  "length (s_proc_list demo_logged) \<le> 16 \<and> unat (st_active_clients (s_stats demo_logged)) = 1"
  using clients_bounded [OF demo_logged_facts(1)] demo_logged_facts(2) by (simp add: demo_check_def)

theorem events_never_crash_witness: "dispatch demo_session_env demo_busy demo_cookie \<noteq> Crash"
  by (rule events_never_crash [OF demo_busy_reach demo_session_env_ok])
    (simp_all add: demo_cookie_def demo_busy_heap [simplified] benign_def dup_ok_def demo_session_env_def demo_main_env_def)


end
