(* ===== verification/Login.thy ===== *)
theory Login
  imports SecModAuth MainStep
begin

text \<open>
  The login with a cookie across the two processes: the main process (\<open>session_open\<close>,
  \<open>handle_auth_cookie_req\<close>) asks the security module (\<open>handle_secm_session_open_cmd\<close>) over their socket.
  The answer of the security module becomes the reply that the main process decodes; the configuration
  of the user, which the security module reads from files outside of the model, is a parameter.
\<close>

section \<open>The exchange\<close>

definition wire_reply :: "group_cfg \<Rightarrow> sec_msg \<Rightarrow> secm_reply answer" where
  "wire_reply gc m =
     (case m of
        SessionOk rep \<Rightarrow>
          Answer \<lparr>rp_ok = True, rp_config = Some gc, rp_username = Some (sr_username rep), rp_groupname = Some (sr_groupname rep),
                  rp_ip = Some (sr_ip rep), rp_ipv4_seed = sr_ipv4_seed rep, rp_vhost = sr_vhost rep\<rparr>
      | SessionFailed \<Rightarrow>
          Answer \<lparr>rp_ok = False, rp_config = None, rp_username = None, rp_groupname = None, rp_ip = None, rp_ipv4_seed = 0, rp_vhost = None\<rparr>
      | _ \<Rightarrow> Recv_Failed 1)"

text \<open>Without an answer the main process reads a closed socket.\<close>

definition secm_exchange :: "sec_env \<Rightarrow> group_cfg \<Rightarrow> 'c sec_mod \<Rightarrow> open_req \<Rightarrow> secm_reply answer" where
  "secm_exchange senv gc sec req =
     (case drop (length (sent sec)) (sent (snd (handle_secm_session_open_cmd senv sec req))) of
        [m] \<Rightarrow> wire_reply gc m
      | _ \<Rightarrow> Recv_Failed 1)"

lemma secm_exchange_ok:
  assumes wf: "sec_wf (hash_any senv) sec" and a: "secm_exchange senv gc sec req = Answer msg" and ok: "rp_ok msg"
  shows "\<exists>e seed. db_get (hash_any senv) sec (or_sid req) = Some e \<and> granted senv req e \<and>
    msg = \<lparr>rp_ok = True, rp_config = Some gc, rp_username = Some (username (acct_info e)), rp_groupname = Some (groupname (acct_info e)),
           rp_ip = Some (SecModDb.remote_ip (acct_info e)), rp_ipv4_seed = seed, rp_vhost = vh_name (ce_vhost e)\<rparr>"
  using session_open_sent [OF wf, of req] a ok
  by (auto simp: secm_exchange_def wire_reply_def)

definition open_request :: "session_env \<Rightarrow> proc \<Rightarrow> bytes \<Rightarrow> open_req" where
  "open_request env pr cookie =
     \<lparr>or_sid = cookie, or_ipv4 = lease_text (se_ntop6 env) (p_ipv4 pr), or_ipv6 = lease_text (se_ntop6 env) (p_ipv6 pr)\<rparr>"

lemma session_open_answer:
  assumes "session_open env s pr (Some cookie) = Some (ret, pr', s')" and "ret \<ge> 0"
  shows "\<exists>msg user. se_open env (open_request env pr cookie) = Answer msg \<and> rp_ok msg \<and> rp_username msg = Some user \<and>
    p_username pr' = strlcpy MAX_USERNAME_SIZE user \<and> p_remote_addr pr' = p_remote_addr pr \<and>
    p_remote_addr_len pr' = p_remote_addr_len pr \<and> (denies_roaming pr' \<longrightarrow> roaming_ok env pr' (rp_ip msg))"
  using assms
  by (auto simp: session_open_def session_opened_def open_request_def Let_def denies_roaming_def
      split: if_splits answer.splits option.splits)

lemma join_session_result:
  assumes "join_session env s p pr cookie = Done (ret, pr', s')" and "ret \<ge> 0"
  shows "p_sid pr' = cookie \<and> p_active_sid pr' \<and> p_username pr' = p_username pr \<and> p_config pr' = p_config pr \<and>
    p_remote_addr pr' = p_remote_addr pr \<and> p_remote_addr_len pr' = p_remote_addr_len pr"
  using assms
  by (auto simp: join_session_def enter_tables_def take_over_def steal_ip_leases_def kill_proc_def bind_out_Done Let_def
      split: if_splits option.splits prod.splits)

text \<open>C3. No tunnel without authentication, across the two processes: when the main process accepts a
  cookie, the security module holds a session with that identifier whose authentication is complete and
  which has not expired; the process gets the name of that session, and with roaming denied the client
  has the address it authenticated from.\<close>

theorem cookie_login_authenticated:
  assumes "sec_wf (hash_any senv) sec" and "se_open (me_session env) = secm_exchange senv gc sec"
    and "handle_auth_cookie_req env s p pr cookie = Done (ret, pr', s')" and "ret \<ge> 0"
  shows "p_sid pr' = cookie \<and> p_active_sid pr' \<and>
    (\<exists>e. kt_get (hash_any senv) sid (client_db sec) cookie = Some e \<and> status e = PS_AUTH_COMPLETED \<and>
      \<not> IS_CLIENT_ENTRY_EXPIRED e (now senv) \<and> p_username pr' = strlcpy MAX_USERNAME_SIZE (username (acct_info e)) \<and>
      (denies_roaming pr' \<longrightarrow> roaming_ok (me_session env) pr' (Some (SecModDb.remote_ip (acct_info e)))))"
proof -
  obtain rnd ret1 pr1 s1 s2 where so: "session_open (me_session env) s (pr\<lparr>p_dtls_session_id := rnd\<rparr>) (Some cookie) = Some (ret1, pr1, s1)"
    and r: "ret1 \<ge> 0" and j: "join_session env s2 p pr1 cookie = Done (ret, pr', s')"
    using assms(3,4) by (auto simp: handle_auth_cookie_req_def bind_out_Done Let_def split: if_splits option.splits)
  obtain msg user where m: "se_open (me_session env) (open_request (me_session env) (pr\<lparr>p_dtls_session_id := rnd\<rparr>) cookie) = Answer msg"
    "rp_ok msg" "rp_username msg = Some user" "p_username pr1 = strlcpy MAX_USERNAME_SIZE user"
    "denies_roaming pr1 \<longrightarrow> roaming_ok (me_session env) pr1 (rp_ip msg)"
    using session_open_answer [OF so r] by blast
  note J = join_session_result [OF j assms(4)]
  obtain e where e: "db_get (hash_any senv) sec cookie = Some e" "granted senv (open_request (me_session env) (pr\<lparr>p_dtls_session_id := rnd\<rparr>) cookie) e"
    "rp_username msg = Some (username (acct_info e))" "rp_ip msg = Some (SecModDb.remote_ip (acct_info e))"
    using secm_exchange_ok [OF assms(1) m(1) [unfolded assms(2)] m(2)] by (auto simp: open_request_def)
  have "denies_roaming pr' = denies_roaming pr1" "\<And>ip. roaming_ok (me_session env) pr' ip = roaming_ok (me_session env) pr1 ip"
    using J by (auto simp: denies_roaming_def roaming_ok_def split: option.split)
  then show ?thesis using J m e by (auto simp: granted_def)
qed

section \<open>A refused reconnection\<close>

lemma session_start_ok:
  assumes "sent (snd (session_start senv sec e)) = sent sec @ [SessionOk rep]"
  shows "snd (session_start senv sec e) = put_entry (hash_any senv) (sec\<lparr>sent := sent sec @ [SessionOk rep]\<rparr>)
    (e\<lparr>exptime := now_later senv + cookie_timeout (ce_vhost e) + AUTH_SLACK_TIME, in_use := in_use e + 1\<rparr>)"
proof -
  have "sent (snd (send_failed_session_open_reply senv sec)) \<noteq> sent sec @ [SessionOk rep]"
    using send_failed_sent [of senv sec] by auto
  then show ?thesis
    using assms unfolding session_start_def Let_def
    by (auto simp: sec_send_def split: option.splits if_splits)
qed

lemma sent_update_db: "client_db (sec\<lparr>sent := ms\<rparr>) = client_db sec"
  by simp

lemma open_ok_state:
  assumes wf: "sec_wf (hash_any senv) sec" and get: "db_get (hash_any senv) sec (or_sid req) = Some e"
    and len: "length (or_sid req) = SID_SIZE" and g: "granted senv req e"
    and ok: "sent (snd (handle_secm_session_open_cmd senv sec req)) = sent sec @ [SessionOk rep]"
  shows "\<exists>e'. db_get (hash_any senv) (snd (handle_secm_session_open_cmd senv sec req)) (or_sid req) = Some e' \<and>
    sec_wf (hash_any senv) (snd (handle_secm_session_open_cmd senv sec req)) \<and> in_use e' = in_use e + 1"
proof -
  let ?H = "hash_any senv" and ?e = "(session_addrs req e)\<lparr>session_is_open := True\<rparr>"
  have s: "sid ?e = or_sid req" "in_use ?e = in_use e" using db_get_sid [OF wf get] by (simp_all add: session_addrs_def)
  have p: "upd ?H sec (put_entry ?H sec ?e) (or_sid req) (Some ?e)" using get s by (intro upd_put [OF wf]) auto
  note r = open_granted [OF wf len get g]
  have "sent (snd (session_start senv (put_entry ?H sec ?e) ?e)) = sent (put_entry ?H sec ?e) @ [SessionOk rep]"
    using ok r by simp
  from session_start_ok [OF this] r obtain sec3 x
    where q: "client_db sec3 = client_db (put_entry ?H sec ?e)"
      "snd (handle_secm_session_open_cmd senv sec req) = put_entry ?H sec3 (?e\<lparr>exptime := x, in_use := in_use ?e + 1\<rparr>)"
    by (metis (no_types) sent_update_db)
  have "upd ?H sec (put_entry ?H sec3 (?e\<lparr>exptime := x, in_use := in_use ?e + 1\<rparr>)) (or_sid req) (Some (?e\<lparr>exptime := x, in_use := in_use ?e + 1\<rparr>))"
    using s q(1) by (intro upd_put_put [OF p]) simp_all
  then show ?thesis unfolding q(2) using s(2) by (auto simp: upd_def)
qed

text \<open>C37. A refused reconnection pins its session: when the security module grants the session and the
  main process then refuses the client, because it comes from another address while roaming is denied,
  the use count of the session was raised but the process is not marked as using it, so its removal
  sends no close request; the session outlives its expiry at every later clean-up.\<close>

theorem refused_reconnection_pins_session:
  fixes sec :: "'c sec_mod"
  assumes "sec_wf (hash_any senv) sec" and "se_open (me_session env) = secm_exchange senv gc sec"
    and "req = open_request (me_session env) pr cookie"
    and "session_open (me_session env) s pr (Some cookie) = Some (ret, pr', s')" and "ret < 0"
    and "sent (snd (handle_secm_session_open_cmd senv sec req)) = sent sec @ [SessionOk rep]"
    and "kt_get (hash_any senv) sid (client_db sec) cookie = Some e" and "in_use e + 1 \<noteq> 0" and "\<not> p_active_sid pr"
  shows "close_pending env quit s' pr' = Done (pr', s') \<and>
    (\<exists>e'. in_use e' = in_use e + 1 \<and>
       (\<forall>t. kt_get (hash_any senv) sid (client_db (cleanup_client_entries t (snd (handle_secm_session_open_cmd senv sec req)))) cookie = Some e'))"
proof -
  have "\<not> p_active_sid pr'"
    using assms(4,9) by (auto simp: session_open_def session_opened_def Let_def split: if_splits answer.splits option.splits)
  moreover obtain e1 where e1: "length (or_sid req) = SID_SIZE" "db_get (hash_any senv) sec (or_sid req) = Some e1" "granted senv req e1"
    using session_open_sent [OF assms(1), of req] assms(6) by auto
  moreover have "e1 = e" using e1(2) assms(3,7) by (simp add: open_request_def)
  ultimately obtain e' where e': "db_get (hash_any senv) (snd (handle_secm_session_open_cmd senv sec req)) cookie = Some e'"
    "sec_wf (hash_any senv) (snd (handle_secm_session_open_cmd senv sec req))" "in_use e' = in_use e + 1"
    using open_ok_state [OF assms(1) e1(2,1,3) assms(6)] assms(3) by (auto simp: open_request_def)
  have "db_get (hash_any senv) (cleanup_client_entries t (snd (handle_secm_session_open_cmd senv sec req))) cookie = Some e'" for t
    using cleanup_get(1) [OF e'(2), of t cookie] e' assms(8) by (simp add: IS_CLIENT_ENTRY_EXPIRED_def)
  then show ?thesis using \<open>\<not> p_active_sid pr'\<close> e'(3) by (auto simp: close_pending_def)
qed

section \<open>Examples\<close>

definition demo_pair_env :: "group_cfg \<Rightarrow> main_env" where
  "demo_pair_env gc = demo_session_env\<lparr>me_session := (me_session demo_session_env)\<lparr>se_open :=
     secm_exchange demo_env gc (demo_sec PS_AUTH_COMPLETED 0)\<rparr>\<rparr>"

definition demo_client :: proc where
  "demo_client = fresh_proc 100 200 5 (blit 0 (ci_peer demo_conn) zero_ss) 16 zero_ss 0"

lemma demo_cookie_accepted:
  "case handle_auth_cookie_req (demo_pair_env demo_gc) demo_busy 7 demo_client (replicate 32 1) of
     Done (ret, pr', s') \<Rightarrow> ret = 0 | _ \<Rightarrow> False"
  by code_simp

theorem cookie_login_authenticated_witness:
  "\<exists>pr' s' e. handle_auth_cookie_req (demo_pair_env demo_gc) demo_busy 7 demo_client (replicate 32 1) = Done (0, pr', s') \<and>
    kt_get (hash_any demo_env) sid (client_db (demo_sec PS_AUTH_COMPLETED 0)) (replicate 32 1) = Some e \<and>
    p_username pr' = strlcpy MAX_USERNAME_SIZE (username (acct_info e))"
proof -
  obtain pr' s' where h: "handle_auth_cookie_req (demo_pair_env demo_gc) demo_busy 7 demo_client (replicate 32 1) = Done (0, pr', s')"
    using demo_cookie_accepted by (auto split: outcome.splits)
  have "sec_wf (hash_any demo_env) (demo_sec PS_AUTH_COMPLETED 0)" using demo_sec_wf by (simp add: demo_env_def)
  moreover have "se_open (me_session (demo_pair_env demo_gc)) = secm_exchange demo_env demo_gc (demo_sec PS_AUTH_COMPLETED 0)"
    by (simp add: demo_pair_env_def)
  ultimately show ?thesis using cookie_login_authenticated [OF _ _ h] h by blast
qed

lemma demo_roaming_refused:
  "case session_open (me_session (demo_pair_env (demo_gc\<lparr>gc_deny_roaming := Some True\<rparr>))) demo_busy demo_client (Some (replicate 32 1)) of
     Some (ret, pr', s') \<Rightarrow> ret = - 1 | None \<Rightarrow> False"
  by code_simp

theorem refused_reconnection_pins_session_witness:
  "\<exists>pr' s' e'. session_open (me_session (demo_pair_env (demo_gc\<lparr>gc_deny_roaming := Some True\<rparr>))) demo_busy demo_client (Some (replicate 32 1)) =
      Some (- 1, pr', s') \<and> in_use e' = 1 \<and>
    kt_get (hash_any demo_env) sid (client_db (cleanup_client_entries 1000000 (snd (handle_secm_session_open_cmd demo_env (demo_sec PS_AUTH_COMPLETED 0)
      (open_request (me_session (demo_pair_env (demo_gc\<lparr>gc_deny_roaming := Some True\<rparr>))) demo_client (replicate 32 1)))))) (replicate 32 1) = Some e'"
proof -
  let ?gc = "demo_gc\<lparr>gc_deny_roaming := Some True\<rparr>" and ?c = "replicate 32 1 :: bytes" and ?sec = "demo_sec PS_AUTH_COMPLETED 0"
  let ?req = "open_request (me_session (demo_pair_env ?gc)) demo_client ?c"
  obtain pr' s' where h: "session_open (me_session (demo_pair_env ?gc)) demo_busy demo_client (Some ?c) = Some (- 1, pr', s')"
    using demo_roaming_refused by (auto split: option.splits)
  have wf: "sec_wf (hash_any demo_env) ?sec" using demo_sec_wf by (simp add: demo_env_def)
  have op: "se_open (me_session (demo_pair_env ?gc)) = secm_exchange demo_env ?gc ?sec" by (simp add: demo_pair_env_def)
  have a: "sent (snd (handle_secm_session_open_cmd demo_env ?sec ?req)) = sent ?sec @ [SessionOk \<lparr>sr_username = ''bob'', sr_groupname = [],
      sr_ip = [], sr_tls_auth_ok = True, sr_vhost = None, sr_ipv4_seed = 7, sr_sid = ?c\<rparr>]"
    by code_simp
  have b: "kt_get (hash_any demo_env) sid (client_db ?sec) ?c = Some (demo_entry PS_AUTH_COMPLETED 0)"
    using demo_sec_get by (simp add: demo_env_def)
  have c: "in_use (demo_entry PS_AUTH_COMPLETED 0) = 0" by (simp add: demo_entry_def)
  have d: "\<not> p_active_sid demo_client" by (simp add: demo_client_def fresh_proc_def)
  have n: "in_use (demo_entry PS_AUTH_COMPLETED 0) + 1 \<noteq> 0" unfolding c by simp
  obtain e' where "in_use e' = in_use (demo_entry PS_AUTH_COMPLETED 0) + 1"
    "kt_get (hash_any demo_env) sid (client_db (cleanup_client_entries 1000000 (snd (handle_secm_session_open_cmd demo_env ?sec ?req)))) ?c = Some e'"
    using refused_reconnection_pins_session [OF wf op refl h _ a b n d] by auto
  then show ?thesis using h unfolding c by auto
qed

end
