(* ===== verification/Bandwidth.thy ===== *)
theory Bandwidth
  imports Prelude
begin

text \<open>
  The rate limit of a session, \<^verbatim>\<open>src/src/worker-bandwidth.c\<close> and its header: an allowance in kilobytes
  that is renewed in windows of half a second. All counters keep their 64 bits; the time difference
  is the 32-bit number of milliseconds of \<^verbatim>\<open>timespec_sub_ms\<close>. The lemmas show that the allowance is
  never above the configured rate, that a renewal never goes below zero when the rate is above one
  packet per window, so that the windows together carry no more than the rate allows, and what
  happens below that rate.
\<close>

record timespec =
  tv_sec :: int
  tv_nsec :: int

definition timespec_sub_ms :: "timespec \<Rightarrow> timespec \<Rightarrow> u32" where
  "timespec_sub_ms a b =
     word_of_int (tv_sec a * 1000 + tv_nsec a div 1000000 - (tv_sec b * 1000 + tv_nsec b div 1000000))"

record bandwidth_st =
  count_start :: timespec
  transferred_bytes :: u64
  allowed_kb :: u64
  allowed_kb_per_count :: u64
  kb_per_sec :: u64

definition COUNT_UPDATE_MS :: nat where "COUNT_UPDATE_MS = 500"

definition bandwidth_init :: "u64 \<Rightarrow> bandwidth_st" where
  "bandwidth_init kps =
     \<lparr>count_start = \<lparr>tv_sec = 0, tv_nsec = 0\<rparr>, transferred_bytes = 0, allowed_kb = 0,
      allowed_kb_per_count = kps * of_nat COUNT_UPDATE_MS div 1000, kb_per_sec = kps\<rparr>"

text \<open>The kilobytes charged for the window that ends at \<open>nw\<close>, scaled to half a second.\<close>

definition window_charge :: "bandwidth_st \<Rightarrow> timespec \<Rightarrow> u64" where
  "window_charge b nw =
     (transferred_bytes b div 1000) * of_nat COUNT_UPDATE_MS div ucast (timespec_sub_ms nw (count_start b))"

text \<open>The variables \<^verbatim>\<open>remain\<close> and \<^verbatim>\<open>t\<close> are signed, but \<^verbatim>\<open>MIN(t, b->kb_per_sec)\<close> compares \<^verbatim>\<open>t\<close> as the
  unsigned type of its other operand.\<close>

definition bandwidth_update_on :: "bandwidth_st \<Rightarrow> u64 \<Rightarrow> timespec \<Rightarrow> bool \<times> bandwidth_st" where
  "bandwidth_update_on b byts nw =
     (if COUNT_UPDATE_MS \<le> unat (timespec_sub_ms nw (count_start b)) then
        (let remain = allowed_kb b - window_charge b nw;
             t = allowed_kb_per_count b + remain
         in (True, b\<lparr>count_start := nw, allowed_kb := (if t < kb_per_sec b then t else kb_per_sec b),
                     transferred_bytes := byts\<rparr>))
      else
        (let sm = transferred_bytes b + byts
         in if allowed_kb b * 1000 < sm then (False, b)
            else (True, b\<lparr>transferred_bytes := sm\<rparr>)))"

definition bandwidth_update :: "bandwidth_st \<Rightarrow> u64 \<Rightarrow> timespec \<Rightarrow> bool \<times> bandwidth_st" where
  "bandwidth_update b byts nw = (if kb_per_sec b = 0 then (True, b) else bandwidth_update_on b byts nw)"

section \<open>What the windows carry\<close>

text \<open>The kilobytes charged to each window that a run of requests closes.\<close>

fun charges :: "bandwidth_st \<Rightarrow> (u64 \<times> timespec) list \<Rightarrow> nat list" where
  "charges b [] = []"
| "charges b ((byts, nw) # rs) =
     (if COUNT_UPDATE_MS \<le> unat (timespec_sub_ms nw (count_start b)) then [unat (window_charge b nw)] else [])
     @ charges (snd (bandwidth_update b byts nw)) rs"

text \<open>Counters that no packet of the tunnel can drive to an overflow: the rate is below a terabyte per
  second, and what a window carried is one packet or what was allowed.\<close>

definition packet_max :: nat where "packet_max = 16384"

definition bw_inv :: "u64 \<Rightarrow> bandwidth_st \<Rightarrow> bool" where
  "bw_inv kps b \<longleftrightarrow> kb_per_sec b = kps \<and> allowed_kb_per_count b = kps * 500 div 1000 \<and>
     unat (allowed_kb b) \<le> unat kps \<and>
     unat (transferred_bytes b) \<le> max packet_max (1000 * unat (allowed_kb b))"

definition rate_ok :: "u64 \<Rightarrow> bool" where
  "rate_ok kps \<longleftrightarrow> 34 \<le> unat kps \<and> unat kps \<le> 2 ^ 30"

lemma bw_inv_init [simp]: "bw_inv kps (bandwidth_init kps)"
  by (simp add: bw_inv_def bandwidth_init_def COUNT_UPDATE_MS_def)

lemma unat_per_count:
  assumes "unat kps \<le> 2 ^ 30"
  shows "unat (kps * 500 div 1000 :: u64) = unat kps div 2"
proof -
  have "unat (kps * 500) = unat kps * 500" using assms by (simp add: unat_mult_lem [THEN iffD1])
  then show ?thesis by (simp add: unat_div)
qed

lemma unat_ucast_64: "unat (ucast x :: u64) = unat x" for x :: u32
proof -
  have "unat x < 2 ^ LENGTH(32)" by (rule unsigned_less)
  then show ?thesis by (simp add: unsigned_ucast_eq take_bit_nat_eq_self)
qed

lemma window_charge_le:
  assumes "bw_inv kps b" and "unat kps \<le> 2 ^ 30" and "COUNT_UPDATE_MS \<le> unat (timespec_sub_ms nw (count_start b))"
  shows "unat (window_charge b nw) \<le> unat (transferred_bytes b) div 1000"
proof -
  let ?t = "transferred_bytes b div 1000" and ?d = "timespec_sub_ms nw (count_start b)"
  have t: "unat ?t = unat (transferred_bytes b) div 1000" by (simp add: unat_div)
  have "unat (transferred_bytes b) \<le> 1000 * 2 ^ 30"
    using assms(1,2) by (auto simp: bw_inv_def packet_max_def)
  then have "unat (?t * 500) = unat ?t * 500" unfolding t by (subst unat_mult_lem [THEN iffD1]) (simp_all add: t)
  then have "unat (window_charge b nw) = unat ?t * 500 div unat ?d"
    by (simp add: window_charge_def COUNT_UPDATE_MS_def unat_div unat_ucast_64)
  also have "\<dots> \<le> unat ?t * 500 div 500" using assms(3) by (intro div_le_mono2) (simp_all add: COUNT_UPDATE_MS_def)
  finally show ?thesis using t by simp
qed

text \<open>A renewal at a rate above one packet per window is exact: nothing wraps around.\<close>

lemma renewal_exact:
  assumes "bw_inv kps b" and "rate_ok kps" and "COUNT_UPDATE_MS \<le> unat (timespec_sub_ms nw (count_start b))"
  shows "unat (allowed_kb_per_count b + (allowed_kb b - window_charge b nw)) + unat (window_charge b nw) =
    unat kps div 2 + unat (allowed_kb b)"
proof -
  let ?c = "window_charge b nw" and ?a = "allowed_kb b" and ?p = "allowed_kb_per_count b"
  have kps: "unat kps \<le> 2 ^ 30" "34 \<le> unat kps" using assms(2) by (simp_all add: rate_ok_def)
  have p: "unat ?p = unat kps div 2" using assms(1) unat_per_count [OF kps(1)] by (simp add: bw_inv_def)
  have a: "unat ?a \<le> 2 ^ 30" using assms(1) kps by (simp add: bw_inv_def)
  have sum: "unat (?p + ?a) = unat kps div 2 + unat ?a"
    using kps a p by (subst unat_add_lem [THEN iffD1]) simp_all
  have "unat ?c \<le> unat (transferred_bytes b) div 1000"
    by (rule window_charge_le [OF assms(1) kps(1) assms(3)])
  also have "\<dots> \<le> max 16 (unat ?a)"
    using assms(1) by (auto simp: bw_inv_def packet_max_def max_def split: if_splits)
  finally have "unat ?c \<le> unat (?p + ?a)" using kps sum by (auto simp: max_def split: if_splits)
  then have "unat (?p + ?a - ?c) = unat (?p + ?a) - unat ?c" by (simp add: unat_sub word_le_nat_alt)
  then show ?thesis using \<open>unat ?c \<le> unat (?p + ?a)\<close> sum by (simp add: add_diff_eq)
qed

lemma update_inv:
  assumes "bw_inv kps b" and "unat kps \<le> 2 ^ 30" and "unat byts \<le> packet_max"
  shows "bw_inv kps (snd (bandwidth_update b byts nw))"
proof -
  have s: "unat (transferred_bytes b + byts) = unat (transferred_bytes b) + unat byts"
    using assms by (subst unat_add_lem [THEN iffD1]) (auto simp: bw_inv_def packet_max_def)
  have m: "unat (allowed_kb b * 1000) = unat (allowed_kb b) * 1000"
    using assms by (subst unat_mult_lem [THEN iffD1]) (auto simp: bw_inv_def)
  show ?thesis
    using assms s m
    by (auto simp: bandwidth_update_def bandwidth_update_on_def bw_inv_def Let_def word_less_nat_alt not_less
        max_def split: if_splits)
qed

text \<open>The allowance pays for the charge of a window.\<close>

lemma update_allowance:
  assumes "bw_inv kps b" and "rate_ok kps"
  shows "unat (allowed_kb (snd (bandwidth_update b byts nw))) +
      (if COUNT_UPDATE_MS \<le> unat (timespec_sub_ms nw (count_start b)) then unat (window_charge b nw) else 0)
    \<le> unat (allowed_kb b) +
      (if COUNT_UPDATE_MS \<le> unat (timespec_sub_ms nw (count_start b)) then unat kps div 2 else 0)"
proof (cases "COUNT_UPDATE_MS \<le> unat (timespec_sub_ms nw (count_start b))")
  case True
  have "kb_per_sec b \<noteq> 0" using assms by (auto simp: bw_inv_def rate_ok_def)
  then show ?thesis using renewal_exact [OF assms True] True
    by (auto simp: bandwidth_update_def bandwidth_update_on_def Let_def word_less_nat_alt not_less)
next
  case False
  then show ?thesis by (auto simp: bandwidth_update_def bandwidth_update_on_def Let_def)
qed

lemma charges_paid:
  assumes "bw_inv kps b" and "rate_ok kps" and "list_all (\<lambda>(byts, _). unat byts \<le> packet_max) rs"
  shows "sum_list (charges b rs) \<le> unat (allowed_kb b) + unat kps div 2 * length (charges b rs)"
  using assms(1,3)
proof (induction b rs rule: charges.induct)
  case (1 b)
  then show ?case by simp
next
  case (2 b byts nw rs)
  let ?b = "snd (bandwidth_update b byts nw)"
  have kps: "unat kps \<le> 2 ^ 30" using assms(2) by (simp add: rate_ok_def)
  have "bw_inv kps ?b" using 2(2,3) kps by (intro update_inv) simp_all
  then have "sum_list (charges ?b rs) \<le> unat (allowed_kb ?b) + unat kps div 2 * length (charges ?b rs)"
    using 2(3) by (intro 2(1)) simp_all
  with update_allowance [OF 2(2) assms(2), of byts nw] show ?case by (auto split: if_splits)
qed


definition demo_requests :: "(u64 \<times> timespec) list" where
  "demo_requests =
     [(15000, \<lparr>tv_sec = 100, tv_nsec = 0\<rparr>), (4000, \<lparr>tv_sec = 100, tv_nsec = 100000000\<rparr>),
      (16000, \<lparr>tv_sec = 100, tv_nsec = 600000000\<rparr>), (16000, \<lparr>tv_sec = 101, tv_nsec = 600000000\<rparr>)]"

lemma demo_charges: "charges (bandwidth_init 40) demo_requests = [0, 15, 8]"
  by code_simp


text \<open>An overdraft is rewarded: when a window was charged more than the allowance and its renewal
  together (one packet is enough at a small rate), the negative balance is compared as an unsigned
  number and the next window is allowed the full rate of a second, more than a session that stayed
  within its allowance gets.\<close>

theorem overdraft_refills:
  assumes "kb_per_sec b \<noteq> 0" and "COUNT_UPDATE_MS \<le> unat (timespec_sub_ms nw (count_start b))"
    and "unat (allowed_kb_per_count b) + unat (allowed_kb b) < unat (window_charge b nw)"
    and "unat (window_charge b nw) \<le> 2 ^ 40" and "unat (kb_per_sec b) \<le> 2 ^ 40"
  shows "\<exists>b'. bandwidth_update b byts nw = (True, b') \<and> allowed_kb b' = kb_per_sec b"
proof -
  let ?c = "window_charge b nw" and ?s = "allowed_kb_per_count b + allowed_kb b"
  have s: "unat ?s = unat (allowed_kb_per_count b) + unat (allowed_kb b)"
    using assms(3,4) by (subst unat_add_lem [THEN iffD1]) simp_all
  have "unat (?s - ?c) = unat ?s + 2 ^ 64 - unat ?c"
    using assms(3) s by (simp add: unat_sub_if' word_le_nat_alt)
  then have "unat (kb_per_sec b) \<le> unat (?s - ?c)" using assms(4,5) by simp
  then have "\<not> ?s - ?c < kb_per_sec b" by (simp add: word_less_nat_alt)
  then show ?thesis using assms(1,2)
    by (auto simp: bandwidth_update_def bandwidth_update_on_def Let_def add_diff_eq)
qed

definition demo_overdrawn :: bandwidth_st where
  "demo_overdrawn = snd (bandwidth_update (bandwidth_init 10) 16000 \<lparr>tv_sec = 100, tv_nsec = 0\<rparr>)"

lemma demo_overdrawn_eq:
  "demo_overdrawn = \<lparr>count_start = \<lparr>tv_sec = 100, tv_nsec = 0\<rparr>, transferred_bytes = 16000, allowed_kb = 5,
     allowed_kb_per_count = 5, kb_per_sec = 10\<rparr>"
  by code_simp

theorem overdraft_refills_witness:
  "\<exists>b'. bandwidth_update demo_overdrawn 16000 \<lparr>tv_sec = 100, tv_nsec = 500000000\<rparr> = (True, b') \<and>
     allowed_kb b' = kb_per_sec demo_overdrawn"
  by (rule overdraft_refills)
    (simp_all add: demo_overdrawn_eq window_charge_def timespec_sub_ms_def COUNT_UPDATE_MS_def)

end
