(* ===== verification/Worker.thy ===== *)
theory Worker
  imports Bandwidth
begin

text \<open>
  The worker process of an established tunnel, \<^verbatim>\<open>src/src/worker-vpn.c\<close>: its state, what it sends, how it
  leaves, and the search for the MTU of the path to the client.

  The record \<open>worker\<close> has the fields of \<^verbatim>\<open>struct worker_st\<close> (\<^verbatim>\<open>src/src/worker.h\<close>) that the tunnel uses, the
  two globals \<^verbatim>\<open>terminate\<close> and \<^verbatim>\<open>terminate_reason\<close>, and the values of the configuration it reads. GnuTLS,
  the tun device and the kernel's sockets are the functions of a \<open>worker_env\<close>: what a send returns, which
  GnuTLS errors are fatal, what the handshake and the path MTU queries give. What the worker hands to
  them is collected in \<open>w_out\<close>, the latest first. An operation that may end the process returns a
  \<open>wres\<close>: the value, the exit with its reason, or \<open>Overrun\<close>, an access outside of \<^verbatim>\<open>ws->buffer\<close>.
\<close>

section \<open>State\<close>

datatype udp_port_state = UP_DISABLED | UP_WAIT_FD | UP_SETUP | UP_HANDSHAKE | UP_INACTIVE | UP_ACTIVE

datatype w_proto = W_INET | W_INET6

datatype comp_id = OC_COMP_LZ4 | OC_COMP_LZS

abbreviation (input) REASON_ANY :: nat where "REASON_ANY \<equiv> 1"
abbreviation (input) REASON_USER_DISCONNECT :: nat where "REASON_USER_DISCONNECT \<equiv> 2"
abbreviation (input) REASON_SERVER_DISCONNECT :: nat where "REASON_SERVER_DISCONNECT \<equiv> 3"
abbreviation (input) REASON_IDLE_TIMEOUT :: nat where "REASON_IDLE_TIMEOUT \<equiv> 4"
abbreviation (input) REASON_DPD_TIMEOUT :: nat where "REASON_DPD_TIMEOUT \<equiv> 5"
abbreviation (input) REASON_ERROR :: nat where "REASON_ERROR \<equiv> 6"
abbreviation (input) REASON_SESSION_TIMEOUT :: nat where "REASON_SESSION_TIMEOUT \<equiv> 7"

abbreviation (input) AC_PKT_DATA :: u8 where "AC_PKT_DATA \<equiv> 0"
abbreviation (input) AC_PKT_DPD_OUT :: u8 where "AC_PKT_DPD_OUT \<equiv> 3"
abbreviation (input) AC_PKT_DPD_RESP :: u8 where "AC_PKT_DPD_RESP \<equiv> 4"
abbreviation (input) AC_PKT_DISCONN :: u8 where "AC_PKT_DISCONN \<equiv> 5"
abbreviation (input) AC_PKT_KEEPALIVE :: u8 where "AC_PKT_KEEPALIVE \<equiv> 7"
abbreviation (input) AC_PKT_COMPRESSED :: u8 where "AC_PKT_COMPRESSED \<equiv> 8"

abbreviation (input) GNUTLS_E_LARGE_PACKET :: int where "GNUTLS_E_LARGE_PACKET \<equiv> - 7"
abbreviation (input) GNUTLS_E_REHANDSHAKE :: int where "GNUTLS_E_REHANDSHAKE \<equiv> - 37"
abbreviation (input) GNUTLS_E_PREMATURE_TERMINATION :: int where "GNUTLS_E_PREMATURE_TERMINATION \<equiv> - 110"

text \<open>The size of \<^verbatim>\<open>ws->buffer\<close> and of \<^verbatim>\<open>ws->decomp\<close>.\<close>

definition BUFFER_SIZE :: nat where "BUFFER_SIZE = 16384"

datatype worker_out =
    Dtls_Send bytes
  | Cstp_Send bytes
  | Tun_Write bytes
  | Tun_Mtu u32 \<comment> \<open>\<^verbatim>\<open>CMD_TUN_MTU\<close> to the main process\<close>
  | Set_Dtls_Mtu u32
  | Mtu_Disc_Off
  | Session_Info "string option" "comp_id option" "string option" "comp_id option"
      "string option" "string option" "string option" "(bytes \<times> bytes) option"
  | Cli_Stats u64 u64 int "nat option" \<comment> \<open>\<^verbatim>\<open>CMD_SEC_CLI_STATS\<close>: in, out, uptime, reason\<close>
  | Ban_Ip u32 \<comment> \<open>\<^verbatim>\<open>CMD_BAN_IP\<close> to the main process\<close>

record worker =
  w_session :: bool \<comment> \<open>\<^verbatim>\<open>ws->session != NULL\<close>: TLS ends in this process\<close>
  w_dtls_session :: bool
  w_dtls_comp :: "comp_id option"
  w_cstp_comp :: "comp_id option"
  w_user_agent :: string
  w_devtype :: string
  w_hostname :: string
  w_use_psk :: bool
  w_req_link_mtu :: u32
  w_req_tunnel_mtu :: u32
  w_no_ipv6 :: bool
  w_sid_set :: bool
  w_conn_unix :: bool \<comment> \<open>\<^verbatim>\<open>conn_type == SOCK_TYPE_UNIX\<close>\<close>
  w_auth_complete :: bool
  w_our_addr :: bytes
  w_remote_addr :: bytes
  w_proto :: w_proto
  w_start :: time_t \<comment> \<open>\<^verbatim>\<open>session_start_time\<close>\<close>
  last_msg_udp :: time_t
  last_msg_tcp :: time_t
  last_nc_msg :: time_t
  last_periodic_check :: time_t
  w_dtls_fd :: "nat option"
  w_dtls_msg :: "bytes option"
  w_udp_state :: udp_port_state
  w_udp_recv_time :: time_t
  last_tls_rehandshake :: time_t
  last_dtls_rehandshake :: time_t
  last_stats_msg :: time_t
  last_good_mtu :: u32
  last_bad_mtu :: u32
  b_tx :: bandwidth_st
  b_rx :: bandwidth_st
  link_mtu :: u32
  adv_link_mtu :: u32
  cstp_crypto_overhead :: u32
  cstp_proto_overhead :: u32
  dtls_crypto_overhead :: u32
  dtls_proto_overhead :: u32
  w_decomp :: bytes
  w_ban_points :: u32
  tun_bytes_in :: u64
  tun_bytes_out :: u64
  vinfo_ipv6 :: bool
  vinfo_mtu :: u32
  c_try_mtu :: bool
  c_idle_timeout :: u32
  c_rekey_time :: int
  c_switch_to_tcp_timeout :: u32
  c_no_compress_limit :: u32
  c_max_ban_score :: u32
  c_ban_points_wrong_password :: u32
  c_listen_proxy_proto :: bool
  c_dtls_legacy :: bool
  u_session_timeout_secs :: u32
  u_interim_update_secs :: u32
  u_dpd :: u32
  u_mtu :: u32
  w_terminate :: bool
  w_terminate_reason :: nat
  w_out :: "worker_out list"

definition wemit :: "worker_out \<Rightarrow> worker \<Rightarrow> worker" where
  "wemit x ws = ws\<lparr>w_out := x # w_out ws\<rparr>"

datatype 'a wres = Returns 'a | Exits nat worker | Overrun

definition bind_w :: "'a wres \<Rightarrow> ('a \<Rightarrow> 'b wres) \<Rightarrow> 'b wres" where
  "bind_w m f = (case m of Returns x \<Rightarrow> f x | Exits r ws \<Rightarrow> Exits r ws | Overrun \<Rightarrow> Overrun)"

lemma bind_w_simps [simp]:
  "bind_w (Returns x) f = f x" "bind_w (Exits r ws) f = Exits r ws" "bind_w Overrun f = Overrun"
  by (simp_all add: bind_w_def)

lemma bind_w_Returns: "bind_w m f = Returns y \<longleftrightarrow> (\<exists>x. m = Returns x \<and> f x = Returns y)"
  by (cases m) simp_all

lemma bind_w_Overrun: "bind_w m f = Overrun \<longleftrightarrow> m = Overrun \<or> (\<exists>x. m = Returns x \<and> f x = Overrun)"
  by (cases m) simp_all

record worker_env =
  we_dtls_send :: "bytes \<Rightarrow> int"
  we_cstp_send :: "bytes \<Rightarrow> int"
  we_tun_write :: "bytes \<Rightarrow> int"
  we_fatal :: "int \<Rightarrow> bool" \<comment> \<open>\<^verbatim>\<open>gnutls_error_is_fatal\<close>\<close>
  we_errno_fatal :: bool \<comment> \<open>\<^verbatim>\<open>errno\<close> is neither \<^verbatim>\<open>EINTR\<close> nor \<^verbatim>\<open>EAGAIN\<close>\<close>
  we_dtls_mtu :: "u32 \<Rightarrow> u32" \<comment> \<open>\<^verbatim>\<open>gnutls_dtls_get_mtu\<close> after \<^verbatim>\<open>gnutls_dtls_set_data_mtu\<close>\<close>
  we_path_mtu :: "u32 option" \<comment> \<open>\<^verbatim>\<open>IPV6_PATHMTU\<close>\<close>
  we_pmtu :: int \<comment> \<open>\<^verbatim>\<open>get_pmtu_approx\<close>\<close>
  we_secmod_up :: bool
  we_ban_reply :: "bool option" \<comment> \<open>whether the reply to \<^verbatim>\<open>CMD_BAN_IP\<close> is OK\<close>
  we_tls_desc :: string
  we_dtls_desc :: string
  we_tls_overhead :: u32 \<comment> \<open>\<^verbatim>\<open>tls_get_overhead\<close> of the TLS session, of DTLS with its cipher, of the\<close>
  we_max_tls_overhead :: u32 \<comment> \<open>selected DTLS ciphersuite, and of AES-128-CBC with SHA1\<close>
  we_max_dtls_overhead :: u32
  we_psk_overhead :: u32
  we_suite_overhead :: "u32 option"
  we_time :: time_t
  we_lz4_compress :: "nat \<Rightarrow> bytes \<Rightarrow> bytes option"
  we_lz4_decompress :: "bytes \<Rightarrow> bytes \<Rightarrow> (nat \<times> bytes) option"
  we_chain :: "nat \<Rightarrow> nat" \<comment> \<open>the uninitialised hash chain of \<^verbatim>\<open>lzs_compress\<close>\<close>
  we_scratch :: bytes \<comment> \<open>what a failed compression leaves in \<^verbatim>\<open>ws->decomp\<close>\<close>
  we_setup_keys :: bool \<comment> \<open>\<^verbatim>\<open>setup_dtls_psk_keys\<close> or \<^verbatim>\<open>setup_legacy_dtls_keys\<close> succeeded\<close>
  we_handshake :: int \<comment> \<open>the last result of a repeated \<^verbatim>\<open>gnutls_handshake\<close>\<close>
  we_handshakes :: "int list" \<comment> \<open>successive results of \<^verbatim>\<open>gnutls_handshake\<close> on the DTLS session\<close>
  we_first_packet :: bool \<comment> \<open>the first packet on a new UDP socket authenticates\<close>

section \<open>Leaving\<close>

definition send_stats_to_secmod :: "worker_env \<Rightarrow> time_t \<Rightarrow> nat \<Rightarrow> worker \<Rightarrow> worker" where
  "send_stats_to_secmod e nw reason ws =
     (let ws = ws\<lparr>last_stats_msg := nw\<rparr>
      in if we_secmod_up e
         then wemit (Cli_Stats (tun_bytes_in ws) (tun_bytes_out ws) (nw - w_start ws)
                (if reason = 0 then None else Some reason)) ws
         else ws)"

definition ws_add_score_to_ip :: "worker_env \<Rightarrow> u32 \<Rightarrow> bool \<Rightarrow> worker \<Rightarrow> unit wres \<times> worker" where
  "ws_add_score_to_ip e points fin ws =
     (if c_max_ban_score ws = 0 then (Returns (), ws)
      else
        (let ws = (if fin then ws else ws\<lparr>w_ban_points := w_ban_points ws + points\<rparr>)
         in if \<not> fin \<and> points < c_ban_points_wrong_password ws then (Returns (), ws)
            else
              (let ws = wemit (Ban_Ip points) ws
               in if \<not> fin \<and> we_ban_reply e = Some False then (Exits 0 ws, ws) else (Returns (), ws))))"

definition exit_worker_reason :: "worker_env \<Rightarrow> nat \<Rightarrow> worker \<Rightarrow> 'a wres" where
  "exit_worker_reason e reason ws =
     (let ws = (if w_auth_complete ws then send_stats_to_secmod e (we_time e) reason ws else ws);
          ws = (if 0 < w_ban_points ws then snd (ws_add_score_to_ip e 0 True ws) else ws)
      in Exits reason ws)"

definition DTLS_FATAL_ERR_CMD :: "worker_env \<Rightarrow> int \<Rightarrow> worker \<Rightarrow> worker wres" where
  "DTLS_FATAL_ERR_CMD e x ws =
     (if x < 0 \<and> we_fatal e x then exit_worker_reason e REASON_ERROR ws else Returns ws)"

definition CSTP_FATAL_ERR_CMD :: "worker_env \<Rightarrow> int \<Rightarrow> worker \<Rightarrow> worker wres" where
  "CSTP_FATAL_ERR_CMD e x ws =
     (if x < 0 \<and> (if w_session ws then we_fatal e x else we_errno_fatal e)
      then exit_worker_reason e REASON_ERROR ws else Returns ws)"

section \<open>The MTU\<close>

text \<open>Every subtraction is on \<^verbatim>\<open>unsigned\<close> values and wraps around.\<close>

definition DATA_MTU :: "worker \<Rightarrow> u32 \<Rightarrow> u32" where
  "DATA_MTU ws m = m - dtls_crypto_overhead ws - dtls_proto_overhead ws"

definition MIN_MTU :: "worker \<Rightarrow> u32" where
  "MIN_MTU ws = (if vinfo_ipv6 ws then 1280 else 800)"

definition data_mtu_send :: "u32 \<Rightarrow> worker \<Rightarrow> worker" where
  "data_mtu_send m ws = wemit (Tun_Mtu m) ws"

definition link_mtu_set :: "u32 \<Rightarrow> worker \<Rightarrow> worker" where
  "link_mtu_set m ws =
     (if link_mtu ws = m \<or> BUFFER_SIZE < unat m then ws
      else
        (let ws = ws\<lparr>link_mtu := m\<rparr>;
             ws = (if w_dtls_session ws then wemit (Set_Dtls_Mtu (link_mtu ws - dtls_proto_overhead ws)) ws else ws)
         in data_mtu_send (DATA_MTU ws (link_mtu ws)) ws))"

definition data_mtu_set :: "worker_env \<Rightarrow> u32 \<Rightarrow> worker \<Rightarrow> worker" where
  "data_mtu_set e m ws =
     (if w_dtls_session ws then
        (let m = we_dtls_mtu e (m + 1)
         in if m = 0 \<or> m = link_mtu ws then ws else link_mtu_set (m + dtls_proto_overhead ws) ws)
      else ws)"

definition disable_mtu_disc :: "worker \<Rightarrow> worker" where
  "disable_mtu_disc ws = (link_mtu_set (adv_link_mtu ws) (wemit Mtu_Disc_Off ws))\<lparr>c_try_mtu := False\<rparr>"

definition mtu_not_ok :: "worker_env \<Rightarrow> worker \<Rightarrow> worker" where
  "mtu_not_ok e ws =
     (if \<not> c_try_mtu ws \<or> \<not> w_dtls_session ws then ws
      else
        case w_proto ws of
          W_INET \<Rightarrow>
            (let min = MIN_MTU ws; ws = ws\<lparr>last_bad_mtu := link_mtu ws\<rparr>
             in if last_good_mtu ws = min then link_mtu_set min (disable_mtu_disc ws)
                else
                  (let ws = (if link_mtu ws \<le> last_good_mtu ws
                             then ws\<lparr>last_good_mtu := max (2 * link_mtu ws div 3) min\<rparr> else ws)
                   in link_mtu_set (last_good_mtu ws) ws))
        | W_INET6 \<Rightarrow>
            (case we_path_mtu e of
               None \<Rightarrow> link_mtu_set (MIN_MTU ws) (disable_mtu_disc ws)
             | Some m \<Rightarrow>
                 if m < 1280 then link_mtu_set (MIN_MTU ws) (disable_mtu_disc ws)
                 else link_mtu_set m ws))"

definition mtu_discovery_init :: "u32 \<Rightarrow> worker \<Rightarrow> worker" where
  "mtu_discovery_init m ws =
     (let ws = (if m \<le> MIN_MTU ws then disable_mtu_disc ws else ws)
      in ws\<lparr>last_good_mtu := m, last_bad_mtu := m\<rparr>)"

definition mtu_ok :: "worker \<Rightarrow> worker" where
  "mtu_ok ws =
     (if \<not> c_try_mtu ws \<or> w_proto ws = W_INET6 then ws
      else if last_bad_mtu ws = link_mtu ws + 1 \<or> last_bad_mtu ws = link_mtu ws then ws
      else
        (let ws = ws\<lparr>last_good_mtu := link_mtu ws\<rparr>
         in link_mtu_set ((link_mtu ws + last_bad_mtu ws) div 2) ws))"

definition calc_mtu_values :: "worker_env \<Rightarrow> worker \<Rightarrow> worker" where
  "calc_mtu_values e ws =
     (let ip = (case w_proto ws of W_INET \<Rightarrow> 20 | W_INET6 \<Rightarrow> 40);
          ws = ws\<lparr>cstp_proto_overhead := ip + 20, dtls_proto_overhead := ip + 8\<rparr>;
          ws = ws\<lparr>cstp_crypto_overhead := 8 + (if w_session ws then we_tls_overhead e else we_max_tls_overhead e),
                  link_mtu := vinfo_mtu ws\<rparr>;
          ws = (if w_udp_state ws \<noteq> UP_DISABLED then
                  (let o' = (if w_use_psk ws then
                               (if w_session ws then we_psk_overhead e else 1 + we_max_dtls_overhead e)
                             else case we_suite_overhead e of Some o' \<Rightarrow> o' | None \<Rightarrow> dtls_crypto_overhead ws)
                   in ws\<lparr>dtls_crypto_overhead := o' + 1\<rparr>)
                else ws)
      in ws\<lparr>adv_link_mtu := link_mtu ws\<rparr>)"

text \<open>The part of \<^verbatim>\<open>connect_handler\<close> that settles the MTU of a new tunnel: the configured MTU, reduced to
  what the peer reports, then the estimate from the TCP connection.\<close>

definition peer_mtu :: "worker_env \<Rightarrow> worker \<Rightarrow> worker" where
  "peer_mtu e ws =
     (let ws = (if 0 < u_mtu ws then ws\<lparr>vinfo_mtu := u_mtu ws\<rparr> else ws)
      in if 0 < w_req_link_mtu ws then ws\<lparr>vinfo_mtu := min (vinfo_mtu ws) (w_req_link_mtu ws)\<rparr>
         else if 0 < w_req_tunnel_mtu ws then
           (let proto = (case w_proto ws of W_INET \<Rightarrow> 28 | W_INET6 \<Rightarrow> 48);
                peer = ucast (w_req_tunnel_mtu ws + proto) + (1 + ucast (we_max_dtls_overhead e)) :: u64
            in ws\<lparr>vinfo_mtu := ucast (min (ucast (vinfo_mtu ws)) peer)\<rparr>)
         else ws)"

definition connect_mtu :: "worker_env \<Rightarrow> worker \<Rightarrow> worker" where
  "connect_mtu e ws =
     (let ws = peer_mtu e ws;
          ws = (if \<not> w_conn_unix ws \<and> 0 < we_pmtu e \<and> we_pmtu e < uint (vinfo_mtu ws)
                then link_mtu_set (word_of_int (we_pmtu e)) ws else ws);
          ws = calc_mtu_values e ws
      in if DATA_MTU ws (link_mtu ws) < 1280 \<and> vinfo_ipv6 ws \<and> \<not> w_no_ipv6 ws
         then ws\<lparr>w_no_ipv6 := True\<rparr> else ws)"

end
