(* ===== verification/WorkerData.thy ===== *)
theory WorkerData
  imports Worker LzsCorrect
begin

text \<open>
  The data path of the worker, \<^verbatim>\<open>src/src/worker-vpn.c\<close>: the packets received from the client
  (\<^verbatim>\<open>parse_data\<close>, \<^verbatim>\<open>parse_cstp_data\<close>, \<^verbatim>\<open>parse_dtls_data\<close>), the handlers of the tun device, of the TLS and of
  the DTLS channel, the periodic check with dead peer detection and timeouts, the commands of the main
  process (\<^verbatim>\<open>src/src/worker-misc.c\<close>), and one round of the main loop. LZS is the verified compressor; LZ4
  is a parameter.
\<close>

section \<open>Compression methods\<close>

definition comp_compress :: "worker_env \<Rightarrow> comp_id \<Rightarrow> bytes \<Rightarrow> bytes option" where
  "comp_compress e c src =
     (case c of
        OC_COMP_LZ4 \<Rightarrow> we_lz4_compress e (length src) src
      | OC_COMP_LZS \<Rightarrow> (case lzs_compress (we_chain e) (BUFFER_SIZE - 8) src of Inl _ \<Rightarrow> None | Inr out \<Rightarrow> Some out))"

definition comp_decompress :: "worker_env \<Rightarrow> comp_id \<Rightarrow> bytes \<Rightarrow> bytes \<Rightarrow> (nat \<times> bytes) option" where
  "comp_decompress e c dst src =
     (case c of
        OC_COMP_LZ4 \<Rightarrow> we_lz4_decompress e dst src
      | OC_COMP_LZS \<Rightarrow> (case lzs_decompress dst src of Inl _ \<Rightarrow> None | Inr r \<Rightarrow> Some r))"

section \<open>Packets from the client\<close>

definition tun_deliver :: "worker_env \<Rightarrow> bytes \<Rightarrow> time_t \<Rightarrow> worker \<Rightarrow> int \<times> worker" where
  "tun_deliver e plain nw ws =
     (let ws = wemit (Tun_Write plain) ws
      in if we_tun_write e plain = - 1 then (- 1, ws)
         else (0, ws\<lparr>tun_bytes_in := tun_bytes_in ws + of_nat (length plain), last_nc_msg := nw\<rparr>))"

definition dpd_reply_cstp :: "worker_env \<Rightarrow> bytes \<Rightarrow> worker \<Rightarrow> int \<times> worker" where
  "dpd_reply_cstp e buf ws =
     (let buf = buf[6 := AC_PKT_DPD_RESP]; ws = wemit (Cstp_Send buf) ws
      in (if we_cstp_send e buf < 0 then - 1 else 0, ws))"

definition dpd_reply_dtls :: "worker_env \<Rightarrow> bytes \<Rightarrow> worker \<Rightarrow> int \<times> worker" where
  "dpd_reply_dtls e buf ws =
     (let buf = buf[0 := AC_PKT_DPD_RESP];
          ws = (if unat (DATA_MTU ws (link_mtu ws)) < length buf - 1
                then data_mtu_set e (of_nat (length buf - 1)) ws else ws);
          ws = wemit (Dtls_Send buf) ws;
          ret = we_dtls_send e buf
      in if ret = GNUTLS_E_LARGE_PACKET then
           (let ws = wemit (Dtls_Send (take 1 buf)) (mtu_not_ok e ws)
            in (if we_dtls_send e (take 1 buf) < 0 then - 1 else 0, ws))
         else (if ret < 0 then - 1 else 0, ws))"

definition parse_data :: "worker_env \<Rightarrow> bytes \<Rightarrow> time_t \<Rightarrow> bool \<Rightarrow> worker \<Rightarrow> (int \<times> worker) wres" where
  "parse_data e buf nw is_dtls ws =
     (let plain = (if is_dtls then drop 1 buf else drop 8 buf);
          head = (if is_dtls then buf ! 0 else buf ! 6)
      in if head = AC_PKT_DPD_RESP \<or> head = AC_PKT_KEEPALIVE then Returns (0, ws)
         else if head = AC_PKT_DPD_OUT then
           Returns (if is_dtls then dpd_reply_dtls e buf ws else dpd_reply_cstp e buf ws)
         else if head = AC_PKT_DISCONN then exit_worker_reason e REASON_USER_DISCONNECT ws
         else if head = AC_PKT_COMPRESSED then
           (case (if is_dtls then w_dtls_comp ws else w_cstp_comp ws) of
              None \<Rightarrow> Returns (- 1, ws)
            | Some c \<Rightarrow>
                (case comp_decompress e c (w_decomp ws) plain of
                   None \<Rightarrow> Returns (- 1, ws\<lparr>w_decomp := we_scratch e\<rparr>)
                 | Some (n, dst) \<Rightarrow>
                     if n = 0 then Returns (- 1, ws\<lparr>w_decomp := dst\<rparr>)
                     else Returns (tun_deliver e (take n dst) nw (ws\<lparr>w_decomp := dst\<rparr>))))
         else if head = AC_PKT_DATA then Returns (tun_deliver e plain nw ws)
         else Returns (0, ws))"

definition pkt_len :: "bytes \<Rightarrow> nat" where
  "pkt_len buf = unat (buf ! 4) * 256 + unat (buf ! 5)"

definition cstp_header_ok :: "bytes \<Rightarrow> bool" where
  "cstp_header_ok buf \<longleftrightarrow> buf ! 0 = 0x53 \<and> buf ! 1 = 0x54 \<and> buf ! 2 = 0x46 \<and> buf ! 3 = 1 \<and> buf ! 7 = 0"

definition parse_cstp_data :: "worker_env \<Rightarrow> bytes \<Rightarrow> time_t \<Rightarrow> worker \<Rightarrow> (int \<times> worker) wres" where
  "parse_cstp_data e buf nw ws =
     (if length buf < 8 then Returns (- 1, ws)
      else if \<not> cstp_header_ok buf then Returns (- 1, ws)
      else if length buf \<noteq> 8 + pkt_len buf then Returns (- 1, ws)
      else
        (let ws = (if buf ! 6 = AC_PKT_DATA \<and> w_udp_state ws = UP_ACTIVE
                   then ws\<lparr>w_udp_state := UP_INACTIVE\<rparr> else ws)
         in bind_w (parse_data e buf nw False ws) (\<lambda>(ret, ws). Returns (ret, ws\<lparr>last_msg_tcp := nw\<rparr>))))"

definition parse_dtls_data :: "worker_env \<Rightarrow> bytes \<Rightarrow> time_t \<Rightarrow> worker \<Rightarrow> (int \<times> worker) wres" where
  "parse_dtls_data e buf nw ws =
     (if length buf < 1 then Returns (- 1, ws)
      else bind_w (parse_data e buf nw True ws) (\<lambda>(ret, ws). Returns (ret, ws\<lparr>last_msg_udp := nw\<rparr>)))"

section \<open>Packets from the tun device\<close>

text \<open>What is sent on each of the two channels: the type of the packet and its body.\<close>

definition try_compress :: "worker_env \<Rightarrow> comp_id \<Rightarrow> bytes \<Rightarrow> worker \<Rightarrow> bytes option \<times> worker" where
  "try_compress e c pkt ws =
     (case comp_compress e c pkt of
        None \<Rightarrow> (None, ws\<lparr>w_decomp := we_scratch e\<rparr>)
      | Some out \<Rightarrow> (if out \<noteq> [] \<and> length out < length pkt then Some out else None,
                     ws\<lparr>w_decomp := blit 8 out (w_decomp ws)\<rparr>))"

definition choose_payload ::
  "worker_env \<Rightarrow> bytes \<Rightarrow> worker \<Rightarrow> (u8 \<times> bytes) \<times> (u8 \<times> bytes) \<times> worker" where
  "choose_payload e pkt ws =
     (let plain = (AC_PKT_DATA, pkt); big = unat (c_no_compress_limit ws) < length pkt
      in case (if w_udp_state ws = UP_ACTIVE \<and> big then w_dtls_comp ws else None) of
           Some c \<Rightarrow>
             (let (r, ws) = try_compress e c pkt ws
              in case r of
                   Some out \<Rightarrow>
                     ((AC_PKT_COMPRESSED, out),
                      (if w_cstp_comp ws = Some c then (AC_PKT_COMPRESSED, out) else plain), ws)
                 | None \<Rightarrow> (plain, plain, ws))
         | None \<Rightarrow>
             (case (if big then w_cstp_comp ws else None) of
                Some c \<Rightarrow>
                  (let (r, ws) = try_compress e c pkt ws
                   in case r of
                        Some out \<Rightarrow> (plain, (AC_PKT_COMPRESSED, out), ws)
                      | None \<Rightarrow> (plain, plain, ws))
              | None \<Rightarrow> (plain, plain, ws)))"

definition cstp_packet :: "u8 \<Rightarrow> bytes \<Rightarrow> bytes" where
  "cstp_packet typ body =
     [0x53, 0x54, 0x46, 1, of_nat (length body div 256), of_nat (length body mod 256), typ, 0] @ body"

definition send_dtls_payload ::
  "worker_env \<Rightarrow> u8 \<times> bytes \<Rightarrow> worker \<Rightarrow> (bool \<times> worker) wres" where
  "send_dtls_payload e payload ws =
     (let body = snd payload; dat = fst payload # body;
          ws = wemit (Dtls_Send dat) (ws\<lparr>tun_bytes_out := tun_bytes_out ws + of_nat (length body)\<rparr>);
          ret = we_dtls_send e dat
      in bind_w (DTLS_FATAL_ERR_CMD e ret ws) (\<lambda>ws.
           if ret = GNUTLS_E_LARGE_PACKET then Returns (True, mtu_not_ok e ws)
           else if 1 + DATA_MTU ws (link_mtu ws) \<le> word_of_int ret \<and> c_try_mtu ws then Returns (False, mtu_ok ws)
           else Returns (False, ws)))"

definition send_cstp_payload :: "worker_env \<Rightarrow> u8 \<times> bytes \<Rightarrow> worker \<Rightarrow> worker wres" where
  "send_cstp_payload e payload ws =
     (let body = snd payload; dat = cstp_packet (fst payload) body;
          ws = wemit (Cstp_Send dat) (ws\<lparr>tun_bytes_out := tun_bytes_out ws + of_nat (length body)\<rparr>)
      in CSTP_FATAL_ERR_CMD e (we_cstp_send e dat) ws)"

text \<open>The result of reading the tun device: an error (the flag tells whether \<^verbatim>\<open>errno\<close> is \<^verbatim>\<open>EAGAIN\<close> or
  \<^verbatim>\<open>EINTR\<close>) or the packet at the head of the queue, of which \<^verbatim>\<open>read\<close> copies as many bytes as asked for.\<close>

definition tun_mainloop ::
  "worker_env \<Rightarrow> bool + bytes \<Rightarrow> timespec \<Rightarrow> worker \<Rightarrow> (int \<times> worker) wres" where
  "tun_mainloop e rd tnow ws =
     (case rd of
        Inl again \<Rightarrow> Returns (if again then 0 else - 1, ws)
      | Inr queued \<Rightarrow>
          (let pkt = take (unat (DATA_MTU ws (link_mtu ws))) queued
           in if BUFFER_SIZE < 8 + length pkt then Overrun
              else if pkt = [] then Returns (0, ws)
              else
                (let ws = (if c_switch_to_tcp_timeout ws \<noteq> 0 \<and> w_udp_state ws = UP_ACTIVE \<and>
                              w_udp_recv_time ws + uint (c_switch_to_tcp_timeout ws) < tv_sec tnow
                           then ws\<lparr>w_udp_state := UP_INACTIVE\<rparr> else ws);
                     (dtls_pl, cstp_pl, ws) = choose_payload e pkt ws;
                     (go, bw) = bandwidth_update (b_tx ws) (of_nat (length (snd dtls_pl))) tnow;
                     ws = ws\<lparr>b_tx := bw\<rparr>
                 in if \<not> go then Returns (0, ws)
                    else
                      bind_w (if w_udp_state ws = UP_ACTIVE then send_dtls_payload e dtls_pl ws
                              else Returns (False, ws)) (\<lambda>(retry, ws).
                      bind_w (if w_udp_state ws \<noteq> UP_ACTIVE \<or> retry then send_cstp_payload e cstp_pl ws
                              else Returns ws) (\<lambda>ws.
                      Returns (0, ws\<lparr>last_nc_msg := tv_sec tnow\<rparr>))))))"

section \<open>The two channels\<close>

text \<open>What a channel delivers: the result of the receive call when it is not positive, or the packet.\<close>

type_synonym received = "int + bytes"

text \<open>Half of a \<^verbatim>\<open>time_t\<close>, rounded towards zero.\<close>

definition half_time :: "time_t \<Rightarrow> time_t" where
  "half_time t = (if t < 0 then - (- t div 2) else t div 2)"

definition tls_mainloop :: "worker_env \<Rightarrow> received \<Rightarrow> timespec \<Rightarrow> worker \<Rightarrow> (int \<times> worker) wres" where
  "tls_mainloop e rcv tnow ws =
     (let ret = (case rcv of Inl r \<Rightarrow> r | Inr dat \<Rightarrow> int (length dat))
      in if ret = GNUTLS_E_PREMATURE_TERMINATION then Returns (- 1, ws)
         else
           bind_w (CSTP_FATAL_ERR_CMD e ret ws) (\<lambda>ws.
             if ret = 0 then Returns (- 1, ws)
             else if ret = GNUTLS_E_REHANDSHAKE then
               (if 0 < last_tls_rehandshake ws \<and>
                   tv_sec tnow - last_tls_rehandshake ws < half_time (c_rekey_time ws)
                then Returns (- 1, ws)
                else bind_w (DTLS_FATAL_ERR_CMD e (we_handshake e) ws) (\<lambda>ws.
                       Returns (0, ws\<lparr>last_tls_rehandshake := tv_sec tnow\<rparr>)))
             else
               case rcv of
                 Inl _ \<Rightarrow> Returns (0, ws)
               | Inr dat \<Rightarrow>
                   if length dat < 8 then Returns (0, ws)
                   else
                     (let (go, bw) = bandwidth_update (b_rx ws) (of_nat (length dat - 8)) tnow;
                          ws = ws\<lparr>b_rx := bw\<rparr>
                      in if \<not> go then Returns (0, ws)
                         else
                           bind_w (parse_cstp_data e dat (tv_sec tnow) ws) (\<lambda>(ret, ws).
                             if ret < 0 then Returns (ret, ws)
                             else if (ret = 0 \<or> ret = 8) \<and> w_udp_state ws = UP_ACTIVE \<and>
                                     15 < tv_sec tnow - w_udp_recv_time ws
                             then Returns (0, ws\<lparr>w_udp_state := UP_INACTIVE\<rparr>)
                             else Returns (0, ws)))))"

definition session_info_send :: "worker_env \<Rightarrow> worker \<Rightarrow> worker" where
  "session_info_send e ws =
     (let udp = w_udp_state ws \<noteq> UP_DISABLED \<and> w_dtls_session ws; opt = (\<lambda>s. if s = '''' then None else Some s)
      in wemit (Session_Info
           (if w_session ws then Some (we_tls_desc e) else None)
           (if w_session ws then w_cstp_comp ws else None)
           (if udp then Some (we_dtls_desc e) else None)
           (if udp then w_dtls_comp ws else None)
           (opt (w_user_agent ws)) (opt (w_devtype ws)) (opt (w_hostname ws))
           (if c_listen_proxy_proto ws then Some (w_our_addr ws, w_remote_addr ws) else None)) ws)"

definition setup_dtls_connection :: "worker_env \<Rightarrow> worker \<Rightarrow> int \<times> worker" where
  "setup_dtls_connection e ws =
     (if \<not> (w_use_psk ws \<and> w_session ws) \<and> \<not> c_dtls_legacy ws then (- 1, ws)
      else if \<not> we_setup_keys e then (- 1, ws)
      else (0, (link_mtu_set (adv_link_mtu ws) (ws\<lparr>w_udp_state := UP_HANDSHAKE\<rparr>))\<lparr>w_dtls_session := True\<rparr>))"

text \<open>The DTLS handshake, restarted with a smaller MTU as long as its packets are too large.\<close>

fun dtls_handshake :: "worker_env \<Rightarrow> int list \<Rightarrow> worker \<Rightarrow> worker" where
  "dtls_handshake e [] ws = ws"
| "dtls_handshake e (ret # rs) ws =
     (if ret < 0 \<and> we_fatal e ret then ws\<lparr>w_udp_state := UP_DISABLED\<rparr>
      else if ret = GNUTLS_E_LARGE_PACKET then dtls_handshake e rs (mtu_not_ok e ws)
      else if ret = 0 then session_info_send e (ws\<lparr>w_udp_state := UP_ACTIVE\<rparr>)
      else ws)"

definition dtls_receive :: "worker_env \<Rightarrow> received \<Rightarrow> timespec \<Rightarrow> worker \<Rightarrow> (int \<times> worker) wres" where
  "dtls_receive e rcv tnow ws =
     (let ret = (case rcv of Inl r \<Rightarrow> r | Inr dat \<Rightarrow> int (length dat))
      in bind_w (DTLS_FATAL_ERR_CMD e ret ws) (\<lambda>ws.
           if ret = GNUTLS_E_REHANDSHAKE then
             (if 0 < last_dtls_rehandshake ws \<and>
                 tv_sec tnow - last_dtls_rehandshake ws < half_time (c_rekey_time ws)
              then Returns (- 1, ws)
              else bind_w (DTLS_FATAL_ERR_CMD e (we_handshake e) ws) (\<lambda>ws.
                     Returns (0, ws\<lparr>last_dtls_rehandshake := tv_sec tnow, w_udp_recv_time := tv_sec tnow\<rparr>)))
           else
             case rcv of
               Inl _ \<Rightarrow> Returns (0, ws\<lparr>w_udp_recv_time := tv_sec tnow\<rparr>)
             | Inr dat \<Rightarrow>
                 if dat = [] then Returns (0, ws\<lparr>w_udp_recv_time := tv_sec tnow\<rparr>)
                 else
                   (let ws = ws\<lparr>w_udp_state := UP_ACTIVE\<rparr>;
                        (go, bw) = bandwidth_update (b_rx ws) (of_nat (length dat - 1)) tnow;
                        ws = ws\<lparr>b_rx := bw\<rparr>
                    in if \<not> go then Returns (0, ws\<lparr>w_udp_recv_time := tv_sec tnow\<rparr>)
                       else
                         bind_w (parse_dtls_data e dat (tv_sec tnow) ws) (\<lambda>(ret, ws).
                           if ret < 0 then Returns (ret, ws)
                           else Returns (0, ws\<lparr>w_udp_recv_time := tv_sec tnow\<rparr>)))))"

definition dtls_mainloop :: "worker_env \<Rightarrow> received \<Rightarrow> timespec \<Rightarrow> worker \<Rightarrow> (int \<times> worker) wres" where
  "dtls_mainloop e rcv tnow ws =
     (case w_udp_state ws of
        UP_ACTIVE \<Rightarrow> dtls_receive e rcv tnow ws
      | UP_INACTIVE \<Rightarrow> dtls_receive e rcv tnow ws
      | UP_SETUP \<Rightarrow>
          (let (ret, ws) = setup_dtls_connection e ws
           in if ret < 0 then Returns (- 1, ws)
              else Returns (0, mtu_discovery_init (link_mtu ws)
                     (wemit (Set_Dtls_Mtu (link_mtu ws - dtls_proto_overhead ws)) ws)))
      | UP_HANDSHAKE \<Rightarrow> Returns (0, dtls_handshake e (we_handshakes e) ws)
      | _ \<Rightarrow> Returns (0, ws))"

section \<open>The periodic check\<close>

text \<open>\<^verbatim>\<open>FUZZ\<close>: a remainder of the low 16 bits of the nanoseconds, with the sign of C's \<^verbatim>\<open>%\<close>.\<close>

definition check_period :: "timespec \<Rightarrow> int" where
  "check_period tnow =
     (let r = sint (word_of_int (tv_nsec tnow) :: u16) in 30 + (if r < 0 then - ((- r) mod 5) else r mod 5))"

definition check_udp_dpd :: "worker_env \<Rightarrow> time_t \<Rightarrow> u32 \<Rightarrow> worker \<Rightarrow> worker wres" where
  "check_udp_dpd e nw dpd ws =
     (if w_udp_state ws = UP_ACTIVE \<and> uint (2 * dpd) < nw - last_msg_udp ws \<and> 0 < dpd then
        (let data_mtu = unat (DATA_MTU ws (link_mtu ws))
         in if BUFFER_SIZE < 1 + data_mtu then Overrun
            else
              (let dat = AC_PKT_DPD_OUT # replicate data_mtu 0
               in bind_w (DTLS_FATAL_ERR_CMD e (we_dtls_send e dat) (wemit (Dtls_Send dat) ws)) (\<lambda>ws.
                    Returns (if uint (3 * dpd) < nw - last_msg_udp ws
                             then ws\<lparr>w_udp_state := UP_INACTIVE\<rparr> else ws))))
      else Returns ws)"

definition check_tcp_dpd :: "worker_env \<Rightarrow> time_t \<Rightarrow> u32 \<Rightarrow> worker \<Rightarrow> worker wres" where
  "check_tcp_dpd e nw dpd ws =
     (if 0 < dpd \<and> uint (2 * dpd) < nw - last_msg_tcp ws then
        (let dat = cstp_packet AC_PKT_DPD_OUT []
         in bind_w (CSTP_FATAL_ERR_CMD e (we_cstp_send e dat) (wemit (Cstp_Send dat) ws)) (\<lambda>ws.
              if uint (3 * dpd) < nw - last_msg_tcp ws then exit_worker_reason e REASON_DPD_TIMEOUT ws
              else Returns ws))
      else Returns ws)"

definition check_pmtu :: "worker_env \<Rightarrow> worker \<Rightarrow> worker" where
  "check_pmtu e ws =
     (if \<not> w_conn_unix ws \<and> w_udp_state ws \<noteq> UP_DISABLED \<and> 0 < we_pmtu e \<and> we_pmtu e < uint (link_mtu ws)
      then link_mtu_set (word_of_int (we_pmtu e)) ws else ws)"

definition periodic_check :: "worker_env \<Rightarrow> timespec \<Rightarrow> u32 \<Rightarrow> worker \<Rightarrow> worker wres" where
  "periodic_check e tnow dpd ws =
     (let nw = tv_sec tnow
      in if nw - last_periodic_check ws < check_period tnow then Returns ws
         else if 0 < c_idle_timeout ws \<and> uint (c_idle_timeout ws) < nw - last_nc_msg ws then
           Returns (ws\<lparr>w_terminate := True, w_terminate_reason := REASON_IDLE_TIMEOUT, last_periodic_check := nw\<rparr>)
         else if 0 < u_session_timeout_secs ws \<and> uint (u_session_timeout_secs ws) < nw - w_start ws then
           Returns (ws\<lparr>w_terminate := True, w_terminate_reason := REASON_SESSION_TIMEOUT, last_periodic_check := nw\<rparr>)
         else
           (let ws = (if 0 < u_interim_update_secs ws \<and>
                         uint (u_interim_update_secs ws) \<le> nw - last_stats_msg ws \<and> w_sid_set ws
                      then send_stats_to_secmod e nw 0 ws else ws)
            in bind_w (check_udp_dpd e nw dpd ws) (\<lambda>ws.
               bind_w (check_tcp_dpd e nw dpd ws) (\<lambda>ws.
               Returns ((check_pmtu e ws)\<lparr>last_periodic_check := nw\<rparr>)))))"

section \<open>Commands of the main process\<close>

text \<open>What arrives on the command socket: an error, the end of the stream, or a command with its
  descriptor. A \<^verbatim>\<open>CMD_UDP_FD\<close> has the message, if it could be unpacked: the hello flag and the first
  datagram.\<close>

datatype main_cmd =
    Cmd_Error
  | Cmd_Eof
  | Cmd_Terminate
  | Cmd_Udp_Fd "(bool \<times> bytes) option" "nat option"
  | Cmd_Unknown

abbreviation (input) ERR_NO_CMD_FD :: int where "ERR_NO_CMD_FD \<equiv> - 13"

text \<open>The descriptor is adopted unless its first packet fails to authenticate in the running session;
  receiving that packet consumes the datagram of the message.\<close>

definition recv_from_new_fd :: "worker_env \<Rightarrow> bytes option \<Rightarrow> worker \<Rightarrow> bool \<times> bytes option" where
  "recv_from_new_fd e msg ws =
     (if \<not> w_dtls_session ws \<or> w_udp_state ws \<noteq> UP_ACTIVE then (True, msg)
      else (we_first_packet e, None))"

definition adopt_udp_fd :: "worker_env \<Rightarrow> bytes option \<Rightarrow> nat \<Rightarrow> worker \<Rightarrow> worker" where
  "adopt_udp_fd e msg fd ws =
     (let ws = ws\<lparr>w_dtls_msg := msg, w_dtls_fd := Some fd\<rparr>;
          ws = (if c_try_mtu ws then ws else wemit Mtu_Disc_Off ws)
      in ws\<lparr>w_udp_recv_time := we_time e\<rparr>)"

definition handle_commands_from_main :: "worker_env \<Rightarrow> main_cmd \<Rightarrow> worker \<Rightarrow> (int \<times> worker) wres" where
  "handle_commands_from_main e cmd ws =
     (case cmd of
        Cmd_Error \<Rightarrow> exit_worker_reason e REASON_SERVER_DISCONNECT ws
      | Cmd_Eof \<Rightarrow> Returns (ERR_NO_CMD_FD, ws)
      | Cmd_Terminate \<Rightarrow> exit_worker_reason e REASON_SERVER_DISCONNECT ws
      | Cmd_Unknown \<Rightarrow> exit_worker_reason e REASON_ERROR ws
      | Cmd_Udp_Fd tmsg fd \<Rightarrow>
          (let hello = (case tmsg of Some (h, _) \<Rightarrow> h | None \<Rightarrow> True); msg = map_option snd tmsg
           in case fd of
                None \<Rightarrow> Returns (- 1, if w_dtls_fd ws = None then ws\<lparr>w_udp_state := UP_DISABLED\<rparr> else ws)
              | Some fd \<Rightarrow>
                  if hello then Returns (0, adopt_udp_fd e msg fd (ws\<lparr>w_udp_state := UP_SETUP\<rparr>))
                  else
                    (let (ok, msg) = recv_from_new_fd e msg ws
                     in Returns (0, if ok then adopt_udp_fd e msg fd ws else ws))))"

section \<open>One round of the main loop\<close>

text \<open>What \<^verbatim>\<open>poll\<close> reports in a round: it failed, a descriptor has an error, or the inputs that are ready.\<close>

record poll_in =
  p_fail :: bool \<comment> \<open>\<^verbatim>\<open>poll\<close> failed, or some descriptor has \<^verbatim>\<open>POLLERR\<close>\<close>
  p_tun :: "(bool + bytes) option"
  p_tls :: "received option"
  p_dtls :: "received option"
  p_cmd :: "main_cmd option"

definition leave_tunnel :: "worker_env \<Rightarrow> nat \<Rightarrow> worker \<Rightarrow> worker wres" where
  "leave_tunnel e reason ws = exit_worker_reason e reason (ws\<lparr>w_terminate_reason := reason\<rparr>)"

definition or_leave :: "worker_env \<Rightarrow> (int \<times> worker) wres \<Rightarrow> worker wres" where
  "or_leave e m = bind_w m (\<lambda>(ret, ws). if ret < 0 then leave_tunnel e REASON_ERROR ws else Returns ws)"

definition say_goodbye :: "worker_env \<Rightarrow> worker \<Rightarrow> worker wres" where
  "say_goodbye e ws =
     exit_worker_reason e (w_terminate_reason ws) (wemit (Cstp_Send (cstp_packet AC_PKT_DISCONN [])) ws)"

fun udp_rank :: "udp_port_state \<Rightarrow> nat" where
  "udp_rank UP_DISABLED = 0"
| "udp_rank UP_WAIT_FD = 1"
| "udp_rank UP_SETUP = 2"
| "udp_rank UP_HANDSHAKE = 3"
| "udp_rank UP_INACTIVE = 4"
| "udp_rank UP_ACTIVE = 5"

definition worker_inputs :: "worker_env \<Rightarrow> poll_in \<Rightarrow> timespec \<Rightarrow> worker \<Rightarrow> worker wres" where
  "worker_inputs e p tnow ws =
     bind_w (case p_tun p of None \<Rightarrow> Returns ws | Some rd \<Rightarrow> or_leave e (tun_mainloop e rd tnow ws)) (\<lambda>ws.
     bind_w (case p_tls p of None \<Rightarrow> Returns ws | Some rcv \<Rightarrow> or_leave e (tls_mainloop e rcv tnow ws)) (\<lambda>ws.
     bind_w (case p_dtls p of
               None \<Rightarrow> Returns ws
             | Some rcv \<Rightarrow> if 1 < udp_rank (w_udp_state ws) then or_leave e (dtls_mainloop e rcv tnow ws)
                           else Returns ws) (\<lambda>ws.
     case p_cmd p of
       None \<Rightarrow> Returns ws
     | Some cmd \<Rightarrow>
         bind_w (handle_commands_from_main e cmd ws) (\<lambda>(ret, ws).
           if ret = ERR_NO_CMD_FD then say_goodbye e (ws\<lparr>w_terminate_reason := REASON_ERROR\<rparr>)
           else if ret < 0 then leave_tunnel e REASON_ERROR ws
           else Returns ws))))"

definition worker_round :: "worker_env \<Rightarrow> poll_in \<Rightarrow> timespec \<Rightarrow> worker \<Rightarrow> worker wres" where
  "worker_round e p tnow ws =
     (if w_terminate ws then say_goodbye e ws
      else if p_fail p then leave_tunnel e REASON_ERROR ws
      else bind_w (periodic_check e tnow (u_dpd ws) ws) (worker_inputs e p tnow))"

fun worker_rounds :: "(worker_env \<times> poll_in \<times> timespec) list \<Rightarrow> worker \<Rightarrow> worker wres" where
  "worker_rounds [] ws = Returns ws"
| "worker_rounds ((e, p, tnow) # rs) ws = bind_w (worker_round e p tnow ws) (worker_rounds rs)"

end
