(* ===== verification/WorkerTunnel.thy ===== *)
theory WorkerTunnel
  imports WorkerData
begin

text \<open>
  The theorems on the worker's data path: the MTU operations only change the MTU fields and only send
  MTU notices, and a packet read from the tun device reaches the other end of the tunnel unchanged, on
  either channel and under every compression method.
\<close>

section \<open>What the MTU operations send\<close>

fun mtu_out :: "worker_out \<Rightarrow> bool" where
  "mtu_out (Tun_Mtu _) = True"
| "mtu_out (Set_Dtls_Mtu _) = True"
| "mtu_out Mtu_Disc_Off = True"
| "mtu_out _ = False"

text \<open>An operation on the MTU changes nothing but the MTU and its search.\<close>

definition mtu_only :: "worker \<Rightarrow> worker \<Rightarrow> bool" where
  "mtu_only ws ws' \<longleftrightarrow>
     (\<exists>m g b t xs. list_all mtu_out xs \<and>
        ws' = ws\<lparr>link_mtu := m, last_good_mtu := g, last_bad_mtu := b, c_try_mtu := t, w_out := xs @ w_out ws\<rparr>)"

lemma mtu_onlyI:
  "list_all mtu_out xs \<Longrightarrow>
   ws' = ws\<lparr>link_mtu := m, last_good_mtu := g, last_bad_mtu := b, c_try_mtu := t, w_out := xs @ w_out ws\<rparr> \<Longrightarrow>
   mtu_only ws ws'"
  unfolding mtu_only_def by blast

lemma mtu_only_refl [simp]: "mtu_only ws ws"
  by (rule mtu_onlyI [where xs = "[]" and m = "link_mtu ws" and g = "last_good_mtu ws" and b = "last_bad_mtu ws" and t = "c_try_mtu ws"]) simp_all

lemma mtu_only_trans [trans]:
  assumes "mtu_only a b" and "mtu_only b c"
  shows "mtu_only a c"
proof -
  from assms(1) obtain m g x t xs where 1: "list_all mtu_out xs"
    "b = a\<lparr>link_mtu := m, last_good_mtu := g, last_bad_mtu := x, c_try_mtu := t, w_out := xs @ w_out a\<rparr>"
    unfolding mtu_only_def by blast
  from assms(2) obtain m' g' x' t' ys where 2: "list_all mtu_out ys"
    "c = b\<lparr>link_mtu := m', last_good_mtu := g', last_bad_mtu := x', c_try_mtu := t', w_out := ys @ w_out b\<rparr>"
    unfolding mtu_only_def by blast
  show ?thesis
    by (rule mtu_onlyI [where xs = "ys @ xs" and m = m' and g = g' and b = x' and t = t']) (use 1 2 in simp_all)
qed

lemma mtu_only_search [simp]:
  "mtu_only ws (ws\<lparr>last_good_mtu := g\<rparr>)" "mtu_only ws (ws\<lparr>last_bad_mtu := b\<rparr>)"
  "mtu_only ws (ws\<lparr>c_try_mtu := t\<rparr>)" "mtu_only ws (ws\<lparr>link_mtu := m\<rparr>)"
  "mtu_out x \<Longrightarrow> mtu_only ws (wemit x ws)"
proof -
  note I = mtu_onlyI [where xs = "[]" and ws = ws]
  show "mtu_only ws (ws\<lparr>last_good_mtu := g\<rparr>)"
    by (rule I [where m = "link_mtu ws" and g = g and b = "last_bad_mtu ws" and t = "c_try_mtu ws"]) simp_all
  show "mtu_only ws (ws\<lparr>last_bad_mtu := b\<rparr>)"
    by (rule I [where m = "link_mtu ws" and g = "last_good_mtu ws" and b = b and t = "c_try_mtu ws"]) simp_all
  show "mtu_only ws (ws\<lparr>c_try_mtu := t\<rparr>)"
    by (rule I [where m = "link_mtu ws" and g = "last_good_mtu ws" and b = "last_bad_mtu ws" and t = t]) simp_all
  show "mtu_only ws (ws\<lparr>link_mtu := m\<rparr>)"
    by (rule I [where m = m and g = "last_good_mtu ws" and b = "last_bad_mtu ws" and t = "c_try_mtu ws"]) simp_all
  show "mtu_out x \<Longrightarrow> mtu_only ws (wemit x ws)"
    by (rule mtu_onlyI [where xs = "[x]" and m = "link_mtu ws" and g = "last_good_mtu ws"
        and b = "last_bad_mtu ws" and t = "c_try_mtu ws"])
      (simp_all add: wemit_def)
qed

lemma link_mtu_set_only [simp]: "mtu_only ws (link_mtu_set m ws)"
  unfolding link_mtu_set_def data_mtu_send_def Let_def
  by (auto intro: mtu_only_trans [OF mtu_only_search(4) mtu_only_trans [OF mtu_only_search(5) mtu_only_search(5)]]
      mtu_only_trans [OF mtu_only_search(4) mtu_only_search(5)])

lemma data_mtu_set_only [simp]: "mtu_only ws (data_mtu_set e m ws)"
  by (simp add: data_mtu_set_def Let_def)

lemma disable_mtu_disc_only [simp]: "mtu_only ws (disable_mtu_disc ws)"
  unfolding disable_mtu_disc_def
  by (rule mtu_only_trans [OF mtu_only_search(5) mtu_only_trans [OF link_mtu_set_only mtu_only_search(3)]]) simp

lemma mtu_not_ok_only [simp]: "mtu_only ws (mtu_not_ok e ws)"
  unfolding mtu_not_ok_def Let_def
  by (auto split: w_proto.split option.split
      intro: mtu_only_trans [OF mtu_only_search(2) mtu_only_trans [OF disable_mtu_disc_only link_mtu_set_only]]
        mtu_only_trans [OF mtu_only_search(2) mtu_only_trans [OF mtu_only_search(1) link_mtu_set_only]]
        mtu_only_trans [OF mtu_only_search(2) link_mtu_set_only]
        mtu_only_trans [OF disable_mtu_disc_only link_mtu_set_only])

lemma mtu_ok_only [simp]: "mtu_only ws (mtu_ok ws)"
  unfolding mtu_ok_def Let_def
  by (auto intro: mtu_only_trans [OF mtu_only_search(1) link_mtu_set_only])

lemma mtu_only_out: "mtu_only ws ws' \<Longrightarrow> \<exists>xs. list_all mtu_out xs \<and> w_out ws' = xs @ w_out ws"
  by (auto simp: mtu_only_def)

lemma mtu_only_fields:
  "mtu_only ws ws' \<Longrightarrow> w_udp_state ws' = w_udp_state ws" "mtu_only ws ws' \<Longrightarrow> w_decomp ws' = w_decomp ws"
  "mtu_only ws ws' \<Longrightarrow> dtls_crypto_overhead ws' = dtls_crypto_overhead ws"
  "mtu_only ws ws' \<Longrightarrow> dtls_proto_overhead ws' = dtls_proto_overhead ws"
  "mtu_only ws ws' \<Longrightarrow> adv_link_mtu ws' = adv_link_mtu ws" "mtu_only ws ws' \<Longrightarrow> w_proto ws' = w_proto ws"
  "mtu_only ws ws' \<Longrightarrow> vinfo_ipv6 ws' = vinfo_ipv6 ws" "mtu_only ws ws' \<Longrightarrow> w_dtls_session ws' = w_dtls_session ws"
  by (auto simp: mtu_only_def)

section \<open>A packet survives the tunnel\<close>

text \<open>LZ4 is a library: what it compresses, it decompresses into any buffer with room for it.\<close>

definition lz4_inverse :: "worker_env \<Rightarrow> worker_env \<Rightarrow> bool" where
  "lz4_inverse e e' \<longleftrightarrow>
     (\<forall>n src out dst. we_lz4_compress e n src = Some out \<and> length src \<le> length dst \<longrightarrow>
        (\<exists>dst'. we_lz4_decompress e' dst out = Some (length src, dst') \<and> take (length src) dst' = src))"

lemma comp_inverse:
  assumes "comp_compress e c src = Some out" and "lz4_inverse e e'" and "length src \<le> length dst"
    and "length src \<le> 65536"
  shows "\<exists>dst'. comp_decompress e' c dst out = Some (length src, dst') \<and> take (length src) dst' = src"
proof (cases c)
  case OC_COMP_LZ4
  then show ?thesis using assms by (auto simp: comp_compress_def comp_decompress_def lz4_inverse_def)
next
  case OC_COMP_LZS
  with assms(1) have "lzs_compress (we_chain e) (BUFFER_SIZE - 8) src = Inr out"
    by (auto simp: comp_compress_def split: sum.splits)
  with lzs_compress_spec [OF assms(4), of "we_chain e" "BUFFER_SIZE - 8"] have "encodes out src" by auto
  from decompress_encodes [OF this assms(3)] OC_COMP_LZS show ?thesis by (auto simp: comp_decompress_def)
qed

text \<open>A payload that a peer with the same compression method reads as the packet.\<close>

definition payload_of :: "worker_env \<Rightarrow> comp_id option \<Rightarrow> bytes \<Rightarrow> u8 \<times> bytes \<Rightarrow> bool" where
  "payload_of e cm pkt pl \<longleftrightarrow> pl = (AC_PKT_DATA, pkt) \<or>
     (\<exists>c out. cm = Some c \<and> comp_compress e c pkt = Some out \<and> length out < length pkt \<and>
        pl = (AC_PKT_COMPRESSED, out))"

lemma payload_length: "payload_of e cm pkt pl \<Longrightarrow> length (snd pl) \<le> length pkt"
  by (auto simp: payload_of_def)

lemma try_compress_payload:
  "try_compress e c pkt ws = (Some out, ws') \<Longrightarrow> payload_of e (Some c) pkt (AC_PKT_COMPRESSED, out)"
  by (auto simp: try_compress_def payload_of_def split: option.splits if_splits)

text \<open>Compression leaves the rest of the state alone.\<close>

definition decomp_only :: "worker \<Rightarrow> worker \<Rightarrow> bool" where
  "decomp_only ws ws' \<longleftrightarrow> ws' = ws\<lparr>w_decomp := w_decomp ws'\<rparr>"

lemma decomp_only_refl [simp]: "decomp_only ws ws"
  by (simp add: decomp_only_def)

lemma try_compress_state: "try_compress e c pkt ws = (r, ws') \<Longrightarrow> decomp_only ws ws'"
  by (auto simp: try_compress_def decomp_only_def split: option.splits)

lemma decomp_only_fields:
  assumes "decomp_only ws ws'"
  shows "w_out ws' = w_out ws" "w_udp_state ws' = w_udp_state ws" "link_mtu ws' = link_mtu ws"
    "dtls_crypto_overhead ws' = dtls_crypto_overhead ws" "dtls_proto_overhead ws' = dtls_proto_overhead ws"
    "w_cstp_comp ws' = w_cstp_comp ws" "b_tx ws' = b_tx ws"
proof -
  have ws': "ws' = ws\<lparr>w_decomp := w_decomp ws'\<rparr>" using assms by (simp add: decomp_only_def)
  show "w_out ws' = w_out ws" "w_udp_state ws' = w_udp_state ws" "link_mtu ws' = link_mtu ws"
    "dtls_crypto_overhead ws' = dtls_crypto_overhead ws" "dtls_proto_overhead ws' = dtls_proto_overhead ws"
    "w_cstp_comp ws' = w_cstp_comp ws" "b_tx ws' = b_tx ws"
    by (subst ws', simp)+
qed

lemma try_compress_shared:
  assumes "try_compress e c pkt ws = (Some out, ws')" and "w_cstp_comp ws' = Some c"
  shows "payload_of e (w_cstp_comp ws) pkt (AC_PKT_COMPRESSED, out)"
  using try_compress_payload [OF assms(1)] assms(2)
    decomp_only_fields(6) [OF try_compress_state [OF assms(1)]] by simp

lemma payload_plain [simp]: "payload_of e cm pkt (AC_PKT_DATA, pkt)"
  by (simp add: payload_of_def)

lemma choose_payload_ok:
  assumes "choose_payload e pkt ws = (d, c, ws')"
  shows "payload_of e (w_dtls_comp ws) pkt d" "payload_of e (w_cstp_comp ws) pkt c" "decomp_only ws ws'"
  using assms unfolding choose_payload_def Let_def
  by (auto split: option.splits prod.splits if_splits
      dest: try_compress_state try_compress_payload intro: try_compress_shared)

definition reads_back :: "worker_env \<Rightarrow> worker \<Rightarrow> time_t \<Rightarrow> bytes \<Rightarrow> worker_out \<Rightarrow> bool" where
  "reads_back e peer nw pkt x \<longleftrightarrow>
     (case x of
        Cstp_Send dat \<Rightarrow>
          (\<exists>peer'. parse_cstp_data e dat nw peer = Returns (0, peer') \<and> w_out peer' = Tun_Write pkt # w_out peer)
      | Dtls_Send dat \<Rightarrow>
          (\<exists>peer'. parse_dtls_data e dat nw peer = Returns (0, peer') \<and> w_out peer' = Tun_Write pkt # w_out peer)
      | _ \<Rightarrow> True)"

definition peer_ready :: "worker_env \<Rightarrow> worker \<Rightarrow> bool" where
  "peer_ready e peer \<longleftrightarrow> length (w_decomp peer) = BUFFER_SIZE \<and> (\<forall>dat. we_tun_write e dat \<noteq> - 1)"

lemma parse_payload:
  assumes "payload_of e cm pkt (ty, body)" and "lz4_inverse e e'" and "peer_ready e' peer"
    and "pkt \<noteq> []" and "length pkt \<le> BUFFER_SIZE"
    and "cm = (if dtls then w_dtls_comp peer else w_cstp_comp peer)"
    and "buf ! (if dtls then 0 else 6) = ty" and "drop (if dtls then 1 else 8) buf = body"
  shows "\<exists>peer'. parse_data e' buf nw dtls peer = Returns (0, peer') \<and> w_out peer' = Tun_Write pkt # w_out peer"
proof -
  have tun: "we_tun_write e' dat \<noteq> - 1" for dat using assms(3) by (simp add: peer_ready_def)
  from assms(1) consider "ty = AC_PKT_DATA" "body = pkt"
    | c where "ty = AC_PKT_COMPRESSED" "cm = Some c" "comp_compress e c pkt = Some body"
    by (auto simp: payload_of_def)
  then show ?thesis
  proof cases
    case 1
    then show ?thesis using assms(7,8) tun
      by (auto simp: parse_data_def tun_deliver_def wemit_def Let_def split: if_splits)
  next
    case 2
    have "length pkt \<le> length (w_decomp peer)" "length pkt \<le> 65536"
      using assms(3,5) by (simp_all add: peer_ready_def BUFFER_SIZE_def)
    from comp_inverse [OF 2(3) assms(2) this] obtain dst where
      "comp_decompress e' c (w_decomp peer) body = Some (length pkt, dst)" "take (length pkt) dst = pkt" by blast
    then show ?thesis using 2 assms(4,6,7,8) tun
      by (auto simp: parse_data_def tun_deliver_def wemit_def Let_def split: if_splits)
  qed
qed

lemma cstp_packet_header:
  assumes "length body < 65536"
  shows "cstp_header_ok (cstp_packet ty body)" "pkt_len (cstp_packet ty body) = length body"
    "length (cstp_packet ty body) = 8 + length body" "cstp_packet ty body ! 6 = ty"
    "drop 8 (cstp_packet ty body) = body"
  using assms by (simp_all add: cstp_packet_def cstp_header_ok_def pkt_len_def unat_of_nat)

lemma reads_back_cstp:
  assumes "payload_of e (w_cstp_comp peer) pkt (ty, body)" and "lz4_inverse e e'" and "peer_ready e' peer"
    and "pkt \<noteq> []" and "length pkt \<le> BUFFER_SIZE"
  shows "reads_back e' peer nw pkt (Cstp_Send (cstp_packet ty body))"
proof -
  define p where
    "p = (if ty = AC_PKT_DATA \<and> w_udp_state peer = UP_ACTIVE then peer\<lparr>w_udp_state := UP_INACTIVE\<rparr> else peer)"
  have "length body < 65536" using payload_length [OF assms(1)] assms(5) by (simp add: BUFFER_SIZE_def)
  note h = cstp_packet_header [OF this, of ty]
  have p: "peer_ready e' p" "w_out p = w_out peer" "w_cstp_comp p = w_cstp_comp peer"
    using assms(3) by (simp_all add: peer_ready_def p_def)
  have "\<exists>peer'. parse_data e' (cstp_packet ty body) nw False p = Returns (0, peer') \<and>
      w_out peer' = Tun_Write pkt # w_out p"
    by (rule parse_payload [OF assms(1,2) p(1) assms(4,5)]) (simp_all add: p(3) h(4,5))
  then obtain peer' where "parse_data e' (cstp_packet ty body) nw False p = Returns (0, peer')"
    "w_out peer' = Tun_Write pkt # w_out peer" using p(2) by metis
  then show ?thesis using h by (simp add: reads_back_def parse_cstp_data_def Let_def flip: p_def)
qed

lemma reads_back_dtls:
  assumes "payload_of e (w_dtls_comp peer) pkt (ty, body)" and "lz4_inverse e e'" and "peer_ready e' peer"
    and "pkt \<noteq> []" and "length pkt \<le> BUFFER_SIZE"
  shows "reads_back e' peer nw pkt (Dtls_Send (ty # body))"
proof -
  have "\<exists>peer'. parse_data e' (ty # body) nw True peer = Returns (0, peer') \<and>
      w_out peer' = Tun_Write pkt # w_out peer"
    by (rule parse_payload [OF assms]) simp_all
  then obtain peer' where "parse_data e' (ty # body) nw True peer = Returns (0, peer')"
    "w_out peer' = Tun_Write pkt # w_out peer" by blast
  then show ?thesis by (simp add: reads_back_def parse_dtls_data_def)
qed

lemma reads_back_mtu: "list_all mtu_out xs \<Longrightarrow> list_all (reads_back e' peer nw pkt) xs"
proof (induction xs)
  case (Cons x xs)
  then show ?case by (cases x) (simp_all add: reads_back_def)
qed simp

lemma exit_not_Returns [simp]:
  "exit_worker_reason e r ws \<noteq> Returns y" "Returns y \<noteq> exit_worker_reason e r ws"
  "exit_worker_reason e r ws \<noteq> Overrun"
  by (simp_all add: exit_worker_reason_def Let_def)

lemma FATAL_Returns [simp]:
  "DTLS_FATAL_ERR_CMD e x ws = Returns ws' \<longleftrightarrow> ws' = ws \<and> \<not> (x < 0 \<and> we_fatal e x)"
  "CSTP_FATAL_ERR_CMD e x ws = Returns ws' \<longleftrightarrow>
     ws' = ws \<and> \<not> (x < 0 \<and> (if w_session ws then we_fatal e x else we_errno_fatal e))"
  "DTLS_FATAL_ERR_CMD e x ws \<noteq> Overrun" "CSTP_FATAL_ERR_CMD e x ws \<noteq> Overrun"
  by (auto simp: DTLS_FATAL_ERR_CMD_def CSTP_FATAL_ERR_CMD_def)

lemma send_dtls_out:
  assumes "send_dtls_payload e pl ws = Returns (retry, ws')"
  shows "\<exists>xs. list_all mtu_out xs \<and> w_out ws' = xs @ Dtls_Send (fst pl # snd pl) # w_out ws"
    and "w_udp_state ws' = w_udp_state ws"
proof -
  let ?ws = "wemit (Dtls_Send (fst pl # snd pl)) (ws\<lparr>tun_bytes_out := tun_bytes_out ws + of_nat (length (snd pl))\<rparr>)"
  have "mtu_only ?ws ws'"
    using assms by (auto simp: send_dtls_payload_def Let_def bind_w_Returns split: if_splits)
  with mtu_only_out [OF this] mtu_only_fields(1) [OF this]
  show "\<exists>xs. list_all mtu_out xs \<and> w_out ws' = xs @ Dtls_Send (fst pl # snd pl) # w_out ws"
    "w_udp_state ws' = w_udp_state ws"
    by (simp_all add: wemit_def)
qed

lemma send_cstp_out:
  "send_cstp_payload e pl ws = Returns ws' \<Longrightarrow>
     w_out ws' = Cstp_Send (cstp_packet (fst pl) (snd pl)) # w_out ws"
  by (auto simp: send_cstp_payload_def Let_def wemit_def split: if_splits)

definition sent_as :: "u8 \<times> bytes \<Rightarrow> u8 \<times> bytes \<Rightarrow> worker_out \<Rightarrow> bool" where
  "sent_as d c x \<longleftrightarrow> mtu_out x \<or> x = Dtls_Send (fst d # snd d) \<or> x = Cstp_Send (cstp_packet (fst c) (snd c))"

lemma mtu_sent_as: "list_all mtu_out xs \<Longrightarrow> list_all (sent_as d c) xs"
  by (auto simp: list_all_iff sent_as_def)

lemma transmit_sends:
  assumes "bind_w (if w_udp_state ws = UP_ACTIVE then send_dtls_payload e d ws else Returns (False, ws)) (\<lambda>(retry, ws).
       bind_w (if w_udp_state ws \<noteq> UP_ACTIVE \<or> retry then send_cstp_payload e c ws else Returns ws) (\<lambda>ws.
       Returns (0, ws\<lparr>last_nc_msg := t\<rparr>))) = Returns (ret, ws')"
  shows "\<exists>xs. w_out ws' = xs @ w_out ws \<and> list_all (sent_as d c) xs \<and> (\<exists>x\<in>set xs. \<not> mtu_out x)"
proof -
  let ?d = "Dtls_Send (fst d # snd d)" and ?c = "Cstp_Send (cstp_packet (fst c) (snd c))"
  show ?thesis
  proof (cases "w_udp_state ws = UP_ACTIVE")
    case True
    with assms obtain retry w1 where 1: "send_dtls_payload e d ws = Returns (retry, w1)"
      and 2: "bind_w (if w_udp_state w1 \<noteq> UP_ACTIVE \<or> retry then send_cstp_payload e c w1 else Returns w1) (\<lambda>ws.
        Returns (0, ws\<lparr>last_nc_msg := t\<rparr>)) = Returns (ret, ws')"
      by (auto simp: bind_w_Returns)
    from send_dtls_out(1) [OF 1] obtain xs where xs: "list_all mtu_out xs" "w_out w1 = xs @ ?d # w_out ws" by blast
    from 2 have "w_out ws' = ?c # w_out w1 \<or> w_out ws' = w_out w1"
      by (auto simp: bind_w_Returns split: if_splits dest: send_cstp_out)
    then show ?thesis
    proof
      assume "w_out ws' = ?c # w_out w1"
      then show ?thesis using xs mtu_sent_as [OF xs(1), of d c]
        by (intro exI [of _ "?c # xs @ [?d]"]) (simp add: sent_as_def)
    next
      assume "w_out ws' = w_out w1"
      then show ?thesis using xs mtu_sent_as [OF xs(1), of d c]
        by (intro exI [of _ "xs @ [?d]"]) (simp add: sent_as_def)
    qed
  next
    case False
    with assms have "w_out ws' = ?c # w_out ws" by (auto simp: bind_w_Returns dest: send_cstp_out)
    then show ?thesis by (intro exI [of _ "[?c]"]) (simp add: sent_as_def)
  qed
qed

lemma tun_mainloop_sends:
  assumes "tun_mainloop e (Inr queued) tnow ws = Returns (ret, ws')"
    and "pkt = take (unat (DATA_MTU ws (link_mtu ws))) queued" and "pkt \<noteq> []" and "kb_per_sec (b_tx ws) = 0"
  shows "\<exists>d c xs. payload_of e (w_dtls_comp ws) pkt d \<and> payload_of e (w_cstp_comp ws) pkt c \<and>
    w_out ws' = xs @ w_out ws \<and> list_all (sent_as d c) xs \<and> (\<exists>x\<in>set xs. \<not> mtu_out x)"
    and "8 + length pkt \<le> BUFFER_SIZE"
proof -
  define w1 where "w1 = (if c_switch_to_tcp_timeout ws \<noteq> 0 \<and> w_udp_state ws = UP_ACTIVE \<and>
      w_udp_recv_time ws + uint (c_switch_to_tcp_timeout ws) < tv_sec tnow
    then ws\<lparr>w_udp_state := UP_INACTIVE\<rparr> else ws)"
  obtain d c w2 where ch: "choose_payload e pkt w1 = (d, c, w2)" by (metis prod_cases3)
  have w1: "w_out w1 = w_out ws" "w_dtls_comp w1 = w_dtls_comp ws" "w_cstp_comp w1 = w_cstp_comp ws" "b_tx w1 = b_tx ws"
    by (simp_all add: w1_def)
  note pl = choose_payload_ok [OF ch]
  show len: "8 + length pkt \<le> BUFFER_SIZE"
    using assms(1,2) by (auto simp: tun_mainloop_def Let_def split: if_splits)
  define w3 where "w3 = w2\<lparr>b_tx := b_tx w2\<rparr>"
  have go: "bandwidth_update (b_tx w2) (of_nat (length (snd d))) tnow = (True, b_tx w2)"
    using assms(4) w1(4) decomp_only_fields(7) [OF pl(3)] by (simp add: bandwidth_update_def)
  have out: "w_out w3 = w_out ws" using decomp_only_fields(1) [OF pl(3)] w1(1) by (simp add: w3_def)
  have "bind_w (if w_udp_state w3 = UP_ACTIVE then send_dtls_payload e d w3 else Returns (False, w3)) (\<lambda>(retry, ws).
       bind_w (if w_udp_state ws \<noteq> UP_ACTIVE \<or> retry then send_cstp_payload e c ws else Returns ws) (\<lambda>ws.
       Returns (0, ws\<lparr>last_nc_msg := tv_sec tnow\<rparr>))) = Returns (ret, ws')"
    using assms(1,3) len unfolding tun_mainloop_def w3_def
    by (simp add: Let_def ch go flip: assms(2) w1_def)
  from transmit_sends [OF this] pl w1 out
  show "\<exists>d c xs. payload_of e (w_dtls_comp ws) pkt d \<and> payload_of e (w_cstp_comp ws) pkt c \<and>
    w_out ws' = xs @ w_out ws \<and> list_all (sent_as d c) xs \<and> (\<exists>x\<in>set xs. \<not> mtu_out x)"
    by metis
qed

text \<open>C4. A packet survives the tunnel: whatever the worker sends for a packet of the tun device, over
  TLS or over DTLS, compressed or not, also when the DTLS packet was too large and is sent again over
  TLS, the receiving side of the same code with the same compression methods writes exactly that packet
  to its tun device; and without a rate limit something is sent for every packet.\<close>

theorem tunnel_round_trip:
  assumes "tun_mainloop e (Inr pkt) tnow ws = Returns (ret, ws')" and "pkt \<noteq> []"
    and "length pkt \<le> unat (DATA_MTU ws (link_mtu ws))" and "kb_per_sec (b_tx ws) = 0"
    and "lz4_inverse e e'" and "peer_ready e' peer"
    and "w_cstp_comp peer = w_cstp_comp ws" and "w_dtls_comp peer = w_dtls_comp ws"
  shows "\<exists>xs. w_out ws' = xs @ w_out ws \<and> list_all (reads_back e' peer nw pkt) xs \<and> (\<exists>x\<in>set xs. \<not> mtu_out x)"
proof -
  have pkt: "pkt = take (unat (DATA_MTU ws (link_mtu ws))) pkt" using assms(3) by simp
  note t = tun_mainloop_sends [OF assms(1) pkt assms(2,4)]
  have len: "length pkt \<le> BUFFER_SIZE" using t(2) by simp
  from t(1) obtain d c xs where
    pl: "payload_of e (w_dtls_comp peer) pkt d" "payload_of e (w_cstp_comp peer) pkt c" and
    out: "w_out ws' = xs @ w_out ws" and xs: "list_all (sent_as d c) xs" and "\<exists>x\<in>set xs. \<not> mtu_out x"
    unfolding assms(7,8) by blast
  moreover have "reads_back e' peer nw pkt x" if "sent_as d c x" for x
    using that reads_back_dtls [of e peer pkt "fst d" "snd d", simplified, OF pl(1) assms(5,6,2) len, of nw]
      reads_back_cstp [of e peer pkt "fst c" "snd c", simplified, OF pl(2) assms(5,6,2) len, of nw]
      reads_back_mtu [of "[x]" e' peer nw pkt]
    by (auto simp: sent_as_def)
  with xs have "list_all (reads_back e' peer nw pkt) xs" by (auto simp: list_all_iff)
  ultimately show ?thesis by blast
qed

definition demo_worker :: worker where
  "demo_worker =
     \<lparr>w_session = True, w_dtls_session = True, w_dtls_comp = Some OC_COMP_LZS, w_cstp_comp = Some OC_COMP_LZS,
      w_user_agent = ''agent'', w_devtype = '''', w_hostname = '''', w_use_psk = True, w_req_link_mtu = 0,
      w_req_tunnel_mtu = 0, w_no_ipv6 = True, w_sid_set = True, w_conn_unix = False, w_auth_complete = True,
      w_our_addr = [], w_remote_addr = [], w_proto = W_INET, w_start = 0, last_msg_udp = 100, last_msg_tcp = 100,
      last_nc_msg = 100, last_periodic_check = 100, w_dtls_fd = Some 7, w_dtls_msg = None, w_udp_state = UP_ACTIVE,
      w_udp_recv_time = 100, last_tls_rehandshake = 0, last_dtls_rehandshake = 0, last_stats_msg = 0,
      last_good_mtu = 1500, last_bad_mtu = 1500, b_tx = bandwidth_init 0, b_rx = bandwidth_init 0,
      link_mtu = 1500, adv_link_mtu = 1500, cstp_crypto_overhead = 45, cstp_proto_overhead = 40,
      dtls_crypto_overhead = 38, dtls_proto_overhead = 28, w_decomp = replicate BUFFER_SIZE 0, w_ban_points = 0,
      tun_bytes_in = 0, tun_bytes_out = 0, vinfo_ipv6 = False, vinfo_mtu = 1500, c_try_mtu = True,
      c_idle_timeout = 1200, c_rekey_time = 86400, c_switch_to_tcp_timeout = 0, c_no_compress_limit = 8,
      c_max_ban_score = 80, c_ban_points_wrong_password = 10, c_listen_proxy_proto = False, c_dtls_legacy = True,
      u_session_timeout_secs = 0, u_interim_update_secs = 0, u_dpd = 90, u_mtu = 0, w_terminate = False,
      w_terminate_reason = 1, w_out = []\<rparr>"

definition demo_wenv :: worker_env where
  "demo_wenv =
     \<lparr>we_dtls_send = (\<lambda>_. - 7), we_cstp_send = (\<lambda>d. int (length d)), we_tun_write = (\<lambda>d. int (length d)),
      we_fatal = (\<lambda>x. x = - 10), we_errno_fatal = False, we_dtls_mtu = (\<lambda>m. m + 37), we_path_mtu = None,
      we_pmtu = 1500, we_secmod_up = True, we_ban_reply = Some True, we_tls_desc = '''', we_dtls_desc = '''',
      we_tls_overhead = 37, we_max_tls_overhead = 37, we_max_dtls_overhead = 37, we_psk_overhead = 37,
      we_suite_overhead = None, we_time = 100, we_lz4_compress = (\<lambda>_ _. None), we_lz4_decompress = (\<lambda>_ _. None),
      we_chain = (\<lambda>_. 7), we_scratch = [], we_setup_keys = True, we_handshake = 0,
      we_handshakes = [0], we_first_packet = True\<rparr>"

lemma demo_compressed: "comp_compress demo_wenv OC_COMP_LZS demo_packet = Some [0, 128, 128, 120, 63, 16, 38, 0]"
  by code_simp

lemma demo_choose:
  "choose_payload demo_wenv demo_packet demo_worker =
     ((AC_PKT_COMPRESSED, [0, 128, 128, 120, 63, 16, 38, 0]), (AC_PKT_COMPRESSED, [0, 128, 128, 120, 63, 16, 38, 0]),
      demo_worker\<lparr>w_decomp := blit 8 [0, 128, 128, 120, 63, 16, 38, 0] (w_decomp demo_worker)\<rparr>)"
proof -
  have "w_udp_state demo_worker = UP_ACTIVE" "w_dtls_comp demo_worker = Some OC_COMP_LZS"
    "w_cstp_comp demo_worker = Some OC_COMP_LZS" "unat (c_no_compress_limit demo_worker) < length demo_packet"
    "length demo_packet = 13"
    by (simp_all add: demo_worker_def demo_packet_def)
  then show ?thesis by (simp add: choose_payload_def try_compress_def demo_compressed Let_def)
qed

lemma demo_tun_returns:
  "\<exists>ws'. tun_mainloop demo_wenv (Inr demo_packet) \<lparr>tv_sec = 101, tv_nsec = 0\<rparr> demo_worker = Returns (0, ws')"
proof -
  have "demo_packet \<noteq> []" "length demo_packet = 13" "unat (DATA_MTU demo_worker (link_mtu demo_worker)) = 1434"
    "c_switch_to_tcp_timeout demo_worker = 0" "w_udp_state demo_worker = UP_ACTIVE" "b_tx demo_worker = bandwidth_init 0"
    by (simp_all add: demo_packet_def demo_worker_def DATA_MTU_def)
  moreover have "we_dtls_send demo_wenv x = - 7" "we_cstp_send demo_wenv x = int (length x)" "\<not> we_fatal demo_wenv (- 7)" for x
    by (simp_all add: demo_wenv_def)
  ultimately show ?thesis
    by (simp add: tun_mainloop_def demo_choose BUFFER_SIZE_def bandwidth_update_def bandwidth_init_def
        send_dtls_payload_def send_cstp_payload_def DTLS_FATAL_ERR_CMD_def CSTP_FATAL_ERR_CMD_def Let_def)
qed

theorem tunnel_round_trip_witness:
  "\<exists>ws' xs. tun_mainloop demo_wenv (Inr demo_packet) \<lparr>tv_sec = 101, tv_nsec = 0\<rparr> demo_worker = Returns (0, ws') \<and>
     w_out ws' = xs @ w_out demo_worker \<and> list_all (reads_back demo_wenv demo_worker 102 demo_packet) xs \<and>
     (\<exists>x\<in>set xs. \<not> mtu_out x)"
proof -
  obtain ws' where ws': "tun_mainloop demo_wenv (Inr demo_packet) \<lparr>tv_sec = 101, tv_nsec = 0\<rparr> demo_worker = Returns (0, ws')"
    using demo_tun_returns by blast
  have "\<exists>xs. w_out ws' = xs @ w_out demo_worker \<and> list_all (reads_back demo_wenv demo_worker 102 demo_packet) xs \<and>
     (\<exists>x\<in>set xs. \<not> mtu_out x)"
    by (rule tunnel_round_trip [OF ws'])
      (simp_all add: demo_worker_def demo_packet_def DATA_MTU_def bandwidth_init_def lz4_inverse_def
        demo_wenv_def peer_ready_def)
  with ws' show ?thesis by blast
qed

end
