(* ===== verification/WorkerMtu.thy ===== *)
theory WorkerMtu
  imports WorkerTunnel
begin

text \<open>
  The MTU search of the worker, \<^verbatim>\<open>mtu_ok\<close> and \<^verbatim>\<open>mtu_not_ok\<close>, driven by the packets of the tun device: an
  abstract search on natural numbers, the proof that a full-size packet sent by \<^verbatim>\<open>tun_mainloop\<close> on an
  IPv4 path is one step of it, and the proof that the search ends.
\<close>

section \<open>The abstract search\<close>

record mtu_search =
  ms_on :: bool
  ms_good :: nat
  ms_bad :: nat
  ms_link :: nat

text \<open>One full-size packet on a path of MTU \<open>p\<close>; \<open>mn\<close> is the lowest MTU the search tries.\<close>

definition probe :: "nat \<Rightarrow> nat \<Rightarrow> mtu_search \<Rightarrow> mtu_search" where
  "probe mn p s =
     (if \<not> ms_on s then s
      else if ms_link s \<le> p then
        (if ms_bad s = ms_link s + 1 \<or> ms_bad s = ms_link s then s
         else s\<lparr>ms_good := ms_link s, ms_link := (ms_link s + ms_bad s) div 2\<rparr>)
      else if ms_good s = mn then s\<lparr>ms_on := False, ms_bad := ms_link s, ms_link := mn\<rparr>
      else
        (let g = (if ms_link s \<le> ms_good s then max (2 * ms_link s div 3) mn else ms_good s)
         in s\<lparr>ms_good := g, ms_bad := ms_link s, ms_link := g\<rparr>))"

text \<open>Where the search may stop: at the MTU of the path, or at the lowest MTU, with the search off.\<close>

definition settled :: "nat \<Rightarrow> nat \<Rightarrow> mtu_search \<Rightarrow> bool" where
  "settled mn p s \<longleftrightarrow> probe mn p s = s \<and> (ms_link s = p \<or> \<not> ms_on s \<and> ms_link s = mn)"

definition low :: "nat \<Rightarrow> mtu_search \<Rightarrow> bool" where
  "low p s \<longleftrightarrow> ms_on s \<and> ms_link s = ms_good s \<and> ms_good s \<le> p \<and> p < ms_bad s"

definition mid :: "nat \<Rightarrow> mtu_search \<Rightarrow> bool" where
  "mid p s \<longleftrightarrow> ms_on s \<and> ms_good s + 2 \<le> ms_bad s \<and> ms_link s = (ms_good s + ms_bad s) div 2 \<and>
     ms_good s \<le> p \<and> p < ms_bad s"

definition high :: "nat \<Rightarrow> mtu_search \<Rightarrow> bool" where
  "high p s \<longleftrightarrow> ms_on s \<and> ms_link s = ms_good s \<and> p < ms_link s"

lemma settled_stays: "settled mn p s \<Longrightarrow> settled mn p ((probe mn p ^^ n) s)"
  by (induction n) (simp_all add: settled_def)

lemma settled_later:
  assumes "settled mn p ((probe mn p ^^ m) s)" and "m \<le> n"
  shows "settled mn p ((probe mn p ^^ n) s)"
proof -
  have "(probe mn p ^^ n) s = (probe mn p ^^ (n - m)) ((probe mn p ^^ m) s)"
    using assms(2) by (metis comp_apply funpow_add le_add_diff_inverse2)
  then show ?thesis using settled_stays [OF assms(1)] by simp
qed

lemma low_step:
  assumes "low p s"
  shows "settled mn p s \<or> mid p (probe mn p s) \<and> ms_good (probe mn p s) = ms_good s \<and> ms_bad (probe mn p s) = ms_bad s"
  using assms by (auto simp: low_def mid_def settled_def probe_def)

lemma mid_step:
  assumes "mid p s" and "ms_bad s - ms_good s \<le> 2 ^ Suc k"
  shows "settled mn p s \<or> settled mn p (probe mn p s) \<or>
    (low p (probe mn p s) \<or> mid p (probe mn p s)) \<and> ms_bad (probe mn p s) - ms_good (probe mn p s) \<le> 2 ^ k"
proof (cases "ms_link s \<le> p")
  case True
  then show ?thesis using assms by (auto simp: mid_def settled_def probe_def)
next
  case False
  then show ?thesis using assms by (auto simp: mid_def low_def settled_def probe_def Let_def)
qed

lemma mid_settles:
  assumes "mid p s" and "ms_bad s - ms_good s \<le> 2 ^ k"
  shows "settled mn p ((probe mn p ^^ (2 * k)) s)"
  using assms
proof (induction k arbitrary: s)
  case 0
  then show ?case by (auto simp: mid_def)
next
  case (Suc k)
  let ?t = "probe mn p s"
  have it: "(probe mn p ^^ (2 * Suc k)) s = (probe mn p ^^ (2 * k)) (probe mn p ?t)"
    "(probe mn p ^^ (2 * Suc k)) s = (probe mn p ^^ (2 * k + 1)) ?t"
    by (simp_all add: funpow_swap1)
  from mid_step [OF Suc(2,3), of mn] consider "settled mn p s" | "settled mn p ?t"
    | "low p ?t" "ms_bad ?t - ms_good ?t \<le> 2 ^ k" | "mid p ?t" "ms_bad ?t - ms_good ?t \<le> 2 ^ k" by blast
  then show ?case
  proof cases
    case 1
    then show ?thesis by (rule settled_stays)
  next
    case 2
    then show ?thesis unfolding it(2) by (rule settled_stays)
  next
    case 3
    from low_step [OF 3(1), of mn] show ?thesis
    proof
      assume "settled mn p ?t"
      then show ?thesis unfolding it(2) by (rule settled_stays)
    next
      assume "mid p (probe mn p ?t) \<and> ms_good (probe mn p ?t) = ms_good ?t \<and> ms_bad (probe mn p ?t) = ms_bad ?t"
      then show ?thesis unfolding it(1) using 3(2) by (intro Suc(1)) auto
    qed
  next
    case 4
    from Suc(1) [OF this] show ?thesis unfolding it(2) by (rule settled_later) simp
  qed
qed

lemma low_settles:
  assumes "low p s" and "ms_bad s - ms_good s \<le> 2 ^ k"
  shows "settled mn p ((probe mn p ^^ (2 * k + 1)) s)"
  using low_step [OF assms(1), of mn]
proof
  assume "settled mn p s"
  then show ?thesis by (rule settled_stays)
next
  assume "mid p (probe mn p s) \<and> ms_good (probe mn p s) = ms_good s \<and> ms_bad (probe mn p s) = ms_bad s"
  then have "settled mn p ((probe mn p ^^ (2 * k)) (probe mn p s))" using assms(2) by (intro mid_settles) auto
  then show ?thesis by (simp add: funpow_swap1)
qed

lemma high_step:
  assumes "high p s" and "mn \<le> p"
  shows "ms_bad (probe mn p s) = ms_link s" "ms_link (probe mn p s) = max (2 * ms_link s div 3) mn"
    "low p (probe mn p s) \<or> high p (probe mn p s)"
  using assms by (auto simp: high_def low_def probe_def Let_def)

lemma high_settles:
  assumes "high p s" and "mn \<le> p" and "ms_link s * 2 ^ k \<le> p * 3 ^ k" and "ms_link s \<le> 2 ^ j"
  shows "settled mn p ((probe mn p ^^ (k + (2 * j + 1))) s)"
  using assms
proof (induction k arbitrary: s)
  case 0
  then show ?case by (simp add: high_def)
next
  case (Suc k)
  let ?t = "probe mn p s"
  note st = high_step [OF Suc(2,3)]
  have it: "(probe mn p ^^ (Suc k + (2 * j + 1))) s = (probe mn p ^^ (k + (2 * j + 1))) ?t"
    by (simp add: funpow_swap1)
  from st(3) show ?case
  proof
    assume "low p ?t"
    then have "settled mn p ((probe mn p ^^ (2 * j + 1)) ?t)" using st(1) Suc(5) by (intro low_settles) auto
    then show ?thesis unfolding it by (rule settled_later) simp
  next
    assume high: "high p ?t"
    then have t: "ms_link ?t = 2 * ms_link s div 3" using st(2) Suc(3) by (auto simp: high_def max_def split: if_splits)
    have "3 * (ms_link ?t * 2 ^ k) \<le> 2 * ms_link s * 2 ^ k" unfolding t by simp
    also have "\<dots> \<le> 3 * (p * 3 ^ k)" using Suc(4) by simp
    finally have "ms_link ?t * 2 ^ k \<le> p * 3 ^ k" by simp
    moreover have "ms_link ?t \<le> 2 ^ j" using t Suc(5) by simp
    ultimately show ?thesis unfolding it using Suc(3) high by (intro Suc(1))
  qed
qed

text \<open>The search from a fresh start at \<open>m\<close>: \<^verbatim>\<open>mtu_discovery_init\<close> sets both marks to the MTU in use.\<close>

lemma search_settles:
  assumes "ms_on s" and "ms_good s = m" and "ms_bad s = m" and "ms_link s = m"
    and "m \<le> 16384" and "800 \<le> mn" and "mn \<le> p" and "37 \<le> n"
  shows "probe mn p ((probe mn p ^^ n) s) = (probe mn p ^^ n) s \<and>
    (ms_link ((probe mn p ^^ n) s) = min m p \<or>
     \<not> ms_on ((probe mn p ^^ n) s) \<and> ms_link ((probe mn p ^^ n) s) = mn)"
proof (cases "m \<le> p")
  case True
  then have same: "probe mn p s = s" using assms by (simp add: probe_def)
  have "(probe mn p ^^ n) s = s" by (induction n) (simp_all add: same)
  then show ?thesis using same True assms by simp
next
  case False
  then have "high p s" using assms by (simp add: high_def)
  moreover have "m * 2 ^ 8 \<le> p * 3 ^ 8" using assms(5-7) by simp
  ultimately have "settled mn p ((probe mn p ^^ (8 + (2 * 14 + 1))) s)"
    using assms by (intro high_settles) simp_all
  then have "settled mn p ((probe mn p ^^ n) s)" by (rule settled_later) (use assms(8) in simp)
  then show ?thesis using False by (auto simp: settled_def)
qed

section \<open>A full-size packet is a step of the search\<close>

definition search_of :: "worker \<Rightarrow> mtu_search" where
  "search_of ws = \<lparr>ms_on = c_try_mtu ws, ms_good = unat (last_good_mtu ws), ms_bad = unat (last_bad_mtu ws),
     ms_link = unat (link_mtu ws)\<rparr>"

text \<open>The path: a DTLS packet that is larger than its MTU, headers included, is refused with
  \<^verbatim>\<open>GNUTLS_E_LARGE_PACKET\<close>; everything else is sent.\<close>

definition on_path :: "nat \<Rightarrow> worker_env \<Rightarrow> worker \<Rightarrow> bool" where
  "on_path p e ws \<longleftrightarrow>
     (\<forall>dat. we_dtls_send e dat =
        (if p < length dat + (unat (dtls_crypto_overhead ws) - 1) + unat (dtls_proto_overhead ws)
         then GNUTLS_E_LARGE_PACKET else int (length dat))) \<and>
     \<not> we_fatal e GNUTLS_E_LARGE_PACKET \<and> (\<forall>dat. 0 \<le> we_cstp_send e dat)"

text \<open>An IPv4 session on its UDP channel without compression and without a rate limit.\<close>

definition plain_udp :: "worker \<Rightarrow> bool" where
  "plain_udp ws \<longleftrightarrow> w_proto ws = W_INET \<and> w_dtls_session ws \<and> w_udp_state ws = UP_ACTIVE \<and>
     w_dtls_comp ws = None \<and> w_cstp_comp ws = None \<and> kb_per_sec (b_tx ws) = 0 \<and> c_switch_to_tcp_timeout ws = 0 \<and>
     1 \<le> unat (dtls_crypto_overhead ws) \<and> 8 \<le> unat (dtls_proto_overhead ws) \<and>
     unat (dtls_crypto_overhead ws) + unat (dtls_proto_overhead ws) \<le> 700"

definition in_range :: "worker \<Rightarrow> bool" where
  "in_range ws \<longleftrightarrow> unat (MIN_MTU ws) \<le> unat (link_mtu ws) \<and> unat (link_mtu ws) \<le> 16384 \<and>
     unat (last_good_mtu ws) \<le> 16384 \<and> unat (MIN_MTU ws) \<le> unat (last_good_mtu ws) \<and>
     unat (last_bad_mtu ws) \<le> 16384 \<and> unat (MIN_MTU ws) \<le> unat (last_bad_mtu ws)"

lemma MIN_MTU_bounds: "800 \<le> unat (MIN_MTU ws)" "unat (MIN_MTU ws) \<le> 1280"
  by (simp_all add: MIN_MTU_def)

lemma unat_DATA_MTU:
  assumes "unat (dtls_crypto_overhead ws) + unat (dtls_proto_overhead ws) \<le> unat m"
  shows "unat (DATA_MTU ws m) = unat m - (unat (dtls_crypto_overhead ws) + unat (dtls_proto_overhead ws))"
proof -
  have 1: "unat (m - dtls_crypto_overhead ws) = unat m - unat (dtls_crypto_overhead ws)"
    using assms by (intro unat_sub) (simp add: word_le_nat_alt)
  then have "unat (m - dtls_crypto_overhead ws - dtls_proto_overhead ws) =
      unat (m - dtls_crypto_overhead ws) - unat (dtls_proto_overhead ws)"
    using assms by (intro unat_sub) (simp add: word_le_nat_alt)
  then show ?thesis using 1 by (simp add: DATA_MTU_def)
qed

lemma link_mtu_set_fields:
  "unat m \<le> BUFFER_SIZE \<Longrightarrow> link_mtu (link_mtu_set m ws) = m"
  "last_good_mtu (link_mtu_set m ws) = last_good_mtu ws" "last_bad_mtu (link_mtu_set m ws) = last_bad_mtu ws"
  "c_try_mtu (link_mtu_set m ws) = c_try_mtu ws"
  by (auto simp: link_mtu_set_def data_mtu_send_def wemit_def Let_def)

lemma disable_fields:
  "last_good_mtu (disable_mtu_disc ws) = last_good_mtu ws" "last_bad_mtu (disable_mtu_disc ws) = last_bad_mtu ws"
  "\<not> c_try_mtu (disable_mtu_disc ws)"
  by (simp_all add: disable_mtu_disc_def link_mtu_set_fields wemit_def)

lemma mtu_ok_probe:
  assumes "in_range ws" and "w_proto ws = W_INET" and "unat (link_mtu ws) \<le> p"
  shows "search_of (mtu_ok ws) = probe (unat (MIN_MTU ws)) p (search_of ws)" and "in_range (mtu_ok ws)"
proof -
  have r: "unat (link_mtu ws) \<le> 16384" "unat (last_bad_mtu ws) \<le> 16384" using assms(1) by (simp_all add: in_range_def)
  have s: "unat (link_mtu ws + last_bad_mtu ws) = unat (link_mtu ws) + unat (last_bad_mtu ws)"
    using r by (intro unat_plus_u32) simp
  then have d: "unat ((link_mtu ws + last_bad_mtu ws) div 2) = (unat (link_mtu ws) + unat (last_bad_mtu ws)) div 2"
    by (simp add: unat_div)
  have "unat (link_mtu ws + 1) = unat (link_mtu ws) + 1"
    using r(1) unat_plus_u32 [of "link_mtu ws" 1] by simp
  then have eq: "last_bad_mtu ws = link_mtu ws + 1 \<longleftrightarrow> unat (last_bad_mtu ws) = unat (link_mtu ws) + 1"
    "last_bad_mtu ws = link_mtu ws \<longleftrightarrow> unat (last_bad_mtu ws) = unat (link_mtu ws)"
    by (simp_all add: word_unat_eq_iff)
  have b: "unat ((link_mtu ws + last_bad_mtu ws) div 2) \<le> BUFFER_SIZE" using d r by (simp add: BUFFER_SIZE_def)
  show "search_of (mtu_ok ws) = probe (unat (MIN_MTU ws)) p (search_of ws)"
    using assms(2,3) b d eq by (auto simp: mtu_ok_def search_of_def probe_def Let_def link_mtu_set_fields)
  have m: "MIN_MTU (mtu_ok ws) = MIN_MTU ws" using mtu_only_fields(7) [OF mtu_ok_only] by (simp add: MIN_MTU_def)
  show "in_range (mtu_ok ws)"
    using assms(1) b d unfolding in_range_def m
    by (auto simp: mtu_ok_def Let_def link_mtu_set_fields)
qed

lemma mtu_not_ok_probe:
  assumes "in_range ws" and "plain_udp ws" and "p < unat (link_mtu ws)"
  shows "search_of (mtu_not_ok e ws) = probe (unat (MIN_MTU ws)) p (search_of ws)" and "in_range (mtu_not_ok e ws)"
proof -
  let ?mn = "MIN_MTU ws" and ?g = "max (2 * link_mtu ws div 3) (MIN_MTU ws)"
  have mn: "unat ?mn \<le> BUFFER_SIZE" using MIN_MTU_bounds(2) [of ws] by (simp add: BUFFER_SIZE_def)
  have MIN: "MIN_MTU (ws\<lparr>last_bad_mtu := b\<rparr>) = ?mn" for b by (simp add: MIN_MTU_def)
  have r: "unat (link_mtu ws) \<le> 16384" "unat (last_good_mtu ws) \<le> BUFFER_SIZE" "unat ?mn \<le> unat (link_mtu ws)"
    using assms(1) by (simp_all add: in_range_def BUFFER_SIZE_def)
  have "unat (2 * link_mtu ws) = 2 * unat (link_mtu ws)" using r(1) by (subst unat_mult_lem [THEN iffD1]) simp_all
  then have g: "unat ?g = max (2 * unat (link_mtu ws) div 3) (unat ?mn)"
    by (simp add: max_def word_le_nat_alt unat_div)
  have gb: "unat ?g \<le> BUFFER_SIZE" "unat ?g \<le> 16384" "unat ?mn \<le> unat ?g" unfolding g using r mn by (simp_all add: BUFFER_SIZE_def)
  have eq: "last_good_mtu ws = ?mn \<longleftrightarrow> unat (last_good_mtu ws) = unat ?mn"
    "link_mtu ws \<le> last_good_mtu ws \<longleftrightarrow> unat (link_mtu ws) \<le> unat (last_good_mtu ws)"
    by (simp_all add: word_unat_eq_iff word_le_nat_alt)
  have cs: "mtu_not_ok e ws = (if \<not> c_try_mtu ws then ws
      else if last_good_mtu ws = ?mn then link_mtu_set ?mn (disable_mtu_disc (ws\<lparr>last_bad_mtu := link_mtu ws\<rparr>))
      else if link_mtu ws \<le> last_good_mtu ws
           then link_mtu_set ?g (ws\<lparr>last_bad_mtu := link_mtu ws, last_good_mtu := ?g\<rparr>)
      else link_mtu_set (last_good_mtu ws) (ws\<lparr>last_bad_mtu := link_mtu ws\<rparr>))"
    using assms(2) by (simp add: mtu_not_ok_def plain_udp_def Let_def MIN)
  show "search_of (mtu_not_ok e ws) = probe (unat ?mn) p (search_of ws)"
    using assms(3) mn r gb g eq unfolding cs
    by (auto simp: search_of_def probe_def Let_def link_mtu_set_fields disable_fields)
  have m: "MIN_MTU (mtu_not_ok e ws) = ?mn" using mtu_only_fields(7) [OF mtu_not_ok_only] by (simp add: MIN_MTU_def)
  show "in_range (mtu_not_ok e ws)"
    using assms(1) r gb mn unfolding in_range_def m unfolding cs
    by (auto simp: link_mtu_set_fields disable_fields BUFFER_SIZE_def)
qed

lemma mtu_only_plain:
  assumes "mtu_only ws ws'"
  shows "plain_udp ws' = plain_udp ws" "on_path p e ws' = on_path p e ws" "MIN_MTU ws' = MIN_MTU ws"
  using assms by (auto simp: mtu_only_def plain_udp_def on_path_def MIN_MTU_def)

text \<open>The rest of what \<^verbatim>\<open>tun_mainloop\<close> changes does not matter to the search.\<close>

lemma search_frame [simp]:
  "search_of (ws\<lparr>last_nc_msg := t\<rparr>) = search_of ws" "search_of (ws\<lparr>tun_bytes_out := x\<rparr>) = search_of ws"
  "search_of (wemit y ws) = search_of ws" "search_of (ws\<lparr>b_tx := bw\<rparr>) = search_of ws"
  "in_range (ws\<lparr>last_nc_msg := t\<rparr>) = in_range ws" "in_range (ws\<lparr>tun_bytes_out := x\<rparr>) = in_range ws"
  "in_range (wemit y ws) = in_range ws" "in_range (ws\<lparr>b_tx := bw\<rparr>) = in_range ws"
  "plain_udp (ws\<lparr>last_nc_msg := t\<rparr>) = plain_udp ws" "plain_udp (ws\<lparr>tun_bytes_out := x\<rparr>) = plain_udp ws"
  "plain_udp (wemit y ws) = plain_udp ws"
  "on_path p e (ws\<lparr>last_nc_msg := t\<rparr>) = on_path p e ws" "on_path p e (ws\<lparr>tun_bytes_out := x\<rparr>) = on_path p e ws"
  "on_path p e (wemit y ws) = on_path p e ws"
  "MIN_MTU (ws\<lparr>last_nc_msg := t\<rparr>) = MIN_MTU ws" "MIN_MTU (ws\<lparr>tun_bytes_out := x\<rparr>) = MIN_MTU ws"
  "MIN_MTU (wemit y ws) = MIN_MTU ws"
  by (simp_all add: search_of_def in_range_def MIN_MTU_def plain_udp_def on_path_def wemit_def)

definition full_packet :: "worker \<Rightarrow> bytes" where
  "full_packet ws = replicate (unat (DATA_MTU ws (link_mtu ws))) 0"

definition search_ok :: "nat \<Rightarrow> worker_env \<Rightarrow> worker \<Rightarrow> bool" where
  "search_ok p e ws \<longleftrightarrow> in_range ws \<and> plain_udp ws \<and> on_path p e ws"

lemma send_full_packet:
  assumes "search_ok p e ws"
  shows "\<exists>retry ws'. send_dtls_payload e (AC_PKT_DATA, full_packet ws) ws = Returns (retry, ws') \<and>
    search_of ws' = probe (unat (MIN_MTU ws)) p (search_of ws) \<and> search_ok p e ws' \<and> MIN_MTU ws' = MIN_MTU ws"
proof -
  let ?w = "wemit (Dtls_Send (AC_PKT_DATA # full_packet ws))
    (ws\<lparr>tun_bytes_out := tun_bytes_out ws + of_nat (length (full_packet ws))\<rparr>)"
  let ?c = "unat (dtls_crypto_overhead ws)" and ?o = "unat (dtls_proto_overhead ws)" and ?m = "unat (link_mtu ws)"
  have ok: "in_range ws" "plain_udp ws" "on_path p e ws" using assms by (simp_all add: search_ok_def)
  have b: "?c + ?o \<le> ?m" "1 \<le> ?c" "?m \<le> 16384"
    using ok MIN_MTU_bounds(1) [of ws] by (auto simp: in_range_def plain_udp_def)
  note dm = unat_DATA_MTU [OF b(1)]
  have len: "length (AC_PKT_DATA # full_packet ws) + (?c - 1) + ?o = ?m" using b dm by (simp add: full_packet_def)
  have w: "link_mtu ?w = link_mtu ws" "c_try_mtu ?w = c_try_mtu ws" "DATA_MTU ?w (link_mtu ws) = DATA_MTU ws (link_mtu ws)"
    "w_proto ?w = W_INET"
    using ok(2) by (simp_all add: wemit_def DATA_MTU_def plain_udp_def)
  show ?thesis
  proof (cases "p < ?m")
    case True
    then have ret: "we_dtls_send e (AC_PKT_DATA # full_packet ws) = - 7" "\<not> we_fatal e (- 7)"
      using ok(3) len by (simp_all add: on_path_def)
    have "send_dtls_payload e (AC_PKT_DATA, full_packet ws) ws = Returns (True, mtu_not_ok e ?w)"
      by (simp add: send_dtls_payload_def Let_def ret DTLS_FATAL_ERR_CMD_def)
    moreover have "search_of (mtu_not_ok e ?w) = probe (unat (MIN_MTU ?w)) p (search_of ?w)" "in_range (mtu_not_ok e ?w)"
      using mtu_not_ok_probe [of ?w p e] ok True w(1) by simp_all
    ultimately show ?thesis using ok
      by (intro exI [of _ True] exI [of _ "mtu_not_ok e ?w"])
        (simp add: search_ok_def mtu_only_plain [OF mtu_not_ok_only])
  next
    case False
    then have ret: "we_dtls_send e (AC_PKT_DATA # full_packet ws) = int (length (AC_PKT_DATA # full_packet ws))"
      using ok(3) len by (simp add: on_path_def)
    have "word_of_int (int (length (AC_PKT_DATA # full_packet ws))) = 1 + DATA_MTU ws (link_mtu ws)"
      by (simp add: full_packet_def)
    then have "send_dtls_payload e (AC_PKT_DATA, full_packet ws) ws = Returns (False, if c_try_mtu ws then mtu_ok ?w else ?w)"
      using w by (simp add: send_dtls_payload_def Let_def ret DTLS_FATAL_ERR_CMD_def)
    moreover have "(if c_try_mtu ws then mtu_ok ?w else ?w) = mtu_ok ?w" using w(2) by (simp add: mtu_ok_def)
    moreover have "search_of (mtu_ok ?w) = probe (unat (MIN_MTU ?w)) p (search_of ?w)" "in_range (mtu_ok ?w)"
      using mtu_ok_probe [of ?w p] ok False w(1,4) by simp_all
    ultimately show ?thesis using ok
      by (intro exI [of _ False] exI [of _ "mtu_ok ?w"]) (simp add: search_ok_def mtu_only_plain [OF mtu_ok_only])
  qed
qed

lemma tun_full_packet:
  assumes "search_ok p e ws"
  shows "\<exists>ws'. tun_mainloop e (Inr (full_packet ws)) tnow ws = Returns (0, ws') \<and>
    search_of ws' = probe (unat (MIN_MTU ws)) p (search_of ws) \<and> search_ok p e ws' \<and> MIN_MTU ws' = MIN_MTU ws"
proof -
  have ok: "in_range ws" "plain_udp ws" "on_path p e ws" using assms by (simp_all add: search_ok_def)
  have b: "unat (dtls_crypto_overhead ws) + unat (dtls_proto_overhead ws) \<le> 700" "8 \<le> unat (dtls_proto_overhead ws)"
    "800 \<le> unat (link_mtu ws)" "unat (link_mtu ws) \<le> 16384"
    using ok MIN_MTU_bounds(1) [of ws] by (auto simp: in_range_def plain_udp_def)
  have dm: "unat (DATA_MTU ws (link_mtu ws)) =
      unat (link_mtu ws) - (unat (dtls_crypto_overhead ws) + unat (dtls_proto_overhead ws))"
    using b by (intro unat_DATA_MTU) simp
  have pkt: "full_packet ws \<noteq> []" "8 + length (full_packet ws) \<le> BUFFER_SIZE"
    "take (unat (DATA_MTU ws (link_mtu ws))) (full_packet ws) = full_packet ws"
    using b dm by (auto simp: full_packet_def BUFFER_SIZE_def)
  obtain retry w1 where w1: "send_dtls_payload e (AC_PKT_DATA, full_packet ws) ws = Returns (retry, w1)"
    "search_of w1 = probe (unat (MIN_MTU ws)) p (search_of ws)" "search_ok p e w1" "MIN_MTU w1 = MIN_MTU ws"
    using send_full_packet [OF assms] by blast
  have "on_path p e w1" using w1(3) by (simp add: search_ok_def)
  then have "0 \<le> we_cstp_send e dat" for dat by (simp add: on_path_def)
  then obtain w2 where w2: "send_cstp_payload e (AC_PKT_DATA, full_packet ws) w1 = Returns w2"
    "search_of w2 = search_of w1" "search_ok p e w2" "MIN_MTU w2 = MIN_MTU w1"
    using w1(3) by (auto simp: send_cstp_payload_def Let_def CSTP_FATAL_ERR_CMD_def search_ok_def leD)
  have ch: "choose_payload e (full_packet ws) ws = ((AC_PKT_DATA, full_packet ws), (AC_PKT_DATA, full_packet ws), ws)"
    using ok(2) by (simp add: choose_payload_def plain_udp_def Let_def)
  have st: "w_udp_state ws = UP_ACTIVE" "kb_per_sec (b_tx ws) = 0" "c_switch_to_tcp_timeout ws = 0" "w_udp_state w1 = UP_ACTIVE"
    using ok(2) w1(3) by (simp_all add: plain_udp_def search_ok_def)
  have "tun_mainloop e (Inr (full_packet ws)) tnow ws = Returns (0, (if retry then w2 else w1)\<lparr>last_nc_msg := tv_sec tnow\<rparr>)"
    using pkt st ch w1(1) w2(1) by (simp add: tun_mainloop_def Let_def bandwidth_update_def)
  then show ?thesis using w1 w2
    by (intro exI [of _ "(if retry then w2 else w1)\<lparr>last_nc_msg := tv_sec tnow\<rparr>"]) (simp add: search_ok_def)
qed

text \<open>A run of \<open>n\<close> packets of the size that the tun device has at that moment.\<close>

fun send_full :: "worker_env \<Rightarrow> timespec \<Rightarrow> nat \<Rightarrow> worker \<Rightarrow> worker wres" where
  "send_full e tnow 0 ws = Returns ws"
| "send_full e tnow (Suc n) ws =
     bind_w (tun_mainloop e (Inr (full_packet ws)) tnow ws) (\<lambda>(_, ws). send_full e tnow n ws)"

lemma send_full_search:
  assumes "search_ok p e ws"
  shows "\<exists>ws'. send_full e tnow n ws = Returns ws' \<and>
    search_of ws' = (probe (unat (MIN_MTU ws)) p ^^ n) (search_of ws) \<and> MIN_MTU ws' = MIN_MTU ws"
  using assms
proof (induction n arbitrary: ws)
  case (Suc n)
  obtain w1 where w1: "tun_mainloop e (Inr (full_packet ws)) tnow ws = Returns (0, w1)"
    "search_of w1 = probe (unat (MIN_MTU ws)) p (search_of ws)" "search_ok p e w1" "MIN_MTU w1 = MIN_MTU ws"
    using tun_full_packet [OF Suc(2)] by blast
  from Suc(1) [OF w1(3)] w1 show ?case by (simp add: funpow_swap1)
qed simp

text \<open>C6. The MTU search ends, and with a good result: on an IPv4 path of any MTU \<open>p\<close> that is not below
  the lowest MTU the server tries, after 37 full-size packets of the tun device the worker has settled on
  an MTU that the path carries. It is exactly the smaller of the MTU it started with and that of the path,
  or the search gave up at the lowest MTU.\<close>

theorem mtu_discovery_converges:
  assumes "plain_udp ws" and "on_path p e ws" and "c_try_mtu ws"
    and "MIN_MTU ws < link_mtu ws" and "unat (link_mtu ws) \<le> 16384" and "unat (MIN_MTU ws) \<le> p" and "37 \<le> n"
  shows "\<exists>ws'. send_full e tnow n (mtu_discovery_init (link_mtu ws) ws) = Returns ws' \<and> unat (link_mtu ws') \<le> p \<and>
    (unat (link_mtu ws') = min (unat (link_mtu ws)) p \<or> \<not> c_try_mtu ws' \<and> link_mtu ws' = MIN_MTU ws)"
proof -
  let ?w = "mtu_discovery_init (link_mtu ws) ws"
  have w: "?w = ws\<lparr>last_good_mtu := link_mtu ws, last_bad_mtu := link_mtu ws\<rparr>"
    using assms(4) by (simp add: mtu_discovery_init_def Let_def)
  have m: "MIN_MTU ?w = MIN_MTU ws" unfolding w by (simp add: MIN_MTU_def)
  have "search_ok p e ?w"
    using assms m unfolding search_ok_def in_range_def m
    by (simp add: w plain_udp_def on_path_def word_less_nat_alt)
  from send_full_search [OF this, of tnow n] obtain ws' where ws': "send_full e tnow n ?w = Returns ws'"
    "search_of ws' = (probe (unat (MIN_MTU ws)) p ^^ n) (search_of ?w)" unfolding m by blast
  let ?s = "(probe (unat (MIN_MTU ws)) p ^^ n) (search_of ?w)"
  have "ms_link ?s = min (unat (link_mtu ws)) p \<or> \<not> ms_on ?s \<and> ms_link ?s = unat (MIN_MTU ws)"
    using search_settles [of "search_of ?w" "unat (link_mtu ws)" "unat (MIN_MTU ws)" p n] assms MIN_MTU_bounds(1) [of ws]
    by (simp add: w search_of_def)
  moreover have "ms_link ?s = unat (link_mtu ws')" "ms_on ?s = c_try_mtu ws'"
    unfolding ws'(2) [symmetric] by (simp_all add: search_of_def)
  ultimately show ?thesis using ws'(1) assms(6) by (auto simp: word_unat_eq_iff)
qed

definition demo_plain :: worker where
  "demo_plain = demo_worker\<lparr>w_dtls_comp := None, w_cstp_comp := None\<rparr>"

definition demo_path :: worker_env where
  "demo_path = demo_wenv\<lparr>we_dtls_send := (\<lambda>dat. if 1400 < length dat + 37 + 28 then - 7 else int (length dat))\<rparr>"

theorem mtu_discovery_converges_witness:
  "\<exists>ws'. send_full demo_path \<lparr>tv_sec = 101, tv_nsec = 0\<rparr> 37 (mtu_discovery_init (link_mtu demo_plain) demo_plain) = Returns ws' \<and>
     unat (link_mtu ws') \<le> 1400 \<and>
     (unat (link_mtu ws') = min (unat (link_mtu demo_plain)) 1400 \<or> \<not> c_try_mtu ws' \<and> link_mtu ws' = MIN_MTU demo_plain)"
  by (rule mtu_discovery_converges)
    (simp_all add: plain_udp_def on_path_def demo_plain_def demo_path_def demo_worker_def demo_wenv_def bandwidth_init_def
      MIN_MTU_def)

end
