(* ===== verification/WorkerSafe.thy ===== *)
theory WorkerSafe
  imports WorkerMtu
begin

text \<open>
  The worker's main loop as a whole: no round overruns the buffers when the headers fit into the MTU,
  what happens when they do not, and the disconnection of silent and idle clients.
\<close>

section \<open>Invariants of the main loop\<close>

text \<open>A property of the worker's MTUs, of the state of its UDP channel and of the request to terminate.\<close>

definition same_mtu :: "worker \<Rightarrow> worker \<Rightarrow> bool" where
  "same_mtu ws ws' \<longleftrightarrow> link_mtu ws' = link_mtu ws \<and> adv_link_mtu ws' = adv_link_mtu ws \<and>
     last_good_mtu ws' = last_good_mtu ws \<and> last_bad_mtu ws' = last_bad_mtu ws \<and>
     dtls_crypto_overhead ws' = dtls_crypto_overhead ws \<and> dtls_proto_overhead ws' = dtls_proto_overhead ws \<and>
     w_dtls_session ws' = w_dtls_session ws \<and> w_udp_state ws' = w_udp_state ws \<and> w_terminate ws' = w_terminate ws"

definition wpost :: "'a wres \<Rightarrow> ('a \<Rightarrow> bool) \<Rightarrow> bool" where
  "wpost m Q \<longleftrightarrow> (case m of Returns x \<Rightarrow> Q x | Exits _ _ \<Rightarrow> True | Overrun \<Rightarrow> False)"

lemma wpost_simps [simp]: "wpost (Returns x) Q = Q x" "wpost (Exits r ws) Q" "\<not> wpost Overrun Q"
  "wpost (exit_worker_reason e r ws) Q"
  by (simp_all add: wpost_def exit_worker_reason_def Let_def)

lemma wpost_bind: "wpost m P \<Longrightarrow> (\<And>x. P x \<Longrightarrow> wpost (f x) Q) \<Longrightarrow> wpost (bind_w m f) Q"
  by (cases m) simp_all

lemma wpost_bind_exit [simp]: "wpost (bind_w (exit_worker_reason e r ws) f) Q"
  by (simp add: exit_worker_reason_def Let_def)

text \<open>What such a property has to satisfy so that every handler of the main loop, and the loop itself, keeps
  it without overrunning the buffers, when what the kernel and GnuTLS report satisfies \<open>E\<close>.\<close>

locale worker_keeps =
  fixes I :: "worker \<Rightarrow> bool" and E :: "worker_env \<Rightarrow> bool"
  assumes same: "same_mtu ws ws' \<Longrightarrow> I ws \<Longrightarrow> I ws'"
    and terminate: "I ws \<Longrightarrow> I (ws\<lparr>w_terminate := True\<rparr>)"
    and room: "I ws \<Longrightarrow> unat (DATA_MTU ws (link_mtu ws)) + 8 \<le> BUFFER_SIZE"
    and session: "I ws \<Longrightarrow> 3 \<le> udp_rank (w_udp_state ws) \<Longrightarrow> w_dtls_session ws"
    and udp: "I ws \<Longrightarrow> (3 \<le> udp_rank u \<Longrightarrow> w_dtls_session ws) \<Longrightarrow> I (ws\<lparr>w_udp_state := u\<rparr>)"
    and not_ok: "I ws \<Longrightarrow> I (mtu_not_ok e ws)"
    and ok: "I ws \<Longrightarrow> w_dtls_session ws \<Longrightarrow> I (mtu_ok ws)"
    and data_mtu: "I ws \<Longrightarrow> E e \<Longrightarrow> I (data_mtu_set e m ws)"
    and pmtu: "I ws \<Longrightarrow> E e \<Longrightarrow> I (check_pmtu e ws)"
    and dtls_setup: "I ws \<Longrightarrow> w_udp_state ws = UP_SETUP \<Longrightarrow> dtls_mainloop e rcv tnow ws = Returns (r, ws') \<Longrightarrow> I ws'"
begin

lemma same_iff: "same_mtu ws ws' \<Longrightarrow> I ws' = I ws"
  using same [of ws ws'] same [of ws' ws] by (auto simp: same_mtu_def)

lemma keep_frame [simp]:
  "I (wemit y ws) = I ws" "I (ws\<lparr>last_nc_msg := t\<rparr>) = I ws"
  "I (ws\<lparr>tun_bytes_in := x\<rparr>) = I ws" "I (ws\<lparr>tun_bytes_out := x\<rparr>) = I ws"
  "I (ws\<lparr>b_tx := bw\<rparr>) = I ws" "I (ws\<lparr>b_rx := bw\<rparr>) = I ws"
  "I (ws\<lparr>w_decomp := d\<rparr>) = I ws" "I (ws\<lparr>last_msg_tcp := t\<rparr>) = I ws"
  "I (ws\<lparr>last_msg_udp := t\<rparr>) = I ws" "I (ws\<lparr>last_stats_msg := t\<rparr>) = I ws"
  "I (ws\<lparr>last_tls_rehandshake := t\<rparr>) = I ws" "I (ws\<lparr>last_dtls_rehandshake := t\<rparr>) = I ws"
  "I (ws\<lparr>w_udp_recv_time := t\<rparr>) = I ws" "I (ws\<lparr>last_periodic_check := t\<rparr>) = I ws"
  "I (ws\<lparr>w_terminate_reason := r\<rparr>) = I ws" "I (ws\<lparr>w_dtls_msg := msg\<rparr>) = I ws"
  "I (ws\<lparr>w_dtls_fd := fd\<rparr>) = I ws"
  by (rule same_iff; simp add: same_mtu_def wemit_def)+

lemma keep_stats [simp]: "I (send_stats_to_secmod e nw r ws) = I ws"
  by (simp add: send_stats_to_secmod_def Let_def)

lemma keep_FATAL [simp]:
  "I ws \<Longrightarrow> wpost (DTLS_FATAL_ERR_CMD e x ws) I"
  "I ws \<Longrightarrow> wpost (CSTP_FATAL_ERR_CMD e x ws) I"
  by (simp_all add: DTLS_FATAL_ERR_CMD_def CSTP_FATAL_ERR_CMD_def)

lemma keep_inactive: "I ws \<Longrightarrow> w_udp_state ws = UP_ACTIVE \<Longrightarrow> I (ws\<lparr>w_udp_state := UP_INACTIVE\<rparr>)"
  by (rule udp) (auto dest: session)

abbreviation I2 :: "'a \<times> worker \<Rightarrow> bool" where
  "I2 \<equiv> \<lambda>(_, ws). I ws"

lemma tun_deliver_keep: "I ws \<Longrightarrow> I2 (tun_deliver e plain nw ws)"
  by (simp add: tun_deliver_def Let_def)

lemma dpd_reply_keep:
  assumes "I ws" and "E e"
  shows "I2 (dpd_reply_dtls e buf ws)" "I2 (dpd_reply_cstp e buf ws)"
  using assms by (simp_all add: dpd_reply_dtls_def dpd_reply_cstp_def Let_def not_ok data_mtu)

lemma parse_data_keep:
  assumes "I ws" and "E e"
  shows "wpost (parse_data e buf nw d ws) I2"
  using assms dpd_reply_keep [OF assms, of buf]
  by (auto simp: parse_data_def Let_def tun_deliver_keep split: option.splits)

lemma parse_cstp_keep:
  assumes "I ws" and "E e"
  shows "wpost (parse_cstp_data e buf nw ws) I2"
proof -
  define w where "w = (if buf ! 6 = AC_PKT_DATA \<and> w_udp_state ws = UP_ACTIVE then ws\<lparr>w_udp_state := UP_INACTIVE\<rparr> else ws)"
  have w: "I w" using assms(1) by (auto simp: w_def keep_inactive)
  have "wpost (bind_w (parse_data e buf nw False w) (\<lambda>(ret, ws). Returns (ret, ws\<lparr>last_msg_tcp := nw\<rparr>))) I2"
    by (rule wpost_bind [OF parse_data_keep [OF w assms(2)]]) auto
  then show ?thesis using assms(1) by (simp add: parse_cstp_data_def Let_def flip: w_def)
qed

lemma parse_dtls_keep:
  assumes "I ws" and "E e"
  shows "wpost (parse_dtls_data e buf nw ws) I2"
proof -
  have "wpost (bind_w (parse_data e buf nw True ws) (\<lambda>(ret, ws). Returns (ret, ws\<lparr>last_msg_udp := nw\<rparr>))) I2"
    by (rule wpost_bind [OF parse_data_keep [OF assms]]) auto
  then show ?thesis using assms(1) by (simp add: parse_dtls_data_def)
qed

lemma decomp_only_keep: "decomp_only ws ws' \<Longrightarrow> I ws \<Longrightarrow> I ws'"
  unfolding decomp_only_def by (metis keep_frame(7))

lemma send_dtls_keep:
  assumes "I ws" and "w_udp_state ws = UP_ACTIVE"
  shows "wpost (send_dtls_payload e pl ws) I2"
proof -
  let ?w = "wemit (Dtls_Send (fst pl # snd pl)) (ws\<lparr>tun_bytes_out := tun_bytes_out ws + of_nat (length (snd pl))\<rparr>)"
  have w: "I ?w" using assms(1) by simp
  have "w_dtls_session ?w" using session [OF assms(1)] assms(2) by (simp add: wemit_def)
  then have "I (mtu_ok ?w)" using w by (intro ok)
  then show ?thesis using w not_ok [OF w]
    by (auto simp: send_dtls_payload_def Let_def DTLS_FATAL_ERR_CMD_def)
qed

lemma send_cstp_keep: "I ws \<Longrightarrow> wpost (send_cstp_payload e pl ws) I"
  by (simp add: send_cstp_payload_def Let_def)

lemma transmit_keep:
  assumes "I ws"
  shows "wpost (bind_w (if w_udp_state ws = UP_ACTIVE then send_dtls_payload e d ws else Returns (False, ws)) (\<lambda>(retry, ws).
       bind_w (if w_udp_state ws \<noteq> UP_ACTIVE \<or> retry then send_cstp_payload e k ws else Returns ws) (\<lambda>ws.
       Returns (0, ws\<lparr>last_nc_msg := t\<rparr>)))) I2"
proof (rule wpost_bind [of _ I2], goal_cases)
  case 1
  show ?case using send_dtls_keep [OF assms] assms by simp
next
  case (2 x)
  then show ?case
  proof (cases x)
    case (Pair retry w)
    with 2 have "wpost (if w_udp_state w \<noteq> UP_ACTIVE \<or> retry then send_cstp_payload e k w else Returns w) I"
      by (simp add: send_cstp_keep)
    then show ?thesis unfolding Pair prod.case by (rule wpost_bind) simp
  qed
qed

lemma tun_mainloop_keep:
  assumes "I ws"
  shows "wpost (tun_mainloop e rd tnow ws) I2"
proof (cases rd)
  case (Inl again)
  then show ?thesis using assms by (simp add: tun_mainloop_def)
next
  case (Inr queued)
  define pkt where "pkt = take (unat (DATA_MTU ws (link_mtu ws))) queued"
  define w1 where "w1 = (if c_switch_to_tcp_timeout ws \<noteq> 0 \<and> w_udp_state ws = UP_ACTIVE \<and>
      w_udp_recv_time ws + uint (c_switch_to_tcp_timeout ws) < tv_sec tnow
    then ws\<lparr>w_udp_state := UP_INACTIVE\<rparr> else ws)"
  obtain d k w2 where ch: "choose_payload e pkt w1 = (d, k, w2)" by (metis prod_cases3)
  obtain go bw where bw: "bandwidth_update (b_tx w2) (of_nat (length (snd d))) tnow = (go, bw)" by force
  have "length pkt \<le> unat (DATA_MTU ws (link_mtu ws))" by (simp add: pkt_def)
  then have room: "8 + length pkt \<le> BUFFER_SIZE" using room [OF assms] by simp
  have "I w1" using assms by (auto simp: w1_def keep_inactive)
  with choose_payload_ok(3) [OF ch] have "I w2" by (rule decomp_only_keep)
  then have w3: "I (w2\<lparr>b_tx := bw\<rparr>)" by simp
  show ?thesis
    using transmit_keep [OF w3, of e d k "tv_sec tnow"] assms w3 room
    unfolding Inr tun_mainloop_def sum.case pkt_def [symmetric] Let_def w1_def [symmetric] ch bw prod.case
    by auto
qed

lemma tls_data_keep:
  assumes "I ws" and "E e"
  shows "wpost (bind_w (parse_cstp_data e dat (tv_sec tnow) ws) (\<lambda>(ret, ws).
       if ret < 0 then Returns (ret, ws)
       else if (ret = 0 \<or> ret = 8) \<and> w_udp_state ws = UP_ACTIVE \<and> 15 < tv_sec tnow - w_udp_recv_time ws
       then Returns (0, ws\<lparr>w_udp_state := UP_INACTIVE\<rparr>)
       else Returns (0, ws))) I2"
  by (rule wpost_bind [OF parse_cstp_keep [OF assms]]) (auto simp: keep_inactive)

lemma rehandshake_keep:
  assumes "I ws" and "\<And>w. I w \<Longrightarrow> I (f w)"
  shows "wpost (if b then Returns (- 1 :: int, ws)
      else bind_w (DTLS_FATAL_ERR_CMD e x ws) (\<lambda>ws. Returns (0 :: int, f ws))) I2"
proof -
  have "wpost (bind_w (DTLS_FATAL_ERR_CMD e x ws) (\<lambda>ws. Returns (0 :: int, f ws))) I2"
    by (rule wpost_bind [OF keep_FATAL(1) [OF assms(1)]]) (simp add: assms(2))
  then show ?thesis using assms(1) by simp
qed

lemma tls_mainloop_keep:
  assumes "I ws" and "E e"
  shows "wpost (tls_mainloop e rcv tnow ws) I2"
proof (cases "(case rcv of Inl r \<Rightarrow> r | Inr dat \<Rightarrow> int (length dat)) = GNUTLS_E_PREMATURE_TERMINATION")
  case True
  then show ?thesis using assms(1) by (simp add: tls_mainloop_def Let_def)
next
  case False
  show ?thesis
    unfolding tls_mainloop_def Let_def if_not_P [OF False]
  proof (rule wpost_bind [OF keep_FATAL(2) [OF assms(1)]], goal_cases)
    case (1 w)
    then have bw: "I (w\<lparr>b_rx := bw\<rparr>)" for bw by simp
    show ?case
      using 1 tls_data_keep [OF bw assms(2)] rehandshake_keep [OF 1, of "\<lambda>w. w\<lparr>last_tls_rehandshake := tv_sec tnow\<rparr>"]
      by (auto split: sum.split prod.split)
  qed
qed

lemma dtls_data_keep:
  assumes "I ws" and "E e"
  shows "wpost (bind_w (parse_dtls_data e dat t ws) (\<lambda>(ret, ws).
       if ret < 0 then Returns (ret, ws) else Returns (0, ws\<lparr>w_udp_recv_time := t\<rparr>))) I2"
  by (rule wpost_bind [OF parse_dtls_keep [OF assms]]) auto

lemma dtls_receive_keep:
  assumes "I ws" and "E e" and "3 \<le> udp_rank (w_udp_state ws)"
  shows "wpost (dtls_receive e rcv tnow ws) I2"
proof -
  have *: "wpost (DTLS_FATAL_ERR_CMD e x ws) (\<lambda>w. I w \<and> w_dtls_session w)" for x
    using assms(1) session [OF assms(1,3)] by (simp add: DTLS_FATAL_ERR_CMD_def)
  show ?thesis
    unfolding dtls_receive_def Let_def
  proof (rule wpost_bind [OF *], goal_cases)
    case (1 w)
    then have w: "I w" "I (w\<lparr>w_udp_state := UP_ACTIVE\<rparr>)" by (auto intro: udp)
    then have bw: "I (w\<lparr>w_udp_state := UP_ACTIVE, b_rx := bw\<rparr>)" for bw by simp
    show ?case
      using w dtls_data_keep [OF bw assms(2), of _ "tv_sec tnow"]
        rehandshake_keep [OF w(1), of "\<lambda>w. w\<lparr>last_dtls_rehandshake := tv_sec tnow, w_udp_recv_time := tv_sec tnow\<rparr>"]
      by (auto split: sum.split prod.split)
  qed
qed

lemma session_info_keep [simp]: "I (session_info_send e ws) = I ws"
  by (simp add: session_info_send_def Let_def)

lemma mtu_only_session: "mtu_only ws ws' \<Longrightarrow> w_dtls_session ws' = w_dtls_session ws"
  by (rule mtu_only_fields(8))

lemma dtls_handshake_keep:
  "I ws \<Longrightarrow> w_dtls_session ws \<Longrightarrow> I (dtls_handshake e rs ws)"
  by (induction e rs ws rule: dtls_handshake.induct)
    (auto intro: udp simp: not_ok mtu_only_session [OF mtu_not_ok_only])

lemma dtls_mainloop_keep:
  assumes "I ws" and "E e"
  shows "wpost (dtls_mainloop e rcv tnow ws) I2"
proof (cases "w_udp_state ws")
  case UP_SETUP
  then show ?thesis using dtls_setup [OF assms(1), of e rcv tnow] assms(1)
    by (auto simp: dtls_mainloop_def setup_dtls_connection_def Let_def split: if_splits)
qed (use assms dtls_receive_keep [OF assms] dtls_handshake_keep [OF assms(1)] session [OF assms(1)] in
     \<open>auto simp: dtls_mainloop_def\<close>)

lemma check_udp_dpd_keep:
  assumes "I ws"
  shows "wpost (check_udp_dpd e nw dpd ws) I"
proof (cases "w_udp_state ws = UP_ACTIVE \<and> uint (2 * dpd) < nw - last_msg_udp ws \<and> 0 < dpd")
  case True
  have room: "\<not> BUFFER_SIZE < 1 + unat (DATA_MTU ws (link_mtu ws))" using room [OF assms] by simp
  have *: "wpost (DTLS_FATAL_ERR_CMD e x (wemit y ws)) (\<lambda>w. I w \<and> w_udp_state w = UP_ACTIVE)" for x y
    using assms True by (simp add: DTLS_FATAL_ERR_CMD_def) (simp add: wemit_def)
  show ?thesis
    unfolding check_udp_dpd_def if_P [OF True] Let_def if_not_P [OF room]
    by (rule wpost_bind [OF *]) (simp add: keep_inactive)
next
  case False
  then show ?thesis using assms by (auto simp: check_udp_dpd_def)
qed

lemma check_tcp_dpd_keep:
  assumes "I ws"
  shows "wpost (check_tcp_dpd e nw dpd ws) I"
proof -
  have "I (wemit x ws)" for x using assms by simp
  then have "wpost (bind_w (CSTP_FATAL_ERR_CMD e r (wemit x ws)) (\<lambda>ws.
      if uint (3 * dpd) < nw - last_msg_tcp ws then exit_worker_reason e REASON_DPD_TIMEOUT ws else Returns ws)) I"
    for r x by (intro wpost_bind [OF keep_FATAL(2)]) auto
  then show ?thesis using assms by (simp add: check_tcp_dpd_def Let_def)
qed

lemma periodic_check_keep:
  assumes "I ws" and "E e"
  shows "wpost (periodic_check e tnow dpd ws) I"
proof -
  define w where "w = (if 0 < u_interim_update_secs ws \<and>
      uint (u_interim_update_secs ws) \<le> tv_sec tnow - last_stats_msg ws \<and> w_sid_set ws
    then send_stats_to_secmod e (tv_sec tnow) 0 ws else ws)"
  have "I w" using assms(1) by (simp add: w_def)
  then have "wpost (bind_w (check_udp_dpd e (tv_sec tnow) dpd w) (\<lambda>ws.
               bind_w (check_tcp_dpd e (tv_sec tnow) dpd ws) (\<lambda>ws.
               Returns ((check_pmtu e ws)\<lparr>last_periodic_check := tv_sec tnow\<rparr>)))) I"
    by (intro wpost_bind [OF check_udp_dpd_keep] wpost_bind [OF check_tcp_dpd_keep])
      (auto simp: assms(2) intro: pmtu)
  then show ?thesis using assms(1) by (simp add: periodic_check_def Let_def terminate flip: w_def)
qed

lemma adopt_udp_fd_keep [simp]: "I (adopt_udp_fd e msg fd ws) = I ws"
  by (simp add: adopt_udp_fd_def Let_def)

lemma handle_commands_keep:
  assumes "I ws"
  shows "wpost (handle_commands_from_main e cmd ws) I2"
proof -
  have "I (ws\<lparr>w_udp_state := UP_SETUP\<rparr>)" "I (ws\<lparr>w_udp_state := UP_DISABLED\<rparr>)"
    using assms by (auto intro: udp)
  then show ?thesis using assms
    by (auto simp: handle_commands_from_main_def Let_def split: main_cmd.split option.split prod.split)
qed

lemma or_leave_keep: "wpost m I2 \<Longrightarrow> wpost (or_leave e m) I"
  unfolding or_leave_def by (erule wpost_bind) (auto simp: leave_tunnel_def)

lemma worker_inputs_keep:
  assumes "I ws" and "E e"
  shows "wpost (worker_inputs e p tnow ws) I"
proof -
  have tun: "wpost (case p_tun p of None \<Rightarrow> Returns w | Some rd \<Rightarrow> or_leave e (tun_mainloop e rd tnow w)) I"
    if "I w" for w
    using that by (auto intro: or_leave_keep tun_mainloop_keep split: option.split)
  have tls: "wpost (case p_tls p of None \<Rightarrow> Returns w | Some rcv \<Rightarrow> or_leave e (tls_mainloop e rcv tnow w)) I"
    if "I w" for w
    using that assms(2) by (auto intro: or_leave_keep tls_mainloop_keep split: option.split)
  have dtls: "wpost (case p_dtls p of None \<Rightarrow> Returns w | Some rcv \<Rightarrow>
      if 1 < udp_rank (w_udp_state w) then or_leave e (dtls_mainloop e rcv tnow w) else Returns w) I"
    if "I w" for w
    using that assms(2) by (auto intro: or_leave_keep dtls_mainloop_keep split: option.split)
  have cmd: "wpost (case p_cmd p of None \<Rightarrow> Returns w | Some cmd \<Rightarrow>
      bind_w (handle_commands_from_main e cmd w) (\<lambda>(ret, ws).
        if ret = ERR_NO_CMD_FD then say_goodbye e (ws\<lparr>w_terminate_reason := REASON_ERROR\<rparr>)
        else if ret < 0 then leave_tunnel e REASON_ERROR ws else Returns ws)) I"
    if "I w" for w
    using that by (auto simp: say_goodbye_def leave_tunnel_def split: option.split
        intro!: wpost_bind [OF handle_commands_keep])
  show ?thesis
    unfolding worker_inputs_def
    by (rule wpost_bind [OF tun [OF assms(1)] wpost_bind [OF tls wpost_bind [OF dtls cmd]]])
qed

lemma worker_round_keep:
  assumes "I ws" and "E e"
  shows "wpost (worker_round e p tnow ws) I"
  using periodic_check_keep [OF assms] assms(2)
  by (auto simp: worker_round_def say_goodbye_def leave_tunnel_def intro!: wpost_bind worker_inputs_keep)

lemma worker_rounds_keep:
  assumes "I ws" and "list_all (\<lambda>(e, _). E e) rs"
  shows "wpost (worker_rounds rs ws) I"
  using assms
proof (induction rs ws rule: worker_rounds.induct)
  case (2 e p tnow rs ws)
  then have "wpost (worker_round e p tnow ws) I" by (intro worker_round_keep) simp_all
  then show ?case unfolding worker_rounds.simps by (rule wpost_bind) (use 2 in simp)
qed simp

end

section \<open>The buffers are never overrun\<close>

text \<open>Overheads \<open>c\<close> and \<open>h\<close>, of the DTLS record and of the IP and UDP headers, that fit into every MTU the
  worker may use, and MTUs that fit into \<^verbatim>\<open>ws->buffer\<close>.\<close>

definition mtu_fits :: "nat \<Rightarrow> nat \<Rightarrow> u32 \<Rightarrow> bool" where
  "mtu_fits c h m \<longleftrightarrow> c + h \<le> unat m \<and> unat m \<le> BUFFER_SIZE"

definition wfits :: "nat \<Rightarrow> nat \<Rightarrow> worker \<Rightarrow> bool" where
  "wfits c h ws \<longleftrightarrow> unat (dtls_crypto_overhead ws) = c \<and> unat (dtls_proto_overhead ws) = h \<and> 8 \<le> h \<and> c + h \<le> 700 \<and>
     mtu_fits c h (link_mtu ws) \<and> mtu_fits c h (adv_link_mtu ws) \<and>
     (w_dtls_session ws \<longrightarrow> mtu_fits c h (last_good_mtu ws) \<and> mtu_fits c h (last_bad_mtu ws)) \<and>
     (3 \<le> udp_rank (w_udp_state ws) \<longrightarrow> w_dtls_session ws)"

text \<open>What the kernel and GnuTLS report is large enough for the headers.\<close>

definition env_fits :: "nat \<Rightarrow> nat \<Rightarrow> worker_env \<Rightarrow> bool" where
  "env_fits c h e \<longleftrightarrow> (0 < we_pmtu e \<longrightarrow> int (c + h) \<le> we_pmtu e \<and> we_pmtu e < 2 ^ 31) \<and>
     (\<forall>m. c \<le> unat (we_dtls_mtu e m) \<and> unat (we_dtls_mtu e m) < 2 ^ 31)"

lemma wfits_frame [simp]:
  "wfits c h (wemit y ws) = wfits c h ws" "wfits c h (ws\<lparr>last_nc_msg := t\<rparr>) = wfits c h ws"
  "wfits c h (ws\<lparr>tun_bytes_in := x\<rparr>) = wfits c h ws" "wfits c h (ws\<lparr>tun_bytes_out := x\<rparr>) = wfits c h ws"
  "wfits c h (ws\<lparr>b_tx := bw\<rparr>) = wfits c h ws" "wfits c h (ws\<lparr>b_rx := bw\<rparr>) = wfits c h ws"
  "wfits c h (ws\<lparr>w_decomp := d\<rparr>) = wfits c h ws" "wfits c h (ws\<lparr>last_msg_tcp := t\<rparr>) = wfits c h ws"
  "wfits c h (ws\<lparr>last_msg_udp := t\<rparr>) = wfits c h ws" "wfits c h (ws\<lparr>last_stats_msg := t\<rparr>) = wfits c h ws"
  "wfits c h (ws\<lparr>last_tls_rehandshake := t\<rparr>) = wfits c h ws" "wfits c h (ws\<lparr>last_dtls_rehandshake := t\<rparr>) = wfits c h ws"
  "wfits c h (ws\<lparr>w_udp_recv_time := t\<rparr>) = wfits c h ws" "wfits c h (ws\<lparr>last_periodic_check := t\<rparr>) = wfits c h ws"
  "wfits c h (ws\<lparr>w_terminate := b\<rparr>) = wfits c h ws" "wfits c h (ws\<lparr>w_terminate_reason := r\<rparr>) = wfits c h ws"
  "wfits c h (ws\<lparr>w_dtls_msg := msg\<rparr>) = wfits c h ws" "wfits c h (ws\<lparr>w_dtls_fd := fd\<rparr>) = wfits c h ws"
  "wfits c h (ws\<lparr>c_try_mtu := b\<rparr>) = wfits c h ws"
  by (simp_all add: wfits_def wemit_def)

lemma wfits_link:
  assumes "wfits c h ws" and "c + h \<le> unat m"
  shows "wfits c h (link_mtu_set m ws)"
  using assms by (auto simp: link_mtu_set_def data_mtu_send_def Let_def wfits_def mtu_fits_def wemit_def)

lemma wfits_udp:
  assumes "wfits c h ws" and "3 \<le> udp_rank u \<Longrightarrow> w_dtls_session ws"
  shows "wfits c h (ws\<lparr>w_udp_state := u\<rparr>)"
  using assms by (simp add: wfits_def)

lemma wfits_session: "wfits c h ws \<Longrightarrow> 3 \<le> udp_rank (w_udp_state ws) \<Longrightarrow> w_dtls_session ws"
  by (simp add: wfits_def)

lemma wfits_inactive: "wfits c h ws \<Longrightarrow> w_udp_state ws = UP_ACTIVE \<Longrightarrow> wfits c h (ws\<lparr>w_udp_state := UP_INACTIVE\<rparr>)"
  by (rule wfits_udp) (auto dest: wfits_session)

lemma wfits_min: "wfits c h ws \<Longrightarrow> c + h \<le> unat (MIN_MTU ws)"
  using MIN_MTU_bounds(1) [of ws] by (simp add: wfits_def)

lemma wfits_adv: "wfits c h ws \<Longrightarrow> c + h \<le> unat (adv_link_mtu ws)"
  by (simp add: wfits_def mtu_fits_def)

lemma wfits_disable: "wfits c h ws \<Longrightarrow> wfits c h (disable_mtu_disc ws)"
  by (simp add: disable_mtu_disc_def wfits_link wfits_adv)

lemma wfits_data_mtu_set:
  assumes "wfits c h ws" and "env_fits c h e"
  shows "wfits c h (data_mtu_set e m ws)"
proof -
  have "unat (dtls_proto_overhead ws) = h" "h \<le> 700" using assms(1) by (simp_all add: wfits_def)
  moreover have "unat (we_dtls_mtu e (m + 1)) < 2 ^ 31" using assms(2) unfolding env_fits_def by blast
  ultimately have "unat (we_dtls_mtu e (m + 1) + dtls_proto_overhead ws) = unat (we_dtls_mtu e (m + 1)) + h"
    by (subst unat_plus_u32) simp_all
  then have "c + h \<le> unat (we_dtls_mtu e (m + 1) + dtls_proto_overhead ws)" using assms(2) by (simp add: env_fits_def)
  then show ?thesis using assms(1) by (simp add: data_mtu_set_def Let_def wfits_link)
qed

lemma wfits_mtu_not_ok:
  assumes "wfits c h ws"
  shows "wfits c h (mtu_not_ok e ws)"
proof (cases "c_try_mtu ws \<and> w_dtls_session ws")
  case True
  let ?b = "ws\<lparr>last_bad_mtu := link_mtu ws\<rparr>"
  let ?g = "max (2 * link_mtu ws div 3) (MIN_MTU ws)"
  have f: "mtu_fits c h (link_mtu ws)" "mtu_fits c h (last_good_mtu ws)" using assms True by (simp_all add: wfits_def)
  have b: "wfits c h ?b" using assms by (simp add: wfits_def)
  have MIN: "MIN_MTU ?b = MIN_MTU ws" by (simp add: MIN_MTU_def)
  have "unat (2 * link_mtu ws) = 2 * unat (link_mtu ws)"
    using f(1) by (subst unat_mult_lem [THEN iffD1]) (simp_all add: mtu_fits_def BUFFER_SIZE_def)
  then have "unat ?g = max (2 * unat (link_mtu ws) div 3) (unat (MIN_MTU ws))"
    by (simp add: max_def word_le_nat_alt unat_div)
  then have g: "mtu_fits c h ?g"
    using f(1) wfits_min [OF assms] MIN_MTU_bounds(2) [of ws] by (auto simp: mtu_fits_def BUFFER_SIZE_def max_def)
  then have bg: "wfits c h (?b\<lparr>last_good_mtu := ?g\<rparr>)" using b by (simp add: wfits_def)
  have mid: "wfits c h (link_mtu_set (MIN_MTU ws) (disable_mtu_disc w))" if "wfits c h w" for w
    using wfits_disable [OF that] wfits_min [OF assms] by (rule wfits_link)
  show ?thesis
    using True b bg f g mid [OF b] mid [OF assms] MIN wfits_link [OF bg, of ?g] wfits_link [OF b, of "last_good_mtu ws"]
      wfits_link [OF assms] wfits_min [OF assms] assms
    by (auto simp: mtu_not_ok_def Let_def mtu_fits_def word_less_nat_alt wfits_def [of c h ws]
        split: w_proto.split option.split)
next
  case False
  then show ?thesis using assms by (auto simp: mtu_not_ok_def)
qed

lemma wfits_mtu_ok:
  assumes "wfits c h ws" and "w_dtls_session ws"
  shows "wfits c h (mtu_ok ws)"
proof -
  have f: "mtu_fits c h (link_mtu ws)" "mtu_fits c h (last_bad_mtu ws)" using assms by (simp_all add: wfits_def)
  then have "unat (link_mtu ws + last_bad_mtu ws) = unat (link_mtu ws) + unat (last_bad_mtu ws)"
    by (intro unat_plus_u32) (simp add: mtu_fits_def BUFFER_SIZE_def)
  then have "unat ((link_mtu ws + last_bad_mtu ws) div 2) = (unat (link_mtu ws) + unat (last_bad_mtu ws)) div 2"
    by (simp add: unat_div)
  then have "c + h \<le> unat ((link_mtu ws + last_bad_mtu ws) div 2)" using f unfolding mtu_fits_def by arith
  moreover have "wfits c h (ws\<lparr>last_good_mtu := link_mtu ws\<rparr>)" using assms f by (simp add: wfits_def)
  ultimately show ?thesis using assms(1) by (simp add: mtu_ok_def Let_def wfits_link)
qed

lemma wfits_DATA_MTU: "wfits c h ws \<Longrightarrow> unat (DATA_MTU ws (link_mtu ws)) + 8 \<le> BUFFER_SIZE"
  by (subst unat_DATA_MTU) (auto simp: wfits_def mtu_fits_def)

lemma check_pmtu_wfits:
  assumes "wfits c h ws" and "env_fits c h e"
  shows "wfits c h (check_pmtu e ws)"
proof -
  have "c + h \<le> unat (word_of_int (we_pmtu e) :: u32)" if "0 < we_pmtu e"
  proof -
    have b: "int (c + h) \<le> we_pmtu e" "we_pmtu e < 2 ^ 31" using assms(2) that by (simp_all add: env_fits_def)
    have "take_bit 32 (we_pmtu e) = we_pmtu e" by (rule take_bit_int_eq_self) (use b that in simp_all)
    then have "uint (word_of_int (we_pmtu e) :: u32) = we_pmtu e" by (simp add: uint_word_of_int_eq)
    then show ?thesis using b(1) unfolding unat_eq_nat_uint by linarith
  qed
  then show ?thesis using assms(1) by (simp add: check_pmtu_def wfits_link)
qed

lemma setup_wfits:
  assumes "wfits c h ws" and "w_udp_state ws = UP_SETUP" and "dtls_mainloop e rcv tnow ws = Returns (r, ws')"
  shows "wfits c h ws'"
proof -
  let ?w = "link_mtu_set (adv_link_mtu ws) (ws\<lparr>w_udp_state := UP_HANDSHAKE\<rparr>)"
  have adv: "mtu_fits c h (adv_link_mtu ws)" using assms(1) by (simp add: wfits_def)
  have only: "mtu_only (ws\<lparr>w_udp_state := UP_HANDSHAKE\<rparr>) ?w" by simp
  have o': "unat (dtls_crypto_overhead ?w) = c" "unat (dtls_proto_overhead ?w) = h" "adv_link_mtu ?w = adv_link_mtu ws"
    using assms(1) mtu_only_fields [OF only] by (simp_all add: wfits_def)
  have l: "link_mtu ?w = adv_link_mtu ws" using adv by (simp add: link_mtu_set_fields mtu_fits_def)
  have "wfits c h (mtu_discovery_init (link_mtu ?w) (wemit x (?w\<lparr>w_dtls_session := True\<rparr>)))" for x
  proof -
    have f: "wfits c h (?w\<lparr>w_dtls_session := True, last_good_mtu := adv_link_mtu ws, last_bad_mtu := adv_link_mtu ws\<rparr>)"
      using assms(1) adv l o' by (simp add: wfits_def)
    let ?v = "wemit x (?w\<lparr>w_dtls_session := True\<rparr>)"
    have "wfits c h ((if b then disable_mtu_disc ?v else ?v)\<lparr>last_good_mtu := link_mtu ?w, last_bad_mtu := link_mtu ?w\<rparr>)" for b
    proof (cases b)
      case True
      have "mtu_only ?v (disable_mtu_disc ?v)" by simp
      from mtu_only_fields [OF this] have "unat (dtls_crypto_overhead (disable_mtu_disc ?v)) = c"
        "unat (dtls_proto_overhead (disable_mtu_disc ?v)) = h" "adv_link_mtu (disable_mtu_disc ?v) = adv_link_mtu ws"
        "w_dtls_session (disable_mtu_disc ?v)"
        using o' by (simp_all add: wemit_def)
      moreover have "link_mtu (disable_mtu_disc ?v) = adv_link_mtu ws"
        using adv o'(3) by (simp add: disable_mtu_disc_def link_mtu_set_fields mtu_fits_def wemit_def)
      ultimately show ?thesis using True assms(1) adv l by (simp add: wfits_def)
    next
      case False
      then show ?thesis using f l by (simp add: wfits_def wemit_def)
    qed
    then show ?thesis by (simp add: mtu_discovery_init_def Let_def)
  qed
  then show ?thesis using assms
    by (auto simp: dtls_mainloop_def setup_dtls_connection_def Let_def split: if_splits)
qed

lemma wfits_same: "same_mtu ws ws' \<Longrightarrow> wfits c h ws \<Longrightarrow> wfits c h ws'"
  by (simp add: same_mtu_def wfits_def)

interpretation mtus: worker_keeps "wfits c h" "env_fits c h" for c h
proof (unfold_locales, goal_cases)
  case (1 ws ws')
  then show ?case by (rule wfits_same)
qed (simp_all add: wfits_udp wfits_DATA_MTU wfits_session wfits_mtu_not_ok wfits_mtu_ok wfits_data_mtu_set check_pmtu_wfits
    setup_wfits)

text \<open>Once the worker is asked to terminate, it stays so.\<close>

lemma mtu_only_terminate: "mtu_only ws ws' \<Longrightarrow> w_terminate ws' = w_terminate ws"
  by (auto simp: mtu_only_def)

lemma check_pmtu_only [simp]: "mtu_only ws (check_pmtu e ws)"
  by (simp add: check_pmtu_def)

lemma setup_terminate:
  assumes "w_udp_state ws = UP_SETUP" and "dtls_mainloop e rcv tnow ws = Returns (r, ws')"
  shows "w_terminate ws' = w_terminate ws"
proof -
  have "w_terminate (mtu_discovery_init m w) = w_terminate w" for m w
    using mtu_only_terminate [OF disable_mtu_disc_only, of w] by (simp add: mtu_discovery_init_def Let_def)
  moreover have "w_terminate (wemit x w) = w_terminate w" for x w by (simp add: wemit_def)
  moreover have "w_terminate (link_mtu_set m (ws\<lparr>w_udp_state := u\<rparr>)) = w_terminate ws" for m u
    using mtu_only_terminate [OF link_mtu_set_only, of m "ws\<lparr>w_udp_state := u\<rparr>"] by simp
  ultimately show ?thesis using assms
    by (auto simp: dtls_mainloop_def setup_dtls_connection_def Let_def split: if_splits)
qed

interpretation leaving: worker_keeps "\<lambda>ws. wfits c h ws \<and> w_terminate ws" "env_fits c h" for c h
proof (unfold_locales, goal_cases)
  case (1 ws ws')
  then show ?case by (auto intro: wfits_same simp: same_mtu_def)
next
  case (10 ws e rcv tnow r ws')
  then show ?case using setup_wfits [of c h ws e rcv tnow r ws'] setup_terminate [of ws e rcv tnow r ws'] by simp
qed (auto simp: wfits_udp wfits_DATA_MTU wfits_session wfits_mtu_not_ok wfits_mtu_ok wfits_data_mtu_set check_pmtu_wfits
    mtu_only_terminate [OF mtu_not_ok_only] mtu_only_terminate [OF mtu_ok_only]
    mtu_only_terminate [OF data_mtu_set_only] mtu_only_terminate [OF check_pmtu_only])

text \<open>C5. Memory safety of the tunnel: as long as the headers fit into the MTU agreed on at connection time
  and into what the kernel and GnuTLS report later, no sequence of packets from the client, packets from
  the tun device, commands of the main process, DTLS setups and timer checks makes the worker read or
  write beyond \<^verbatim>\<open>ws->buffer\<close>.\<close>

theorem tunnel_memory_safe:
  assumes "wfits c h ws" and "list_all (\<lambda>(e, _). env_fits c h e) rs"
  shows "worker_rounds rs ws \<noteq> Overrun"
proof -
  have "wpost (worker_rounds rs ws) (wfits c h)" using assms by (rule mtus.worker_rounds_keep)
  then show ?thesis by auto
qed

definition demo_wenv_mtu :: worker_env where
  "demo_wenv_mtu = demo_wenv\<lparr>we_dtls_mtu := (\<lambda>_. 1400)\<rparr>"

definition demo_poll :: poll_in where
  "demo_poll = \<lparr>p_fail = False, p_tun = Some (Inr demo_packet), p_tls = None, p_dtls = Some (Inr [3, 0, 0]), p_cmd = None\<rparr>"

lemma demo_fits: "wfits 38 28 demo_worker" "env_fits 38 28 demo_wenv_mtu"
  by (simp_all add: wfits_def mtu_fits_def env_fits_def demo_worker_def demo_wenv_mtu_def demo_wenv_def BUFFER_SIZE_def)

theorem tunnel_memory_safe_witness:
  "worker_rounds (replicate 3 (demo_wenv_mtu, demo_poll, \<lparr>tv_sec = 500, tv_nsec = 0\<rparr>)) demo_worker \<noteq> Overrun"
  by (rule tunnel_memory_safe [OF demo_fits(1)]) (simp add: demo_fits(2) list_all_iff)

section \<open>Clients that are gone\<close>

definition check_due :: "timespec \<Rightarrow> worker \<Rightarrow> bool" where
  "check_due tnow ws \<longleftrightarrow> check_period tnow \<le> tv_sec tnow - last_periodic_check ws"

text \<open>The three reasons to drop a client: no traffic for the idle timeout, a session beyond its limit, and
  nothing received on the TLS channel for three times the interval of the dead peer detection.\<close>

definition overdue :: "time_t \<Rightarrow> worker \<Rightarrow> bool" where
  "overdue nw ws \<longleftrightarrow>
     0 < c_idle_timeout ws \<and> uint (c_idle_timeout ws) < nw - last_nc_msg ws \<or>
     0 < u_session_timeout_secs ws \<and> uint (u_session_timeout_secs ws) < nw - w_start ws \<or>
     0 < u_dpd ws \<and> unat (u_dpd ws) < 2 ^ 30 \<and> 3 * uint (u_dpd ws) < nw - last_msg_tcp ws"

lemma check_udp_dpd_tcp:
  assumes "check_udp_dpd e nw dpd ws = Returns w"
  shows "last_msg_tcp w = last_msg_tcp ws"
  using assms by (auto simp: check_udp_dpd_def Let_def bind_w_Returns wemit_def split: if_splits)

lemma uint_times:
  assumes "unat (x :: u32) < 2 ^ 30" and "k \<le> 3"
  shows "uint (of_nat k * x) = int k * uint x"
proof -
  have "unat (of_nat k * x) = k * unat x"
    using assms by (subst unat_mult_lem [THEN iffD1]) (auto simp: unat_of_nat intro: le_less_trans [OF mult_le_mono])
  then show ?thesis by (metis of_nat_mult uint_nat)
qed

lemma check_tcp_dpd_exits:
  assumes "0 < dpd" and "unat dpd < 2 ^ 30" and "3 * uint dpd < nw - last_msg_tcp ws"
  shows "\<exists>r w. check_tcp_dpd e nw dpd ws = Exits r w"
proof -
  have u: "uint (2 * dpd) = 2 * uint dpd" "uint (3 * dpd) = 3 * uint dpd"
    using uint_times [OF assms(2), of 2] uint_times [OF assms(2), of 3] by simp_all
  have "uint (2 * dpd) < nw - last_msg_tcp ws" using u(1) assms(3) uint_ge_0 [of dpd] by linarith
  then show ?thesis using assms u(2)
    by (auto simp: check_tcp_dpd_def Let_def CSTP_FATAL_ERR_CMD_def exit_worker_reason_def wemit_def)
qed

lemma overdue_check:
  assumes "wfits c h ws" and "check_due tnow ws" and "overdue (tv_sec tnow) ws"
  shows "(\<exists>r w. periodic_check e tnow (u_dpd ws) ws = Exits r w) \<or>
    (\<exists>w. periodic_check e tnow (u_dpd ws) ws = Returns w \<and> wfits c h w \<and> w_terminate w)"
proof (cases "0 < c_idle_timeout ws \<and> uint (c_idle_timeout ws) < tv_sec tnow - last_nc_msg ws \<or>
    0 < u_session_timeout_secs ws \<and> uint (u_session_timeout_secs ws) < tv_sec tnow - w_start ws")
  case True
  then show ?thesis using assms(1,2) by (auto simp: periodic_check_def check_due_def Let_def)
next
  case False
  define w where "w = (if 0 < u_interim_update_secs ws \<and>
      uint (u_interim_update_secs ws) \<le> tv_sec tnow - last_stats_msg ws \<and> w_sid_set ws
    then send_stats_to_secmod e (tv_sec tnow) 0 ws else ws)"
  have w: "wfits c h w" using assms(1) by (simp add: w_def)
  have tcp: "last_msg_tcp w = last_msg_tcp ws" by (simp add: w_def send_stats_to_secmod_def wemit_def Let_def)
  have silent: "0 < u_dpd ws" "unat (u_dpd ws) < 2 ^ 30" "3 * uint (u_dpd ws) < tv_sec tnow - last_msg_tcp ws"
    using False assms(3) by (auto simp: overdue_def)
  have "wpost (check_udp_dpd e (tv_sec tnow) (u_dpd ws) w) (wfits c h)" using w by (rule mtus.check_udp_dpd_keep)
  then have "\<exists>r x. bind_w (check_udp_dpd e (tv_sec tnow) (u_dpd ws) w) (\<lambda>ws'.
      bind_w (check_tcp_dpd e (tv_sec tnow) (u_dpd ws) ws') (\<lambda>ws.
      Returns ((check_pmtu e ws)\<lparr>last_periodic_check := tv_sec tnow\<rparr>))) = Exits r x"
  proof (cases "check_udp_dpd e (tv_sec tnow) (u_dpd ws) w")
    case (Returns v)
    then have "3 * uint (u_dpd ws) < tv_sec tnow - last_msg_tcp v" using check_udp_dpd_tcp [OF Returns] tcp silent(3) by simp
    from check_tcp_dpd_exits [OF silent(1,2) this, of e] Returns show ?thesis by auto
  qed (auto simp: wpost_def)
  then show ?thesis using False assms(1,2)
    by (simp add: periodic_check_def check_due_def Let_def flip: w_def)
qed

text \<open>C21. A client that is gone is dropped: when the periodic check is due and the client has been idle
  longer than the idle timeout, or connected longer than its session may last, or silent on the TLS
  channel for more than three intervals of the dead peer detection, the worker has left after this and
  the next round of its loop, whatever else happens in them.\<close>

theorem overdue_client_dropped:
  assumes "wfits c h ws" and "env_fits c h e" and "check_due tnow ws" and "overdue (tv_sec tnow) ws"
  shows "\<exists>r w. worker_rounds [(e, p, tnow), (e', p', tnow')] ws = Exits r w"
proof -
  have leave: "\<exists>r w. say_goodbye e ws = Exits r w" "\<exists>r w. leave_tunnel e k ws = Exits r w" for e k ws
    by (simp_all add: say_goodbye_def leave_tunnel_def exit_worker_reason_def Let_def)
  have "(\<exists>r w. worker_round e p tnow ws = Exits r w) \<or> (\<exists>w. worker_round e p tnow ws = Returns w \<and> w_terminate w)"
  proof (cases "w_terminate ws \<or> p_fail p")
    case True
    then show ?thesis using leave by (auto simp: worker_round_def)
  next
    case False
    from overdue_check [OF assms(1,3,4), of e] show ?thesis
    proof
      assume "\<exists>w. periodic_check e tnow (u_dpd ws) ws = Returns w \<and> wfits c h w \<and> w_terminate w"
      then obtain w where w: "periodic_check e tnow (u_dpd ws) ws = Returns w" "wfits c h w \<and> w_terminate w" by blast
      from leaving.worker_inputs_keep [OF w(2) assms(2), of p tnow] False w(1) show ?thesis
        by (auto simp: worker_round_def wpost_def split: wres.splits)
    qed (use False in \<open>auto simp: worker_round_def\<close>)
  qed
  then show ?thesis by (auto simp: worker_round_def [of e']) (metis leave(1) bind_w_simps(2))
qed

theorem overdue_client_dropped_witness:
  "\<exists>r w. worker_rounds [(demo_wenv_mtu, demo_poll, \<lparr>tv_sec = 500, tv_nsec = 0\<rparr>),
     (demo_wenv, demo_poll, \<lparr>tv_sec = 501, tv_nsec = 0\<rparr>)] demo_worker = Exits r w"
  by (rule overdue_client_dropped [OF demo_fits])
    (simp_all add: check_due_def check_period_def overdue_def demo_worker_def)

section \<open>Where the code does not do what it says\<close>

lemma DATA_MTU_wraps:
  assumes "unat m < unat (dtls_crypto_overhead ws) + unat (dtls_proto_overhead ws)"
    and "unat (dtls_crypto_overhead ws) + unat (dtls_proto_overhead ws) \<le> 1000"
  shows "BUFFER_SIZE < unat (DATA_MTU ws m)"
proof -
  let ?o = "dtls_crypto_overhead ws + dtls_proto_overhead ws"
  have o': "unat ?o = unat (dtls_crypto_overhead ws) + unat (dtls_proto_overhead ws)"
    using assms(2) by (intro unat_plus_u32) simp
  have "DATA_MTU ws m = m - ?o" by (simp add: DATA_MTU_def)
  also have "unat (m - ?o) = unat m + 2 ^ 32 - unat ?o"
    using assms(1) o' by (simp add: unat_sub_if' word_le_nat_alt)
  finally show ?thesis using assms(2) o' by (simp add: BUFFER_SIZE_def)
qed

lemma link_mtu_set_vinfo:
  "vinfo_mtu (link_mtu_set m w) = vinfo_mtu w" "w_udp_state (link_mtu_set m w) = w_udp_state w"
  "w_use_psk (link_mtu_set m w) = w_use_psk w" "w_session (link_mtu_set m w) = w_session w"
  "w_proto (link_mtu_set m w) = w_proto w"
  using link_mtu_set_only [of w m] by (auto simp: mtu_only_def)

lemma connect_mtu_calc:
  "\<exists>w. link_mtu (connect_mtu e ws) = link_mtu (calc_mtu_values e w) \<and>
     dtls_crypto_overhead (connect_mtu e ws) = dtls_crypto_overhead (calc_mtu_values e w) \<and>
     dtls_proto_overhead (connect_mtu e ws) = dtls_proto_overhead (calc_mtu_values e w) \<and>
     (w = peer_mtu e ws \<or> (\<exists>m. w = link_mtu_set m (peer_mtu e ws)))"
  unfolding connect_mtu_def Let_def
  by (rule exI [of _ "if \<not> w_conn_unix (peer_mtu e ws) \<and> 0 < we_pmtu e \<and> we_pmtu e < uint (vinfo_mtu (peer_mtu e ws))
        then link_mtu_set (word_of_int (we_pmtu e)) (peer_mtu e ws) else peer_mtu e ws"]) auto

text \<open>The MTU that the TCP connection suggests is computed and set, but \<^verbatim>\<open>calc_mtu_values\<close> overwrites it:
  it has no effect on the tunnel.\<close>

lemma tcp_pmtu_ignored: "link_mtu (connect_mtu e ws) = vinfo_mtu (peer_mtu e ws)"
  using connect_mtu_calc [of e ws] by (auto simp: calc_mtu_values_def Let_def link_mtu_set_vinfo)

text \<open>The overheads and the MTU that \<^verbatim>\<open>connect_handler\<close> settles on for a DTLS-PSK client that reports its
  link MTU in \<^verbatim>\<open>X-CSTP-Base-MTU\<close>.\<close>

lemma connect_mtu_psk:
  assumes "0 < w_req_link_mtu ws" and "u_mtu ws = 0" and "w_req_link_mtu ws \<le> vinfo_mtu ws"
    and "w_udp_state ws \<noteq> UP_DISABLED" and "w_use_psk ws" and "w_session ws"
  shows "link_mtu (connect_mtu e ws) = w_req_link_mtu ws"
    "dtls_crypto_overhead (connect_mtu e ws) = we_psk_overhead e + 1"
    "dtls_proto_overhead (connect_mtu e ws) = (case w_proto ws of W_INET \<Rightarrow> 28 | W_INET6 \<Rightarrow> 48)"
proof -
  have p: "peer_mtu e ws = ws\<lparr>vinfo_mtu := w_req_link_mtu ws\<rparr>"
    using assms(1-3) by (simp add: peer_mtu_def Let_def min_def)
  show "link_mtu (connect_mtu e ws) = w_req_link_mtu ws" unfolding tcp_pmtu_ignored p by simp
  show "dtls_crypto_overhead (connect_mtu e ws) = we_psk_overhead e + 1"
    "dtls_proto_overhead (connect_mtu e ws) = (case w_proto ws of W_INET \<Rightarrow> 28 | W_INET6 \<Rightarrow> 48)"
    using connect_mtu_calc [of e ws] assms(4-6) unfolding p
    by (auto simp: calc_mtu_values_def Let_def link_mtu_set_vinfo split: w_proto.split)
qed

text \<open>C29. The MTU a client reports is not checked against the headers: a client that reports a link MTU
  smaller than them (the header \<^verbatim>\<open>X-CSTP-Base-MTU\<close> is taken as is) makes the data MTU wrap around, and
  the first probe of the dead peer detection on the UDP channel clears about four gigabytes from
  \<^verbatim>\<open>ws->buffer\<close> on.\<close>

theorem small_mtu_overruns:
  assumes "0 < w_req_link_mtu ws" and "u_mtu ws = 0" and "w_req_link_mtu ws \<le> vinfo_mtu ws"
    and "w_udp_state ws \<noteq> UP_DISABLED" and "w_use_psk ws" and "w_session ws" and "unat (we_psk_overhead e) \<le> 900"
    and "unat (w_req_link_mtu ws) < unat (we_psk_overhead e) + 29"
    and "same_mtu ((connect_mtu e ws)\<lparr>w_udp_state := UP_ACTIVE, w_dtls_session := True,
           last_good_mtu := last_good_mtu w, last_bad_mtu := last_bad_mtu w\<rparr>) w"
    and "check_due tnow w" and "0 < dpd" and "uint (2 * dpd) < tv_sec tnow - last_msg_udp w"
    and "c_idle_timeout w = 0" and "u_session_timeout_secs w = 0"
  shows "periodic_check e' tnow dpd w = Overrun"
proof -
  note cm = connect_mtu_psk [OF assms(1-6), of e]
  have w: "link_mtu w = w_req_link_mtu ws" "dtls_crypto_overhead w = we_psk_overhead e + 1"
    "dtls_proto_overhead w = (case w_proto ws of W_INET \<Rightarrow> 28 | W_INET6 \<Rightarrow> 48)" "w_udp_state w = UP_ACTIVE"
    using assms(9) cm by (simp_all add: same_mtu_def)
  have c: "unat (dtls_crypto_overhead w) = unat (we_psk_overhead e) + 1"
    unfolding w(2) using assms(7) unat_plus_u32 [of "we_psk_overhead e" 1] by simp
  have h: "28 \<le> unat (dtls_proto_overhead w)" "unat (dtls_proto_overhead w) \<le> 48"
    unfolding w(3) by (simp_all split: w_proto.split)
  have wrap: "BUFFER_SIZE < unat (DATA_MTU w (link_mtu w))"
    by (rule DATA_MTU_wraps) (use w(1) c h assms(7,8) in simp_all)
  let ?v = "if 0 < u_interim_update_secs w \<and> uint (u_interim_update_secs w) \<le> tv_sec tnow - last_stats_msg w \<and> w_sid_set w
    then send_stats_to_secmod e' (tv_sec tnow) 0 w else w"
  have "link_mtu ?v = link_mtu w" "DATA_MTU ?v (link_mtu w) = DATA_MTU w (link_mtu w)" "w_udp_state ?v = UP_ACTIVE"
    "last_msg_udp ?v = last_msg_udp w"
    using w(4) by (simp_all add: send_stats_to_secmod_def wemit_def Let_def DATA_MTU_def)
  then have "check_udp_dpd e' (tv_sec tnow) dpd ?v = Overrun"
    using wrap assms(11,12) by (simp add: check_udp_dpd_def Let_def)
  then show ?thesis using assms(10,13,14) by (simp add: periodic_check_def check_due_def Let_def)
qed

definition demo_small :: worker where
  "demo_small = demo_worker\<lparr>w_req_link_mtu := 60, w_udp_state := UP_WAIT_FD, w_dtls_session := False, c_idle_timeout := 0\<rparr>"

theorem small_mtu_overruns_witness:
  "periodic_check demo_wenv \<lparr>tv_sec = 500, tv_nsec = 0\<rparr> 90
     ((connect_mtu demo_wenv demo_small)\<lparr>w_udp_state := UP_ACTIVE, w_dtls_session := True\<rparr>) = Overrun"
  by (rule small_mtu_overruns [of demo_small demo_wenv])
    (simp_all add: demo_small_def demo_worker_def demo_wenv_def same_mtu_def check_due_def check_period_def
      connect_mtu_def peer_mtu_def calc_mtu_values_def DATA_MTU_def Let_def)

text \<open>The ban points collected by a worker are not reported when it exits: the message has the score 0.\<close>

lemma exit_reports_zero:
  assumes "0 < w_ban_points ws" and "c_max_ban_score ws \<noteq> 0"
  shows "\<exists>w. exit_worker_reason e r ws = Exits r w \<and> hd (w_out w) = Ban_Ip 0"
  using assms by (simp add: exit_worker_reason_def ws_add_score_to_ip_def send_stats_to_secmod_def wemit_def Let_def)

text \<open>Any packet on the TLS channel, also a keepalive, turns off a UDP channel that was quiet for 15 seconds,
  since \<^verbatim>\<open>parse_cstp_data\<close> returns 0, the value of \<^verbatim>\<open>AC_PKT_DATA\<close>, for all of them.\<close>

lemma keepalive_disables_udp:
  assumes "w_udp_state ws = UP_ACTIVE" and "15 < tv_sec tnow - w_udp_recv_time ws" and "kb_per_sec (b_rx ws) = 0"
  shows "\<exists>w. tls_mainloop e (Inr (cstp_packet AC_PKT_KEEPALIVE [])) tnow ws = Returns (0, w) \<and> w_udp_state w = UP_INACTIVE"
  using assms
  by (simp add: tls_mainloop_def Let_def CSTP_FATAL_ERR_CMD_def bandwidth_update_def parse_cstp_data_def cstp_packet_def
      cstp_header_ok_def pkt_len_def parse_data_def)

end
