(* ===== verification/SockIo.thy ===== *)
theory SockIo
  imports WorkerTunnel
begin

text \<open>
  Reading and writing sockets: \<^verbatim>\<open>recv_remaining\<close>, \<^verbatim>\<open>_cstp_recv_packet\<close>, \<^verbatim>\<open>cstp_send\<close> and \<^verbatim>\<open>dtls_send\<close> of
  \<^verbatim>\<open>src/src/tlslib.c\<close>, and the messages between the processes, \<^verbatim>\<open>src/src/common/common.c\<close>.

  A socket is the list of what reading it will give: chunks of bytes, possibly with a descriptor, in the
  sizes in which they happen to be available; an interruption or \<^verbatim>\<open>EAGAIN\<close>; the end of the stream; an
  error. The empty list is a peer from which nothing more arrives. The theorems show that packets and
  messages are recovered however the stream is cut into chunks, and what a truncated one is taken for.
\<close>

section \<open>Sockets\<close>

datatype sock_ev = Chunk "nat option" bytes | Again | Closed | Fail

section \<open>Packets of the tunnel on a plain stream\<close>

text \<open>Up to \<open>left\<close> bytes, with at most \<open>k\<close> pauses; whatever was read when the stream ends or fails is
  returned.\<close>

fun recv_remaining :: "nat \<Rightarrow> sock_ev list \<Rightarrow> nat \<Rightarrow> bytes \<times> sock_ev list" where
  "recv_remaining k evs 0 = ([], evs)"
| "recv_remaining k [] (Suc n) = ([], [])"
| "recv_remaining k (Again # evs) (Suc n) =
     (case k of 0 \<Rightarrow> ([], evs) | Suc k \<Rightarrow> recv_remaining k evs (Suc n))"
| "recv_remaining k (Closed # evs) (Suc n) = ([], Closed # evs)"
| "recv_remaining k (Fail # evs) (Suc n) = ([], evs)"
| "recv_remaining k (Chunk fd xs # evs) (Suc n) =
     (if length xs \<le> Suc n
      then (let (ys, evs') = recv_remaining k evs (Suc n - length xs) in (xs @ ys, evs'))
      else (take (Suc n) xs, Chunk None (drop (Suc n) xs) # evs))"

text \<open>One CSTP packet into the buffer \<open>dat\<close>, without TLS.\<close>

definition cstp_recv_packet :: "bytes \<Rightarrow> sock_ev list \<Rightarrow> received \<times> bytes \<times> sock_ev list" where
  "cstp_recv_packet dat evs =
     (let (hd8, evs) = recv_remaining 100 evs 8
      in if hd8 = [] then (Inl 0, dat, evs)
         else
           (let dat = blit 0 hd8 dat; n = pkt_len dat
            in if length dat < n + 8 then (Inl (- 9), dat, evs)
               else if n = 0 then (Inr (take 8 dat), dat, evs)
               else
                 (let (body, evs) = recv_remaining 100 evs n
                  in if body = [] then (Inl 0, dat, evs)
                     else (let dat = blit 8 body dat in (Inr (take (8 + n) dat), dat, evs)))))"

text \<open>The loop of \<^verbatim>\<open>cstp_send\<close> and \<^verbatim>\<open>dtls_send\<close> over the results of \<^verbatim>\<open>gnutls_record_send\<close>: the value returned
  (\<open>None\<close> while it still waits) and the offsets at which \<open>n\<close> bytes were handed to GnuTLS. The calls pass the size
  of the whole buffer, also when a part of it was already sent.\<close>

fun send_loop :: "int list \<Rightarrow> nat \<Rightarrow> int \<Rightarrow> nat \<Rightarrow> int option \<times> nat list" where
  "send_loop rs n left off =
     (if left \<le> 0 then (Some (int n), [])
      else
        case rs of
          [] \<Rightarrow> (None, [off])
        | r # rs \<Rightarrow>
            if r < 0 \<and> r \<noteq> - 28 \<and> r \<noteq> - 52 then (Some r, [off])
            else
              (let (res, offs) = (if 0 < r then send_loop rs n (left - r) (off + nat r) else send_loop rs n left off)
               in (res, off # offs)))"

definition record_send_all :: "int list \<Rightarrow> bytes \<Rightarrow> int option \<times> nat list" where
  "record_send_all rs dat = send_loop rs (length dat) (int (length dat)) 0"

section \<open>Messages between the processes\<close>

definition le32 :: "u32 \<Rightarrow> bytes" where
  "le32 n = [ucast n, ucast (drop_bit 8 n), ucast (drop_bit 16 n), ucast (drop_bit 24 n)]"

definition un_le32 :: "bytes \<Rightarrow> u32" where
  "un_le32 xs = ucast (xs ! 0) OR push_bit 8 (ucast (xs ! 1)) OR push_bit 16 (ucast (xs ! 2)) OR push_bit 24 (ucast (xs ! 3))"

text \<open>\<^verbatim>\<open>send_socket_msg\<close>: the command, the length and the packed message in one \<^verbatim>\<open>sendmsg\<close>, with the descriptor.\<close>

definition send_socket_msg :: "u8 \<Rightarrow> nat option \<Rightarrow> bytes \<Rightarrow> sock_ev option" where
  "send_socket_msg cmd fd packed =
     (if 2 ^ 32 - 1 \<le> length packed then None
      else Some (Chunk fd ([cmd] @ le32 (of_nat (length packed)) @ packed)))"

fun force_read_timeout :: "sock_ev list \<Rightarrow> nat \<Rightarrow> (bytes + bytes) \<times> sock_ev list" where
  "force_read_timeout evs 0 = (Inr [], evs)"
| "force_read_timeout [] (Suc n) = (Inl [], [])"
| "force_read_timeout (Again # evs) (Suc n) = force_read_timeout evs (Suc n)"
| "force_read_timeout (Closed # evs) (Suc n) = (Inl [], Closed # evs)"
| "force_read_timeout (Fail # evs) (Suc n) = (Inl [], evs)"
| "force_read_timeout (Chunk fd xs # evs) (Suc n) =
     (if length xs \<le> Suc n
      then (let (r, evs') = force_read_timeout evs (Suc n - length xs)
            in (case r of Inl ys \<Rightarrow> Inl (xs @ ys) | Inr ys \<Rightarrow> Inr (xs @ ys), evs'))
      else (Inr (take (Suc n) xs), Chunk None (drop (Suc n) xs) # evs))"

text \<open>The header of a message; the bytes that a short read leaves out keep what the memory held before.\<close>

fun recvmsg_header :: "bytes \<Rightarrow> sock_ev list \<Rightarrow> (int + (u8 \<times> u32 \<times> nat option)) \<times> sock_ev list" where
  "recvmsg_header old [] = (Inl ERR_BAD_COMMAND, [])"
| "recvmsg_header old (Again # evs) = (Inl ERR_BAD_COMMAND, evs)"
| "recvmsg_header old (Fail # evs) = (Inl ERR_BAD_COMMAND, evs)"
| "recvmsg_header old (Closed # evs) = (Inl ERR_PEER_TERMINATED, Closed # evs)"
| "recvmsg_header old (Chunk fd xs # evs) =
     (if xs = [] then recvmsg_header old evs
      else
        (let h = take 5 xs @ drop (length xs) old
         in (Inr (h ! 0, un_le32 (drop 1 h), fd), if length xs \<le> 5 then evs else Chunk None (drop 5 xs) # evs)))"

text \<open>\<^verbatim>\<open>recv_msg_data\<close> into the buffer \<open>dat\<close>: the command, the length and the descriptor, or an error. The
  test \<^verbatim>\<open>ret < l32\<close> compares the result \<^verbatim>\<open>-1\<close> of a failed read as an unsigned number.\<close>

definition recv_msg_data ::
  "bytes \<Rightarrow> bytes \<Rightarrow> sock_ev list \<Rightarrow> (int + (u8 \<times> nat \<times> nat option)) \<times> bytes \<times> sock_ev list" where
  "recv_msg_data old dat evs =
     (case recvmsg_header old evs of
        (Inl err, evs) \<Rightarrow> (Inl err, dat, evs)
      | (Inr (cmd, l32, fd), evs) \<Rightarrow>
          if length dat < unat l32 then (Inl ERR_BAD_COMMAND, dat, evs)
          else
            (case force_read_timeout evs (unat l32) of
               (Inr xs, evs) \<Rightarrow>
                 (if (of_nat (length xs) :: u32) < l32 then Inl ERR_BAD_COMMAND else Inr (cmd, unat l32, fd),
                  blit 0 xs dat, evs)
             | (Inl xs, evs) \<Rightarrow>
                 (if (- 1 :: u32) < l32 then Inl ERR_BAD_COMMAND else Inr (cmd, unat l32, fd), blit 0 xs dat, evs)))"

text \<open>\<^verbatim>\<open>recv_socket_msg\<close> for the command \<open>cmd\<close>: the message it hands to \<^verbatim>\<open>unpack\<close>, in freshly allocated memory
  that holds \<open>fresh\<close>.\<close>

definition recv_socket_msg ::
  "bytes \<Rightarrow> (nat \<Rightarrow> bytes) \<Rightarrow> u8 \<Rightarrow> sock_ev list \<Rightarrow> (int + (bytes \<times> nat option)) \<times> sock_ev list" where
  "recv_socket_msg old fresh cmd evs =
     (case recvmsg_header old evs of
        (Inl err, evs) \<Rightarrow> (Inl err, evs)
      | (Inr (rcmd, len, fd), evs) \<Rightarrow>
          if rcmd \<noteq> cmd then (Inl ERR_BAD_COMMAND, evs)
          else if len = 0 then (Inr ([], fd), evs)
          else
            (case force_read_timeout evs (unat len) of
               (Inr xs, evs) \<Rightarrow>
                 (if (of_nat (length xs) :: u32) < len then Inl ERR_BAD_COMMAND
                  else Inr (blit 0 xs (fresh (unat len)), fd), evs)
             | (Inl xs, evs) \<Rightarrow>
                 (if (- 1 :: u32) < len then Inl ERR_BAD_COMMAND
                  else Inr (blit 0 xs (fresh (unat len)), fd), evs)))"

section \<open>Streams that keep flowing\<close>

fun ev_bytes :: "sock_ev \<Rightarrow> bytes" where
  "ev_bytes (Chunk _ xs) = xs"
| "ev_bytes _ = []"

definition stream :: "sock_ev list \<Rightarrow> bytes" where
  "stream evs = concat (map ev_bytes evs)"

definition pauses :: "sock_ev list \<Rightarrow> nat" where
  "pauses evs = length (filter (\<lambda>ev. ev = Again) evs)"

definition flowing :: "sock_ev list \<Rightarrow> bool" where
  "flowing evs \<longleftrightarrow> list_all (\<lambda>ev. ev \<noteq> Closed \<and> ev \<noteq> Fail) evs"

lemma stream_simps [simp]:
  "stream [] = []" "stream (Chunk fd xs # evs) = xs @ stream evs" "stream (Again # evs) = stream evs"
  "stream (Closed # evs) = stream evs" "stream (Fail # evs) = stream evs"
  "pauses [] = 0" "pauses (Chunk fd xs # evs) = pauses evs" "pauses (Again # evs) = Suc (pauses evs)"
  "flowing []" "flowing (Chunk fd xs # evs) = flowing evs" "flowing (Again # evs) = flowing evs"
  "\<not> flowing (Closed # evs)" "\<not> flowing (Fail # evs)"
  by (simp_all add: stream_def pauses_def flowing_def)

lemma recv_remaining_flowing:
  assumes "flowing evs" and "pauses evs \<le> k" and "n \<le> length (stream evs)"
  shows "\<exists>evs'. recv_remaining k evs n = (take n (stream evs), evs') \<and> stream evs' = drop n (stream evs) \<and>
    flowing evs' \<and> pauses evs' \<le> pauses evs"
  using assms
proof (induction k evs n rule: recv_remaining.induct)
  case (3 k evs n)
  then obtain k' where k: "k = Suc k'" by (cases k) auto
  from 3 k have "\<exists>evs'. recv_remaining k' evs (Suc n) = (take (Suc n) (stream evs), evs') \<and>
    stream evs' = drop (Suc n) (stream evs) \<and> flowing evs' \<and> pauses evs' \<le> pauses evs" by simp
  then show ?case using k by (auto intro: le_SucI)
next
  case (6 k fd xs evs n)
  show ?case
  proof (cases "length xs \<le> Suc n")
    case True
    with 6 have "\<exists>evs'. recv_remaining k evs (Suc n - length xs) = (take (Suc n - length xs) (stream evs), evs') \<and>
      stream evs' = drop (Suc n - length xs) (stream evs) \<and> flowing evs' \<and> pauses evs' \<le> pauses evs" by simp
    then show ?thesis using True by auto
  next
    case False
    then show ?thesis using 6 by simp
  qed
qed simp_all

lemma force_read_flowing:
  assumes "flowing evs" and "n \<le> length (stream evs)"
  shows "\<exists>evs'. force_read_timeout evs n = (Inr (take n (stream evs)), evs') \<and> stream evs' = drop n (stream evs) \<and>
    flowing evs'"
  using assms
proof (induction evs n rule: force_read_timeout.induct)
  case (6 fd xs evs n)
  show ?case
  proof (cases "length xs \<le> Suc n")
    case True
    with 6 have "\<exists>evs'. force_read_timeout evs (Suc n - length xs) = (Inr (take (Suc n - length xs) (stream evs)), evs') \<and>
      stream evs' = drop (Suc n - length xs) (stream evs) \<and> flowing evs'" by simp
    then show ?thesis using True by auto
  next
    case False
    then show ?thesis using 6 by simp
  qed
qed simp_all

lemma pkt_len_blit:
  assumes "length hd8 = 8" and "8 \<le> length dat"
  shows "pkt_len (blit 0 hd8 dat) = pkt_len hd8"
  using assms by (simp add: pkt_len_def nth_blit)

lemma cstp_recv_one:
  assumes "flowing evs" and "pauses evs \<le> 100" and "stream evs = cstp_packet ty body @ rest"
    and "length body + 8 \<le> length dat" and "length body < 65536"
  shows "\<exists>dat' evs'. cstp_recv_packet dat evs = (Inr (cstp_packet ty body), dat', evs') \<and> length dat' = length dat \<and>
    flowing evs' \<and> pauses evs' \<le> 100 \<and> stream evs' = rest"
proof -
  let ?p = "cstp_packet ty body" and ?h = "take 8 (cstp_packet ty body)"
  note h = cstp_packet_header [OF assms(5), of ty]
  from recv_remaining_flowing [OF assms(1,2), of 8] assms(3) h(3) obtain e1 where
    e1: "recv_remaining 100 evs 8 = (?h, e1)" "stream e1 = body @ rest" "flowing e1" "pauses e1 \<le> 100"
    using h(5) assms(2) by auto
  let ?d = "blit 0 ?h dat"
  have n: "pkt_len ?d = length body"
    using h assms(4) pkt_len_blit [of ?h dat] by (simp add: pkt_len_def)
  have d: "length ?d = length dat" "?h \<noteq> []" using assms(4) h(3) by (auto simp: length_blit)
  show ?thesis
  proof (cases "body = []")
    case True
    have "take 8 ?d = ?p" using True h(3) by (simp add: blit_def)
    then show ?thesis using e1 n d True assms(4) by (simp add: cstp_recv_packet_def Let_def)
  next
    case False
    from recv_remaining_flowing [OF e1(3,4), of "length body"] e1(2,4) obtain e2 where
      e2: "recv_remaining 100 e1 (length body) = (body, e2)" "stream e2 = rest" "flowing e2" "pauses e2 \<le> 100" by auto
    have "take (8 + length body) (blit 8 body ?d) = ?h @ body"
      using h(3) assms(4) by (simp add: blit_def)
    also have "\<dots> = ?p" using h(5) append_take_drop_id [of 8 ?p] by simp
    finally have "take (8 + length body) (blit 8 body ?d) = ?p" .
    then show ?thesis using e1 e2 n d False assms(4)
      by (auto simp: cstp_recv_packet_def Let_def length_blit)
  qed
qed

fun recv_packets :: "nat \<Rightarrow> bytes \<Rightarrow> sock_ev list \<Rightarrow> received list" where
  "recv_packets 0 dat evs = []"
| "recv_packets (Suc n) dat evs =
     (let (r, dat, evs) = cstp_recv_packet dat evs in r # recv_packets n dat evs)"

text \<open>C23. Packet boundaries survive a plain stream, as the comment on \<^verbatim>\<open>_cstp_recv_packet\<close> says: when a proxy
  ends TLS and the packets of the tunnel arrive on a UNIX socket, they are received one by one as they were
  sent, however the stream is cut into chunks and wherever it pauses (up to the 100 retries of the
  source).\<close>

theorem cstp_stream_round_trip:
  assumes "flowing evs" and "pauses evs \<le> 100" and "stream evs = concat (map (\<lambda>(ty, body). cstp_packet ty body) ps)"
    and "length dat = BUFFER_SIZE" and "list_all (\<lambda>(ty, body). length body + 8 \<le> BUFFER_SIZE) ps"
  shows "recv_packets (length ps) dat evs = map (\<lambda>(ty, body). Inr (cstp_packet ty body)) ps"
  using assms
proof (induction ps arbitrary: dat evs)
  case (Cons p ps)
  obtain ty body where p: "p = (ty, body)" by force
  have "length body + 8 \<le> length dat" "length body < 65536" using Cons(5,6) p by (auto simp: BUFFER_SIZE_def)
  moreover have "stream evs = cstp_packet ty body @ concat (map (\<lambda>(ty, body). cstp_packet ty body) ps)"
    using Cons(4) p by simp
  ultimately obtain dat' evs' where "cstp_recv_packet dat evs = (Inr (cstp_packet ty body), dat', evs')"
    "length dat' = length dat" "flowing evs'" "pauses evs' \<le> 100"
    "stream evs' = concat (map (\<lambda>(ty, body). cstp_packet ty body) ps)"
    using cstp_recv_one [OF Cons(2,3)] by blast
  then show ?case using Cons p by simp
qed simp

theorem cstp_stream_round_trip_witness:
  "recv_packets 2 (replicate BUFFER_SIZE 0)
     [Chunk None [0x53, 0x54], Again, Chunk None [0x46, 1, 0, 2, 0, 0, 7], Chunk None [9, 0x53, 0x54, 0x46, 1, 0, 0, 3, 0]] =
   [Inr [0x53, 0x54, 0x46, 1, 0, 2, 0, 0, 7, 9], Inr [0x53, 0x54, 0x46, 1, 0, 0, 3, 0]]"
  using cstp_stream_round_trip [of
      "[Chunk None [0x53, 0x54], Again, Chunk None [0x46, 1, 0, 2, 0, 0, 7], Chunk None [9, 0x53, 0x54, 0x46, 1, 0, 0, 3, 0]]"
      "[(0, [7, 9]), (3, [])]" "replicate BUFFER_SIZE 0"]
  by (simp add: cstp_packet_def BUFFER_SIZE_def numeral_2_eq_2)

text \<open>A packet whose stream ends in the middle is accepted at its announced length; the missing bytes are
  what the buffer held before.\<close>

lemma truncated_packet_accepted:
  assumes "0 < k" and "k < length body" and "length body < 65536" and "length body + 8 \<le> length dat"
  shows "fst (cstp_recv_packet dat [Chunk None (take (8 + k) (cstp_packet ty body)), Closed]) =
    Inr (take (8 + k) (cstp_packet ty body) @ bslice (8 + k) (length body - k) dat)"
proof -
  let ?p = "cstp_packet ty body" and ?h = "take 8 (cstp_packet ty body)"
  note h = cstp_packet_header [OF assms(3), of ty]
  have split: "take (8 + k) ?p = ?h @ take k body" "length ?h = 8" "length (take (8 + k) ?p) = 8 + k"
    using h(3,5) assms(2) by (simp_all add: take_add)
  have r1: "recv_remaining 100 [Chunk None (?h @ take k body), Closed] 8 = (?h, [Chunk None (take k body), Closed])"
    using split(2) assms(1,2) by (simp add: numeral_nat)
  have r2: "recv_remaining 100 [Chunk None (take k body), Closed] (length body) = (take k body, [Closed])"
    using assms(1,2) by (cases "length body") (auto simp: min_def Suc_diff_le Let_def split: nat.split)
  let ?d = "blit 0 ?h dat"
  have n: "pkt_len ?d = length body" using h assms(4) pkt_len_blit [of ?h dat] by (simp add: pkt_len_def)
  have d: "length ?d = length dat" "?h \<noteq> []" "take k body \<noteq> []" "body \<noteq> []" using assms split by (auto simp: length_blit)
  have "take (8 + length body) (blit 8 (take k body) ?d) = ?h @ take k body @ bslice (8 + k) (length body - k) dat"
    using split(2) assms(2,4) by (simp add: blit_def bslice_def min_def add.commute)
  then show ?thesis unfolding split(1) using r1 r2 n d assms(4)
    by (simp add: cstp_recv_packet_def Let_def)
qed

section \<open>Messages survive the sockets\<close>

lemma un_le32_le32: "un_le32 (le32 n) = n"
proof (rule bit_word_eqI)
  fix i
  assume i: "i < LENGTH(32)"
  then consider "i < 8" | "8 \<le> i" "i < 16" | "16 \<le> i" "i < 24" | "24 \<le> i" "i < 32" by force
  then show "bit (un_le32 (le32 n)) i \<longleftrightarrow> bit n i"
    by cases (auto simp: un_le32_def le32_def bit_or_iff bit_push_bit_iff bit_ucast_iff bit_drop_bit_eq)
qed

lemma length_le32 [simp]: "length (le32 n) = 4"
  by (simp add: le32_def)

lemma message_split:
  assumes "[cmd] @ le32 n @ packed = a @ b" and "5 \<le> length a"
  shows "take 5 a = [cmd] @ le32 n" "packed = drop 5 a @ b"
proof -
  have "take 5 a = take 5 ([cmd] @ le32 n @ packed)" "drop 5 a @ b = drop 5 ([cmd] @ le32 n @ packed)"
    unfolding assms(1) using assms(2) by simp_all
  then show "take 5 a = [cmd] @ le32 n" "packed = drop 5 a @ b" by (simp_all add: le32_def)
qed

lemma recvmsg_header_whole:
  assumes "[cmd] @ le32 n @ packed = a @ b" and "5 \<le> length a" and "length old = 5"
  shows "recvmsg_header old (Chunk fd a # later) =
    (Inr (cmd, n, fd), if length a \<le> 5 then later else Chunk None (drop 5 a) # later)"
proof -
  have "a \<noteq> []" "drop (length a) old = []" using assms(2,3) by auto
  then show ?thesis using message_split(1) [OF assms(1,2)] un_le32_le32 by (simp add: Let_def)
qed

lemma header_rest:
  assumes "flowing later"
  shows "stream (if length a \<le> 5 then later else Chunk None (drop 5 a) # later) = drop 5 a @ stream later"
    "flowing (if length a \<le> 5 then later else Chunk None (drop 5 a) # later)"
  using assms by simp_all





section \<open>Sending\<close>

text \<open>When every record is sent as a whole, the packet is sent once, from its beginning. A record that is sent
  in part is followed by a call that reads beyond the end of the packet.\<close>

lemma record_send_whole:
  assumes "list_all (\<lambda>r. r = - 28 \<or> r = - 52) rs" and "dat \<noteq> []"
  shows "record_send_all (rs @ int (length dat) # rs') dat = (Some (int (length dat)), replicate (Suc (length rs)) 0)"
  using assms(1) unfolding record_send_all_def
proof (induction rs)
  case Nil
  show ?case using assms(2) by simp
next
  case (Cons r rs)
  then show ?case using assms(2) by auto
qed

lemma partial_send_overreads:
  assumes "0 < r" and "r < int (length dat)"
  shows "\<exists>off \<in> set (snd (record_send_all [r] dat)). length dat < off + length dat"
  using assms by (cases dat) (auto simp: record_send_all_def)

end
