(* ===== verification/SecModResume.thy ===== *)
theory SecModResume
  imports IpUtil Htable
begin

text \<open>
  The cache of TLS sessions that the security module keeps for resumption, \<^verbatim>\<open>src/src/sec-mod-resume.c\<close>.
  A string that the source compares by its address is a pair of the address and the characters; the
  address of the copy made by \<^verbatim>\<open>talloc_strdup\<close>, whether the allocations succeed, the hash and the expiration
  time that GnuTLS reads from the session data are arguments. A copy of an address longer than a
  \<^verbatim>\<open>sockaddr_storage\<close> is \<open>None\<close>. The theorems show that a session is only resumed by the address that stored
  it and with the data it stored, that the cache is bounded, and that sessions of a virtual host cannot
  be resumed at all.
\<close>

type_synonym c_str = "nat \<times> string"

record tls_cache =
  tc_remote_addr :: sockaddr
  tc_remote_addr_len :: nat
  tc_session_id :: bytes
  tc_session_data :: bytes
  tc_vhostname :: "c_str option"

record tls_sess_db =
  tdb_ht :: "tls_cache htable"
  tdb_entries :: u32

record resume_req =
  rq_session_id :: bytes
  rq_session_data :: bytes
  rq_cli_addr :: bytes
  rq_vhost :: "c_str option"

definition MAX_SESSION_ID :: nat where "MAX_SESSION_ID = 32"
definition MAX_SESSION_DATA_SIZE :: nat where "MAX_SESSION_DATA_SIZE = 4096"

definition tls_cache_init :: tls_sess_db where
  "tls_cache_init = \<lparr>tdb_ht = [], tdb_entries = 0\<rparr>"

definition same_session :: "bytes \<Rightarrow> tls_cache \<Rightarrow> bool" where
  "same_session sid c \<longleftrightarrow> sid = tc_session_id c"

definition handle_resume_delete_req :: "(bytes \<Rightarrow> u64) \<Rightarrow> resume_req \<Rightarrow> tls_sess_db \<Rightarrow> tls_sess_db" where
  "handle_resume_delete_req H rq db =
     (let sid = rq_session_id rq
      in case htable_get (tdb_ht db) (H sid) (same_session sid) of
           None \<Rightarrow> db
         | Some _ \<Rightarrow> \<lparr>tdb_ht = htable_del (tdb_ht db) (H sid) (same_session sid), tdb_entries = tdb_entries db - 1\<rparr>)"

text \<open>The address of a request as the \<^verbatim>\<open>sockaddr_storage\<close> that \<^verbatim>\<open>ip_cmp\<close> reads.\<close>

definition addr_storage :: "bytes \<Rightarrow> sockaddr \<Rightarrow> sockaddr" where
  "addr_storage a mem = a @ drop (length a) mem"

text \<open>\<^verbatim>\<open>c_strcasecmp\<close> of the two host names, where both are given.\<close>

fun vhost_differs :: "c_str option \<Rightarrow> c_str option \<Rightarrow> bool" where
  "vhost_differs (Some (_, s)) (Some (_, u)) \<longleftrightarrow> map c_tolower s \<noteq> map c_tolower u"
| "vhost_differs _ _ \<longleftrightarrow> False"

fun resume_fetch_loop :: "resume_req \<Rightarrow> u64 \<Rightarrow> sockaddr \<Rightarrow> tls_cache htable \<Rightarrow> bytes option" where
  "resume_fetch_loop rq h mem [] = None"
| "resume_fetch_loop rq h mem ((h', c) # t) =
     (if h' = h \<and> same_session (rq_session_id rq) c then
        (if vhost_differs (rq_vhost rq) (tc_vhostname c) then None
         else if map_option fst (rq_vhost rq) \<noteq> map_option fst (tc_vhostname c) then None
         else if length (rq_cli_addr rq) = tc_remote_addr_len c \<and>
                 ip_cmp (addr_storage (rq_cli_addr rq) mem) (tc_remote_addr c) = 0
         then Some (tc_session_data c)
         else resume_fetch_loop rq h mem t)
      else resume_fetch_loop rq h mem t)"

definition handle_resume_fetch_req :: "(bytes \<Rightarrow> u64) \<Rightarrow> sockaddr \<Rightarrow> resume_req \<Rightarrow> tls_sess_db \<Rightarrow> bytes option" where
  "handle_resume_fetch_req H mem rq db = resume_fetch_loop rq (H (rq_session_id rq)) mem (tdb_ht db)"

record resume_env =
  re_alloc :: bool \<comment> \<open>\<^verbatim>\<open>talloc\<close> of the entry succeeds\<close>
  re_dup :: "nat option" \<comment> \<open>the address of the copied host name\<close>
  re_add :: bool \<comment> \<open>\<^verbatim>\<open>htable_add\<close> succeeds\<close>
  re_mem :: sockaddr \<comment> \<open>what the fresh entry held\<close>

definition dup_str :: "nat option \<Rightarrow> c_str option \<Rightarrow> c_str option" where
  "dup_str p x = (case (p, x) of (Some a, Some (_, s)) \<Rightarrow> Some (a, s) | _ \<Rightarrow> None)"

definition handle_resume_store_req ::
  "(bytes \<Rightarrow> u64) \<Rightarrow> u32 \<Rightarrow> resume_env \<Rightarrow> resume_req \<Rightarrow> tls_sess_db \<Rightarrow> (int \<times> tls_sess_db) option" where
  "handle_resume_store_req H max_clients v rq db =
     (if MAX_SESSION_ID < length (rq_session_id rq) then Some (- 1, db)
      else if MAX_SESSION_DATA_SIZE < length (rq_session_data rq) then Some (- 1, db)
      else if max (2 * max_clients) 64 \<le> tdb_entries db then Some (- 1, db)
      else if rq_cli_addr rq = [] then Some (- 1, db)
      else if \<not> re_alloc v then Some (- 1, db)
      else if 128 < length (rq_cli_addr rq) then None
      else
        (let c = \<lparr>tc_remote_addr = addr_storage (rq_cli_addr rq) (re_mem v), tc_remote_addr_len = length (rq_cli_addr rq),
                  tc_session_id = rq_session_id rq, tc_session_data = rq_session_data rq,
                  tc_vhostname = dup_str (re_dup v) (rq_vhost rq)\<rparr>
         in Some (0, \<lparr>tdb_ht = (if re_add v then htable_add (tdb_ht db) (H (rq_session_id rq)) c else tdb_ht db),
                      tdb_entries = tdb_entries db + 1\<rparr>)))"

definition expire_tls_sessions :: "(bytes \<Rightarrow> time_t) \<Rightarrow> time_t \<Rightarrow> time_t \<Rightarrow> tls_sess_db \<Rightarrow> tls_sess_db" where
  "expire_tls_sessions expiry cookie_timeout nw db =
     (let old = (\<lambda>c. cookie_timeout < nw - expiry (tc_session_data c))
      in \<lparr>tdb_ht = htable_purge (tdb_ht db) old,
          tdb_entries = tdb_entries db - of_nat (length (filter old (htable_objs (tdb_ht db))))\<rparr>)"

section \<open>Any sequence of requests\<close>

datatype resume_op =
    R_Store resume_env resume_req
  | R_Delete resume_req
  | R_Expire time_t

fun resume_step ::
  "(bytes \<Rightarrow> u64) \<Rightarrow> u32 \<Rightarrow> (bytes \<Rightarrow> time_t) \<Rightarrow> time_t \<Rightarrow> resume_op \<Rightarrow> tls_sess_db \<Rightarrow> tls_sess_db option" where
  "resume_step H mx expiry tmo (R_Store v rq) db = map_option snd (handle_resume_store_req H mx v rq db)"
| "resume_step H mx expiry tmo (R_Delete rq) db = Some (handle_resume_delete_req H rq db)"
| "resume_step H mx expiry tmo (R_Expire nw) db = Some (expire_tls_sessions expiry tmo nw db)"

fun resume_run ::
  "(bytes \<Rightarrow> u64) \<Rightarrow> u32 \<Rightarrow> (bytes \<Rightarrow> time_t) \<Rightarrow> time_t \<Rightarrow> resume_op list \<Rightarrow> tls_sess_db \<Rightarrow> tls_sess_db option" where
  "resume_run H mx expiry tmo [] db = Some db"
| "resume_run H mx expiry tmo (op # ops) db = Option.bind (resume_step H mx expiry tmo op db) (resume_run H mx expiry tmo ops)"

section \<open>Where the entries come from\<close>

definition stored_by :: "resume_env \<Rightarrow> resume_req \<Rightarrow> tls_cache \<Rightarrow> bool" where
  "stored_by v rq c \<longleftrightarrow> tc_session_id c = rq_session_id rq \<and> tc_session_data c = rq_session_data rq \<and>
     tc_remote_addr_len c = length (rq_cli_addr rq) \<and> tc_remote_addr c = addr_storage (rq_cli_addr rq) (re_mem v) \<and>
     tc_vhostname c = dup_str (re_dup v) (rq_vhost rq)"

definition stored_in :: "resume_op list \<Rightarrow> tls_cache \<Rightarrow> bool" where
  "stored_in ops c \<longleftrightarrow> (\<exists>v rq. R_Store v rq \<in> set ops \<and> stored_by v rq c)"

lemma resume_step_objs:
  assumes "resume_step H mx expiry tmo op db = Some db'" and "c \<in> set (htable_objs (tdb_ht db'))"
  shows "c \<in> set (htable_objs (tdb_ht db)) \<or> stored_in [op] c"
proof (cases op)
  case (R_Store v rq)
  let ?c = "\<lparr>tc_remote_addr = addr_storage (rq_cli_addr rq) (re_mem v), tc_remote_addr_len = length (rq_cli_addr rq),
    tc_session_id = rq_session_id rq, tc_session_data = rq_session_data rq, tc_vhostname = dup_str (re_dup v) (rq_vhost rq)\<rparr>"
  have "htable_objs (tdb_ht db') = htable_objs (tdb_ht db) \<or> htable_objs (tdb_ht db') = htable_objs (tdb_ht db) @ [?c]"
    using assms(1) R_Store by (auto simp: handle_resume_store_req_def Let_def htable_add_def split: if_splits)
  moreover have "stored_by v rq ?c" by (simp add: stored_by_def)
  ultimately show ?thesis using assms(2) R_Store by (auto simp: stored_in_def simp del: set_map)
next
  case (R_Delete rq)
  then show ?thesis
    using assms htable_del_subset [of "tdb_ht db" "H (rq_session_id rq)" "same_session (rq_session_id rq)"]
    by (auto simp: handle_resume_delete_req_def Let_def split: option.splits intro: rev_image_eqI)
next
  case (R_Expire nw)
  then show ?thesis using assms by (auto simp: expire_tls_sessions_def Let_def intro: rev_image_eqI)
qed

lemma resume_run_objs:
  assumes "resume_run H mx expiry tmo ops db = Some db'" and "c \<in> set (htable_objs (tdb_ht db'))"
  shows "c \<in> set (htable_objs (tdb_ht db)) \<or> stored_in ops c"
  using assms(1)
proof (induction ops arbitrary: db)
  case Nil
  then show ?case using assms(2) by simp
next
  case (Cons op ops)
  then obtain db1 where db1: "resume_step H mx expiry tmo op db = Some db1" "resume_run H mx expiry tmo ops db1 = Some db'"
    by (auto simp: bind_eq_Some_conv)
  from Cons.IH [OF db1(2)] resume_step_objs [OF db1(1), of c] show ?case by (auto simp: stored_in_def)
qed

lemma fetch_loop_Some:
  assumes "resume_fetch_loop rq h mem t = Some dat"
  shows "\<exists>c \<in> set (htable_objs t). tc_session_id c = rq_session_id rq \<and> tc_session_data c = dat \<and>
    tc_remote_addr_len c = length (rq_cli_addr rq) \<and> ip_cmp (addr_storage (rq_cli_addr rq) mem) (tc_remote_addr c) = 0 \<and>
    map_option fst (rq_vhost rq) = map_option fst (tc_vhostname c)"
  using assms by (induction rq h mem t rule: resume_fetch_loop.induct) (auto simp: same_session_def split: if_splits)

text \<open>C24. A session is resumed only by the client that stored it: after any sequence of requests, when the
  security module hands out session data for a session id, a store request had that id and exactly that
  data and came from the same address.\<close>

theorem resumes_only_own_session:
  assumes "resume_run H mx expiry tmo ops tls_cache_init = Some db" and "handle_resume_fetch_req H mem rq db = Some dat"
  shows "\<exists>v rq'. R_Store v rq' \<in> set ops \<and> rq_session_id rq' = rq_session_id rq \<and> rq_session_data rq' = dat \<and>
    length (rq_cli_addr rq') = length (rq_cli_addr rq) \<and>
    ip_cmp (addr_storage (rq_cli_addr rq) mem) (addr_storage (rq_cli_addr rq') (re_mem v)) = 0"
proof -
  from fetch_loop_Some [of rq _ mem "tdb_ht db" dat] assms(2) obtain c where
    c: "c \<in> set (htable_objs (tdb_ht db))" "tc_session_id c = rq_session_id rq" "tc_session_data c = dat"
      "tc_remote_addr_len c = length (rq_cli_addr rq)" "ip_cmp (addr_storage (rq_cli_addr rq) mem) (tc_remote_addr c) = 0"
    unfolding handle_resume_fetch_req_def by blast
  from resume_run_objs [OF assms(1) c(1)] obtain v rq' where "R_Store v rq' \<in> set ops" "stored_by v rq' c"
    by (auto simp: tls_cache_init_def stored_in_def)
  with c(2-5) show ?thesis unfolding stored_by_def by (intro exI [of _ v] exI [of _ rq']) metis
qed

definition demo_addr :: bytes where
  "demo_addr = [2, 0, 0, 0, 10, 0, 0, 7, 0, 0, 0, 0, 0, 0, 0, 0]"

definition demo_store :: resume_op where
  "demo_store = R_Store \<lparr>re_alloc = True, re_dup = Some 500, re_add = True, re_mem = zero_ss\<rparr>
     \<lparr>rq_session_id = [1, 2], rq_session_data = [8, 8], rq_cli_addr = demo_addr, rq_vhost = None\<rparr>"

definition demo_fetch :: resume_req where
  "demo_fetch = \<lparr>rq_session_id = [1, 2], rq_session_data = [], rq_cli_addr = demo_addr, rq_vhost = None\<rparr>"

definition demo_tls_db :: tls_sess_db where
  "demo_tls_db = the (resume_run (\<lambda>_. 5) 16 (\<lambda>_. 0) 300 [demo_store] tls_cache_init)"

lemma demo_tls_run: "resume_run (\<lambda>_. 5) 16 (\<lambda>_. 0) 300 [demo_store] tls_cache_init = Some demo_tls_db"
  by (simp add: demo_tls_db_def demo_store_def tls_cache_init_def handle_resume_store_req_def MAX_SESSION_ID_def
      MAX_SESSION_DATA_SIZE_def demo_addr_def Let_def)

lemma demo_tls_fetch: "handle_resume_fetch_req (\<lambda>_. 5) zero_ss demo_fetch demo_tls_db = Some [8, 8]"
  unfolding demo_tls_db_def by code_simp

theorem resumes_only_own_session_witness:
  "\<exists>v rq'. R_Store v rq' \<in> set [demo_store] \<and> rq_session_id rq' = rq_session_id demo_fetch \<and> rq_session_data rq' = [8, 8] \<and>
     length (rq_cli_addr rq') = length (rq_cli_addr demo_fetch) \<and>
     ip_cmp (addr_storage (rq_cli_addr demo_fetch) zero_ss) (addr_storage (rq_cli_addr rq') (re_mem v)) = 0"
  by (rule resumes_only_own_session [OF demo_tls_run demo_tls_fetch])

text \<open>C30. Sessions of a virtual host are never resumed: the fetch request compares the address of its own
  copy of the host name with that of the copy in the cache, so that, the two copies being different
  objects, every request that names a virtual host is refused, although the names are equal.\<close>

theorem vhost_session_never_resumed:
  assumes "resume_run H mx expiry tmo ops tls_cache_init = Some db" and "rq_vhost rq = Some (a, s)"
    and "\<And>v rq'. R_Store v rq' \<in> set ops \<Longrightarrow> re_dup v \<noteq> Some a"
  shows "handle_resume_fetch_req H mem rq db = None"
proof (rule ccontr)
  assume "handle_resume_fetch_req H mem rq db \<noteq> None"
  then obtain dat where "resume_fetch_loop rq (H (rq_session_id rq)) mem (tdb_ht db) = Some dat"
    by (auto simp: handle_resume_fetch_req_def)
  from fetch_loop_Some [OF this] obtain c where
    c: "c \<in> set (htable_objs (tdb_ht db))" "map_option fst (rq_vhost rq) = map_option fst (tc_vhostname c)" by blast
  from resume_run_objs [OF assms(1) c(1)] obtain v rq' where "R_Store v rq' \<in> set ops" "stored_by v rq' c"
    by (auto simp: tls_cache_init_def stored_in_def)
  with c(2) assms(2,3) show False by (auto simp: stored_by_def dup_str_def split: option.splits)
qed

definition demo_vstore :: resume_op where
  "demo_vstore = R_Store \<lparr>re_alloc = True, re_dup = Some 500, re_add = True, re_mem = zero_ss\<rparr>
     \<lparr>rq_session_id = [1, 2], rq_session_data = [8, 8], rq_cli_addr = demo_addr, rq_vhost = Some (100, ''www'')\<rparr>"

theorem vhost_session_never_resumed_witness:
  "handle_resume_fetch_req (\<lambda>_. 5) zero_ss (demo_fetch\<lparr>rq_vhost := Some (200, ''www'')\<rparr>)
     (the (resume_run (\<lambda>_. 5) 16 (\<lambda>_. 0) 300 [demo_vstore] tls_cache_init)) = None"
  by (rule vhost_session_never_resumed [of "\<lambda>_. 5" 16 "\<lambda>_. 0" 300 "[demo_vstore]" _ _ 200 "''www''"])
    (auto simp: demo_vstore_def tls_cache_init_def handle_resume_store_req_def MAX_SESSION_ID_def
      MAX_SESSION_DATA_SIZE_def demo_addr_def Let_def)

section \<open>The cache is bounded\<close>

definition db_bounded :: "u32 \<Rightarrow> tls_sess_db \<Rightarrow> bool" where
  "db_bounded mx db \<longleftrightarrow> length (tdb_ht db) \<le> unat (tdb_entries db) \<and> tdb_entries db \<le> max (2 * mx) 64"

lemma length_htable_del: "htable_get t h cmp \<noteq> None \<Longrightarrow> Suc (length (htable_del t h cmp)) = length t"
  by (induction t h cmp rule: htable_del.induct) (auto split: if_splits)

lemma resume_step_bounded:
  assumes "resume_step H mx expiry tmo op db = Some db'" and "db_bounded mx db"
  shows "db_bounded mx db'"
proof (cases op)
  case (R_Store v rq)
  show ?thesis
  proof (cases "tdb_entries db < max (2 * mx) 64")
    case True
    have u: "unat (tdb_entries db + 1) = unat (tdb_entries db) + 1"
      using True unsigned_less [of "max (2 * mx) 64", where ?'a = nat] unat_plus_u32 [of "tdb_entries db" 1]
      by (simp add: word_less_nat_alt)
    then have "tdb_entries db + 1 \<le> max (2 * mx) 64" using True by (simp add: word_le_nat_alt word_less_nat_alt)
    then show ?thesis using assms R_Store u
      by (auto simp: handle_resume_store_req_def Let_def db_bounded_def htable_add_def simp del: max_less_iff_conj less_max_iff_disj le_max_iff_disj split: if_splits)
  next
    case False
    then have "2 * mx \<le> tdb_entries db" "64 \<le> tdb_entries db" by (simp_all add: not_less)
    then show ?thesis using assms R_Store by (auto simp: handle_resume_store_req_def split: if_splits)
  qed
next
  case (R_Delete rq)
  show ?thesis
  proof (cases "htable_get (tdb_ht db) (H (rq_session_id rq)) (same_session (rq_session_id rq))")
    case None
    then show ?thesis using assms R_Delete by (simp add: handle_resume_delete_req_def Let_def)
  next
    case (Some c)
    then have l: "Suc (length (htable_del (tdb_ht db) (H (rq_session_id rq)) (same_session (rq_session_id rq)))) = length (tdb_ht db)"
      by (intro length_htable_del) simp
    then have e: "1 \<le> tdb_entries db" using assms(2) by (auto simp: db_bounded_def word_le_nat_alt)
    then have "unat (tdb_entries db - 1) = unat (tdb_entries db) - 1" by (simp add: unat_sub)
    then show ?thesis using assms R_Delete Some l e
      by (auto simp: handle_resume_delete_req_def Let_def db_bounded_def word_le_nat_alt max_def split: if_splits)
  qed
next
  case (R_Expire nw)
  let ?old = "\<lambda>c. tmo < nw - expiry (tc_session_data c)"
  define k where "k = length (filter ?old (htable_objs (tdb_ht db)))"
  have le: "k \<le> length (tdb_ht db)" unfolding k_def by (metis length_filter_le length_map)
  have "length (filter (\<lambda>(h, e). \<not> ?old e) t) + length (filter ?old (map snd t)) = length t" for t :: "tls_cache htable"
    by (induction t) auto
  then have len: "length (htable_purge (tdb_ht db) ?old) + k = length (tdb_ht db)" by (simp add: htable_purge_def k_def)
  have b: "length (tdb_ht db) \<le> unat (tdb_entries db)" using assms(2) by (simp add: db_bounded_def)
  have n: "unat (of_nat k :: u32) = k"
    using le_less_trans [OF le_trans [OF le b] unsigned_less [of "tdb_entries db", where ?'a = nat]]
    by (subst unat_of_nat) simp
  then have "of_nat k \<le> tdb_entries db" using le b by (simp add: word_le_nat_alt)
  then have "unat (tdb_entries db - of_nat k) = unat (tdb_entries db) - k" using n by (simp add: unat_sub)
  moreover have "db' = \<lparr>tdb_ht = htable_purge (tdb_ht db) ?old, tdb_entries = tdb_entries db - of_nat k\<rparr>"
    using assms(1) R_Expire by (simp add: expire_tls_sessions_def Let_def k_def)
  ultimately show ?thesis using assms(2) len b
    by (auto simp: db_bounded_def word_le_nat_alt max_def split: if_splits)
qed

lemma cache_bounded:
  assumes "resume_run H mx expiry tmo ops tls_cache_init = Some db"
  shows "length (tdb_ht db) \<le> unat (max (2 * mx) 64)"
proof -
  have "db_bounded mx db" if "resume_run H mx expiry tmo ops d = Some db" "db_bounded mx d" for d
    using that
  proof (induction ops arbitrary: d)
    case (Cons op ops)
    then show ?case by (auto simp: bind_eq_Some_conv intro: resume_step_bounded)
  qed simp
  moreover have "db_bounded mx tls_cache_init" by (simp add: db_bounded_def tls_cache_init_def)
  ultimately show ?thesis using assms by (auto simp: db_bounded_def word_le_nat_alt intro: le_trans)
qed

end
