(* ===== verification/Spec2Isabelle.thy ===== *)
theory Spec2Isabelle
  imports IpUtil MainBan LzsCorrect ConfigPorts Login WorkerSafe SockIo SecModResume
begin

text \<open>
  A verification library for ocserv, a VPN server that speaks the OpenConnect protocol. The C sources
  are under \<^verbatim>\<open>src/src\<close>.

  \<^bold>\<open>The program.\<close> ocserv is three kinds of processes. The \<^emph>\<open>main process\<close> (\<^verbatim>\<open>main*.c\<close>) accepts
  connections, keeps the list of clients, leases addresses, opens the tun devices, runs the scripts, and
  hands datagrams to the client they belong to. For each connection it forks a \<^emph>\<open>worker\<close>
  (\<^verbatim>\<open>worker-*.c\<close>), which talks to the client over TLS and DTLS and moves the packets of the tunnel. The
  \<^emph>\<open>security module\<close> (\<^verbatim>\<open>sec-mod*.c\<close>) holds the authentication sessions. A worker authenticates its
  client at the security module and gets a cookie; it sends the cookie to the main process, which opens
  the session at the security module and gives the worker a tunnel device. The processes exchange
  messages over local sockets.

  \<^bold>\<open>Conventions.\<close> Machine integers are words of their C width where they can wrap; times are
  integers. A C string is a \<^typ>\<open>string\<close>, \<^verbatim>\<open>NULL\<close> is \<^term>\<open>None\<close>, a buffer is a list of bytes. Objects with
  several owners live in an explicit heap. An early return, an exit, a fault and a loop that does not end
  are different results. What the kernel, GnuTLS, allocation, the clock and the random source answer is
  an argument (the records \<open>sec_env\<close>, \<open>lease_env\<close>, \<open>main_env\<close>, \<open>worker_env\<close>), so that the theorems hold
  for every answer unless a hypothesis says otherwise.

  \<^bold>\<open>Shared theories.\<close>
  \<^item> \<open>Prelude\<close>: machine types, buffers, and generic lemmas.
  \<^item> \<open>CLib\<close>: the functions of the C library that the sources call.
  \<^item> \<open>Htable\<close>: the hash tables of \<^verbatim>\<open>ccan/htable\<close> at their documented interface. The locale
    \<open>keyed_db\<close> has the laws of a table with one entry per key, and is interpreted on these tables.
  \<^item> \<open>IpUtil\<close> (\<^verbatim>\<open>ip-util.c\<close>): socket addresses, prefixes and routes. The rewriting of routes between the
    dotted and the CIDR form is a round trip.
  \<^item> \<open>Str\<close> (\<^verbatim>\<open>str.c\<close>): growing strings with their memory. Appending refines concatenation and stays inside
    the block; the replacement of patterns is a single pass when no value has a percent sign, and does
    not end for a value that holds its own pattern.

  \<^bold>\<open>Security module.\<close>
  \<^item> \<open>SecModDb\<close> (\<^verbatim>\<open>sec-mod-db.c\<close>, \<^verbatim>\<open>sec-mod.h\<close>, \<^verbatim>\<open>vhost.h\<close>): the table of sessions, their creation,
    expiry and removal, and its invariant.
  \<^item> \<open>SecModAuth\<close> (\<^verbatim>\<open>sec-mod-auth.c\<close>): every handler. They refine an abstract life cycle of a session;
    a session is opened only when its authentication completed, and with certificates enabled only after a
    verified certificate.
  \<^item> \<open>SecModResume\<close> (\<^verbatim>\<open>sec-mod-resume.c\<close>): the cache of TLS sessions. Data is handed out only to the
    address that stored it, and the cache is bounded.

  \<^bold>\<open>Main process.\<close>
  \<^item> \<open>MainTypes\<close> (\<^verbatim>\<open>main.h\<close>, \<^verbatim>\<open>vpn.h\<close>): the state, the client objects on their heap, the configuration.
  \<^item> \<open>MainBan\<close> (\<^verbatim>\<open>main-ban.c\<close>): the ban list. It refines a running score per network and keeps one entry
    for each of them.
  \<^item> \<open>ConfigPorts\<close> (\<^verbatim>\<open>config-ports.c\<close>): the port lists; parsing inverts printing.
  \<^item> \<open>IpLease\<close> (\<^verbatim>\<open>ip-lease.c\<close>): the search for addresses ends, and an IPv4 address that it finds is usable
    and free.
  \<^item> \<open>ProcSearch\<close> (\<^verbatim>\<open>proc-search.c\<close>): the four tables of clients and what a search in them finds.
  \<^item> \<open>RouteAdd\<close> (\<^verbatim>\<open>route-add.c\<close>): routes are all added or all undone.
  \<^item> \<open>MainSession\<close> (\<^verbatim>\<open>main-sec-mod-cmd.c\<close>): the dialogue with the security module.
  \<^item> \<open>MainUser\<close> (\<^verbatim>\<open>main-user.c\<close>, \<^verbatim>\<open>script-list.h\<close>): the environment of the scripts is what the session's
    configuration says.
  \<^item> \<open>MainServer\<close> (\<^verbatim>\<open>main-proc.c\<close>, \<^verbatim>\<open>main-auth.c\<close>, \<^verbatim>\<open>main-worker-cmd.c\<close>, \<^verbatim>\<open>tun.c\<close>): the life of a client.
  \<^item> \<open>MainUdp\<close> (\<^verbatim>\<open>main.c\<close>): the dispatch of datagrams. The identifier of a client hello is read back
    exactly, and a datagram reaches the owner of its session and nobody else.
  \<^item> \<open>MainLoop\<close> (\<^verbatim>\<open>main.c\<close>, \<^verbatim>\<open>main-ctl-unix.c\<close>): new connections, maintenance, shutdown, control commands.
  \<^item> \<open>MainInv\<close>, \<open>MainStep\<close>: the invariant of the process, triples for every handler, and the reachable states
    as an inductive relation over the events of the main loop. In all of them the tables point to
    live objects, no two clients share an address of the pool, the number of clients is bounded, no
    event crashes, and a shutdown leaves nothing behind.
  \<^item> \<open>Login\<close>: the main process and the security module together. A cookie is accepted only for a completed
    session, with its user.

  \<^bold>\<open>Worker.\<close>
  \<^item> \<open>Lzs\<close>, \<open>LzsCodec\<close>, \<open>LzsCorrect\<close> (\<^verbatim>\<open>lzs.c\<close>): the compressor and the decompressor. They are inverse, total
    and stay in bounds.
  \<^item> \<open>Bandwidth\<close> (\<^verbatim>\<open>worker-bandwidth.c\<close>): the rate limit holds over every sequence of packets.
  \<^item> \<open>Worker\<close>, \<open>WorkerData\<close> (\<^verbatim>\<open>worker-vpn.c\<close>, \<^verbatim>\<open>worker-misc.c\<close>): the state of an established tunnel, the data path,
    timers, commands, and a round of the main loop.
  \<^item> \<open>WorkerTunnel\<close>: a packet survives the tunnel. The receiver in this theorem is the server's own parser.
  \<^item> \<open>WorkerMtu\<close>: the MTU operations refine a search on numbers, which ends at the MTU of the path.
  \<^item> \<open>WorkerSafe\<close>: the locale \<open>worker_keeps\<close> states what a property of the MTU fields needs in order to hold through the
    main loop. Its two interpretations give memory safety and the disconnection of overdue clients.
  \<^item> \<open>SockIo\<close> (\<^verbatim>\<open>tlslib.c\<close>, \<^verbatim>\<open>common/common.c\<close>): packets and messages are recovered from a stream however it is
    cut.

  Properties of the kind \<^emph>\<open>error\<close> prove where the code fails: among them the zero offset of LZS, small
  MTUs, truncated messages, sessions of virtual hosts, explicit addresses, and the IPv6 search.

  \<^bold>\<open>Bounds and fuel.\<close> The walk through the hash chain of LZS (\<open>find_match\<close>) has fuel; \<open>lzs_compress_total\<close>
  shows that it never runs out, since the chain visits strictly smaller positions. The replacement loop of
  \<open>Str\<close> is a partial function, whose \<^term>\<open>None\<close> is a loop without end. In \<open>mtu_discovery_converges\<close>, 37 packets
  are enough: at most 8 steps by two thirds lead from 16384 below every path MTU of at least 800, and the
  bisection of an interval of at most \<open>2 ^ 14\<close> takes 29 more.
  \<open>tunnel_memory_safe\<close> assumes that the MTUs are at least the header overhead (\<open>wfits\<close>), and
  \<open>small_mtu_overruns\<close> shows that the assumption is needed. \<open>events_never_crash\<close> assumes memory for the arrays of
  routes, addresses as long as their family says, and datagrams shorter than the receive buffer.

  \<^bold>\<open>Not modelled.\<close> The HTTP and XML front end of the worker (\<^verbatim>\<open>worker-http*.c\<close>, \<^verbatim>\<open>worker-auth.c\<close>, \<^verbatim>\<open>html.c\<close>) and the
  TLS handshakes, which are driven by http-parser, libxml2 and GnuTLS; the proxy protocol and the
  Kerberos proxy (network input and output before or beside the tunnel); the configuration files
  (\<^verbatim>\<open>config.c\<close>, \<^verbatim>\<open>subconfig.c\<close>, \<^verbatim>\<open>sup-config\<close>), whose results are arguments; the authentication and accounting
  modules (PAM, RADIUS, GSSAPI), which are records of callbacks; the socket loop and the key operations
  of \<^verbatim>\<open>sec-mod.c\<close>; start, reload, signals and privileges of the processes; the listing commands of the
  control socket; ICMP, logging, the tools \<^verbatim>\<open>occtl\<close> and \<^verbatim>\<open>ocpasswd\<close>, and vendored or generated code.
\<close>

end
